theory Spec2Isabelle
  imports Complex_Main "HOL-Library.Multiset" "HOL-Library.Signed_Division"
begin

section \<open>Errors and machine integers\<close>

text \<open>
  Every way in which a function of \<^verbatim>\<open>csrc/backend.cc\<close> leaves by an exception is a
  value of \<open>error\<close>:
  \<^item> \<open>CheckFailed\<close>: a \<^verbatim>\<open>TORCH_CHECK\<close> whose condition is false;
  \<^item> \<open>KernelFailure\<close>: \<^verbatim>\<open>CALL_CUDA\<close> on a status that is not \<^verbatim>\<open>cudaSuccess\<close>;
  \<^item> \<open>LibraryError\<close>: an exception raised inside a tensor-library call (an accessor
    of the wrong rank or element type, a histogram without bins, an index out of range,
    a negative size);
  \<^item> \<open>Undefined\<close>: the C++ has no defined behaviour (division by zero, a read past
    the end of a buffer).
\<close>

datatype error = CheckFailed | KernelFailure | LibraryError | Undefined

definition TORCH_CHECK :: "bool \<Rightarrow> error + unit" where
  "TORCH_CHECK c = (if c then Inr () else Inl CheckFailed)"

definition bind :: "error + 'a \<Rightarrow> ('a \<Rightarrow> error + 'b) \<Rightarrow> error + 'b" where
  "bind m f = (case m of Inl e \<Rightarrow> Inl e | Inr x \<Rightarrow> f x)"

text \<open>
  A C++ \<^verbatim>\<open>int\<close> is 32 bits wide. Values are kept as \<open>int\<close> and narrowed where the
  source narrows them: \<open>to_int32\<close> is the two's complement wrap-around.
\<close>

definition to_int32 :: "int \<Rightarrow> int" where
  "to_int32 x = (x + 2147483648) mod 4294967296 - 2147483648"

text \<open>The same for the 16-bit integers that are the elements of \<^verbatim>\<open>indices\<close>.\<close>

definition to_int16 :: "int \<Rightarrow> int" where
  "to_int16 x = (x + 32768) mod 65536 - 32768"

section \<open>Tensors\<close>

datatype device = CPU | CUDA

datatype scalar_type = kHalf | kInt | kShort | kFloat | kLong

text \<open>
  A tensor as this file looks at it: where it lives, its element type, its sizes and
  strides (one stride for each size), and its storage: \<open>elems\<close> is the cells of its
  buffer from \<^verbatim>\<open>data_ptr()\<close> on, so entry \<open>i\<close> of a one-dimensional tensor is the
  cell \<open>i * stride\<close>, and the cells between the entries of a tensor that is not
  contiguous are there too. The payload of a half-precision tensor is never read or
  written by this layer and is left out (\<open>elems\<close> is then irrelevant).
\<close>

record tensor =
  device :: device
  scalar_type :: scalar_type
  sizes :: "nat list"
  strides :: "nat list"
  elems :: "int list"

definition is_cuda :: "tensor \<Rightarrow> bool" where
  "is_cuda x = (device x = CUDA)"

definition numel :: "tensor \<Rightarrow> nat" where
  "numel x = prod_list (sizes x)"

definition ndimension :: "tensor \<Rightarrow> nat" where
  "ndimension x = length (sizes x)"

text \<open>
  The entries of a one-dimensional tensor in logical order, as the operations of the
  tensor library see them.
\<close>

definition entries :: "tensor \<Rightarrow> int list" where
  "entries x = map (\<lambda>i. elems x ! (i * strides x ! 0)) [0..<sizes x ! 0]"

text \<open>\<^verbatim>\<open>x.size(d)\<close> raises when the tensor has no dimension \<open>d\<close>.\<close>

definition size_at :: "tensor \<Rightarrow> nat \<Rightarrow> error + int" where
  "size_at x d = (if d < ndimension x then Inr (int (sizes x ! d)) else Inl LibraryError)"

text \<open>
  \<^verbatim>\<open>x.is_contiguous()\<close>: an empty tensor is contiguous; otherwise the strides of the
  dimensions of size other than 1 are those of the row-major layout.
\<close>

fun contiguous_from :: "nat \<Rightarrow> (nat \<times> nat) list \<Rightarrow> bool" where
  "contiguous_from z [] = True"
| "contiguous_from z ((sz, st) # ds) =
     (if sz = 1 then contiguous_from z ds
      else if st = z then contiguous_from (z * sz) ds else False)"

definition is_contiguous :: "tensor \<Rightarrow> bool" where
  "is_contiguous x = (numel x = 0 \<or> contiguous_from 1 (rev (zip (sizes x) (strides x))))"

section \<open>Validation helpers\<close>

definition validate_shape :: "tensor \<Rightarrow> error + unit" where
  "validate_shape shape =
     bind (TORCH_CHECK (\<not> is_cuda shape)) (\<lambda>_.
     bind (TORCH_CHECK (numel shape = 2)) (\<lambda>_.
     TORCH_CHECK (scalar_type shape = kInt)))"

definition validate_transpose :: "tensor \<Rightarrow> error + unit" where
  "validate_transpose t =
     bind (TORCH_CHECK (\<not> is_cuda t)) (\<lambda>_.
     bind (TORCH_CHECK (numel t = 1)) (\<lambda>_.
     TORCH_CHECK (scalar_type t = kInt)))"

definition validate_sparse :: "tensor \<Rightarrow> tensor \<Rightarrow> tensor \<Rightarrow> tensor \<Rightarrow> error + unit" where
  "validate_sparse shape data offsets indices =
     bind (validate_shape shape) (\<lambda>_.
     bind (TORCH_CHECK (is_cuda data)) (\<lambda>_.
     bind (TORCH_CHECK (ndimension data = 3)) (\<lambda>_.
     bind (TORCH_CHECK (scalar_type data = kHalf)) (\<lambda>_.
     bind (TORCH_CHECK (is_cuda offsets)) (\<lambda>_.
     bind (TORCH_CHECK (ndimension offsets = 1)) (\<lambda>_.
     bind (TORCH_CHECK (scalar_type offsets = kInt)) (\<lambda>_.
     bind (TORCH_CHECK (is_cuda indices)) (\<lambda>_.
     bind (TORCH_CHECK (ndimension indices = 1)) (\<lambda>_.
     bind (TORCH_CHECK (scalar_type indices = kShort)) (\<lambda>_.
     bind (size_at data 1) (\<lambda>s1.
     bind (size_at data 2) (\<lambda>s2.
     bind (TORCH_CHECK (s1 = s2)) (\<lambda>_.
     TORCH_CHECK (s1 = 128))))))))))))))"

text \<open>
  \<open>is_transposed\<close> reads the first two strides and the first size. Every call of the
  source comes after \<^verbatim>\<open>CHECK_MATRIX\<close>, so both exist.
\<close>

definition is_transposed :: "tensor \<Rightarrow> bool" where
  "is_transposed x = (strides x ! 0 = 1 \<and> strides x ! 1 = sizes x ! 0)"

definition validate_dense :: "tensor \<Rightarrow> error + unit" where
  "validate_dense x =
     bind (TORCH_CHECK (is_cuda x)) (\<lambda>_.
     bind (TORCH_CHECK (ndimension x = 2)) (\<lambda>_.
     bind (TORCH_CHECK (scalar_type x = kHalf)) (\<lambda>_.
     TORCH_CHECK (is_contiguous x \<or> is_transposed x))))"

section \<open>Conversion helpers\<close>

text \<open>
  The descriptors of the kernel library. Its header is not part of the repository; the
  fields are the ones the source passes to the constructors and assigns afterwards. A
  pointer into a caller's tensor is the handle of that tensor; a pointer to a buffer
  this layer has just computed is the buffer's contents; the bitmask workspace is
  uninitialised, so only its size in bytes is kept. \<^verbatim>\<open>AsBlockSize\<close> and \<^verbatim>\<open>AsInt\<close>
  convert between the block size and its enumeration and are the identity here.
\<close>

record Matrix =
  rows :: int
  cols :: int
  data_ptr :: nat

record BlockMatrix = Matrix +
  block_size :: int
  nonzeros :: int
  offsets_ptr :: nat
  indices_ptr :: nat
  offsets_t :: "int list option"
  indices_t :: "int list option"
  block_offsets :: "int list option"
  bitmask :: "nat option"

type_synonym heap = "nat \<Rightarrow> tensor"

definition as_matrix :: "heap \<Rightarrow> nat \<Rightarrow> error + Matrix" where
  "as_matrix H x =
     bind (validate_dense (H x)) (\<lambda>_.
     Inr \<lparr>rows = to_int32 (int (if is_transposed (H x) then sizes (H x) ! 1 else sizes (H x) ! 0)),
          cols = to_int32 (int (if is_transposed (H x) then sizes (H x) ! 0 else sizes (H x) ! 1)),
          data_ptr = x\<rparr>)"

text \<open>
  \<^verbatim>\<open>m.accessor<int, 1>()\<close> raises unless the tensor has one dimension and 32-bit integer
  elements. The accessor follows the stride: \<^verbatim>\<open>accessor[idx]\<close> is the cell
  \<open>idx * stride\<close>, and it does not compare \<open>idx\<close> with the size. Reading past the end
  of the buffer has no defined behaviour.
\<close>

definition access_metadata :: "tensor \<Rightarrow> nat \<Rightarrow> error + int" where
  "access_metadata m idx =
     (if ndimension m \<noteq> 1 \<or> scalar_type m \<noteq> kInt then Inl LibraryError
      else if idx * strides m ! 0 < length (elems m) then Inr (elems m ! (idx * strides m ! 0))
      else Inl Undefined)"

definition as_block_matrix :: "heap \<Rightarrow> nat \<Rightarrow> nat \<Rightarrow> nat \<Rightarrow> nat \<Rightarrow> error + BlockMatrix" where
  "as_block_matrix H shape data offsets indices =
     bind (validate_sparse (H shape) (H data) (H offsets) (H indices)) (\<lambda>_.
     bind (access_metadata (H shape) 0) (\<lambda>r.
     bind (access_metadata (H shape) 1) (\<lambda>c.
     bind (size_at (H data) 1) (\<lambda>bs.
     Inr \<lparr>rows = r, cols = c, data_ptr = data,
          block_size = bs, nonzeros = to_int32 (int (numel (H indices))),
          offsets_ptr = offsets, indices_ptr = indices,
          offsets_t = None, indices_t = None, block_offsets = None, bitmask = None\<rparr>))))"

section \<open>The collaborators\<close>

text \<open>
  The kernel library and the tensor library are not part of the repository. What the
  kernel library decides is a parameter of the model: whether a multiplication is
  well-formed, and the status each kernel launch reports. So is the order in which
  \<^verbatim>\<open>argsort\<close> returns the positions of equal keys, which the tensor library leaves
  open, and what \<^verbatim>\<open>histc\<close> does with a bound that the element type of its input
  cannot hold, which differs between versions of the tensor library.
\<close>

datatype operand = Dense Matrix | Sparse BlockMatrix

record env =
  argsort :: "rat list \<Rightarrow> nat list"
  histc_wide :: "int list \<Rightarrow> int \<Rightarrow> int \<Rightarrow> int \<Rightarrow> error + int list"
  RowIndices_ok :: bool
  ValidMatmul :: "operand \<Rightarrow> bool \<Rightarrow> operand \<Rightarrow> bool \<Rightarrow> operand \<Rightarrow> bool"
  Matmul_ok :: "operand \<Rightarrow> bool \<Rightarrow> operand \<Rightarrow> bool \<Rightarrow> operand \<Rightarrow> bool"
  MatmulEx_ok :: "operand \<Rightarrow> bool \<Rightarrow> operand \<Rightarrow> bool \<Rightarrow> operand \<Rightarrow> bool"

text \<open>
  What \<^verbatim>\<open>argsort\<close> promises: a permutation of the positions that lists the keys in
  ascending order.
\<close>

definition argsort_ok :: "rat list \<Rightarrow> nat list \<Rightarrow> bool" where
  "argsort_ok keys p \<longleftrightarrow> mset p = mset [0..<length keys] \<and> sorted (map (\<lambda>i. keys ! i) p)"

text \<open>One implementation of it: the stable one.\<close>

definition stable_argsort :: "rat list \<Rightarrow> nat list" where
  "stable_argsort keys = sort_key (\<lambda>i. keys ! i) [0..<length keys]"

text \<open>
  Modelled from the spec: \<^verbatim>\<open>sputnik::block::RowIndices\<close>, the kernel that gives every
  stored block its block-row index by replaying the offsets against the flat block
  sequence (the inverse of the row-pointer mapping). Block \<open>j\<close> lies in the first
  block-row whose end pointer is beyond \<open>j\<close>.
\<close>

definition row_of :: "int list \<Rightarrow> nat \<Rightarrow> int" where
  "row_of offs j = int (length (takeWhile (\<lambda>e. e \<le> int j) (tl offs)))"

definition RowIndices :: "int list \<Rightarrow> nat \<Rightarrow> int list" where
  "RowIndices offs n = map (row_of offs) [0..<n]"

text \<open>\<^verbatim>\<open>x.gather(0, index)\<close> on vectors; an index past the end raises.\<close>

definition gather :: "int list \<Rightarrow> nat list \<Rightarrow> error + int list" where
  "gather xs is = (if \<forall>i \<in> set is. i < length xs then Inr (map (\<lambda>i. xs ! i) is)
                   else Inl LibraryError)"

text \<open>
  \<^verbatim>\<open>torch::linspace(start, end, steps)\<close> with an integer element type: \<open>steps\<close> values
  from \<open>start\<close> to \<open>end\<close> at equal distance, truncated (exact whenever \<open>end - start\<close>
  is a multiple of \<open>steps - 1\<close>). A negative number of steps raises.
\<close>

definition linspace :: "int \<Rightarrow> int \<Rightarrow> int \<Rightarrow> error + int list" where
  "linspace start end steps =
     (if steps < 0 then Inl LibraryError
      else if steps = 1 then Inr [start]
      else Inr (map (\<lambda>i. start + (int i * (end - start)) sdiv (steps - 1)) [0..<nat steps]))"

text \<open>
  \<^verbatim>\<open>x.histc(bins, min, max)\<close>: \<open>bins\<close> bins of equal width between \<open>min\<close> and \<open>max\<close>;
  an element outside the range is ignored, an element equal to \<open>max\<close> belongs to the
  last bin. \<open>bin_counts\<close> is the number of elements of every bin.
\<close>

definition bin_of :: "int \<Rightarrow> int \<Rightarrow> int \<Rightarrow> int \<Rightarrow> int" where
  "bin_of bins lo hi x = (let b = ((x - lo) * bins) div (hi - lo) in if b = bins then b - 1 else b)"

definition bin_counts :: "int list \<Rightarrow> int \<Rightarrow> int \<Rightarrow> int \<Rightarrow> int list" where
  "bin_counts xs bins lo hi =
     map (\<lambda>b. int (length (filter (\<lambda>x. lo \<le> x \<and> x \<le> hi \<and> bin_of bins lo hi x = int b) xs)))
       [0..<nat bins]"

text \<open>
  The one call of the source is on \<^verbatim>\<open>indices\<close>, a tensor of 16-bit integers on the
  device. The histogram of a tensor on the device has the element type of its input:
  the counts are accumulated as 16-bit integers and wrap around, and the bounds are
  taken in that type. A bound that does not fit is left to \<open>histc_wide\<close>. No bins, or
  a maximum below the minimum, raises. (With \<open>min = max\<close> the library takes the range
  from the data; the call of the source has \<open>min = 0\<close> and \<open>max = kCols\<close>, and
  \<open>kCols = 0\<close> leaves no bins, so that case is an error here too.)
\<close>

definition histc :: "env \<Rightarrow> int list \<Rightarrow> int \<Rightarrow> int \<Rightarrow> int \<Rightarrow> error + int list" where
  "histc E xs bins lo hi =
     (if lo < - 32768 \<or> 32767 < lo \<or> hi < - 32768 \<or> 32767 < hi then histc_wide E xs bins lo hi
      else if bins \<le> 0 \<or> hi \<le> lo then Inl LibraryError
      else Inr (map to_int16 (bin_counts xs bins lo hi)))"

text \<open>
  \<^verbatim>\<open>x.cumsum(0)\<close>: the running sums. Those of an integer tensor are 64-bit integers,
  which hold every sum of 16-bit counts that can occur.
\<close>

fun cumsum_from :: "int \<Rightarrow> int list \<Rightarrow> int list" where
  "cumsum_from acc [] = []"
| "cumsum_from acc (x # xs) = (acc + x) # cumsum_from (acc + x) xs"

definition cumsum :: "int list \<Rightarrow> int list" where
  "cumsum xs = cumsum_from 0 xs"

section \<open>Row indices helper\<close>

definition row_indices :: "env \<Rightarrow> heap \<Rightarrow> nat \<Rightarrow> nat \<Rightarrow> nat \<Rightarrow> nat \<Rightarrow> error + int list" where
  "row_indices E H shape data offsets indices =
     bind (as_block_matrix H shape data offsets indices) (\<lambda>x.
     bind (size_at (H indices) 0) (\<lambda>n.
     if RowIndices_ok E then Inr (RowIndices (elems (H offsets)) (nat n))
     else Inl KernelFailure))"

section \<open>Transpose helper\<close>

text \<open>
  \<^verbatim>\<open>row_idxs / kBlockSize\<close> is the tensor library's true division: the quotients are
  32-bit floats, and so are the sort keys. The indices are 16-bit and so are the row
  indices, hence a key is a multiple of \<open>1/128\<close> below \<open>2 ^ 16\<close> in absolute value
  once the block size is known to be 128; such numbers are floats and the sum is
  exact. The keys are therefore the rational numbers themselves.

  The operations of the tensor library on \<^verbatim>\<open>indices\<close> (the sum, the histogram) see its
  entries in logical order; the row-index kernel is given the pointer to the offsets and
  reads the cells of the buffer.

  The source's \<^verbatim>\<open>sizeof(sputnik::half)\<close> is 2. The narrowing to \<^verbatim>\<open>int\<close> of
  \<^verbatim>\<open>indices.numel()\<close> and \<^verbatim>\<open>data.size(1)\<close>, the \<^verbatim>\<open>int\<close> product that is the end of
  the \<^verbatim>\<open>linspace\<close>, and the conversion of the offsets to 32-bit elements wrap
  around. The counts of the histogram are 16-bit; their running sums and the products
  with \<open>kValuesPerBlock\<close> are 64-bit and exact.
\<close>

definition transpose_helper ::
  "env \<Rightarrow> heap \<Rightarrow> nat \<Rightarrow> nat \<Rightarrow> nat \<Rightarrow> nat \<Rightarrow> error + int list \<times> int list \<times> int list" where
  "transpose_helper E H shape data offsets indices =
     (let kNonzeros = to_int32 (int (numel (H indices))) in
      bind (size_at (H data) 1) (\<lambda>sz.
      let kBlockSize = to_int32 sz in
      bind (access_metadata (H shape) 1) (\<lambda>kCols.
      if kBlockSize = 0 then Inl Undefined else
      let kBlockCols = kCols sdiv kBlockSize in
      bind (TORCH_CHECK (kBlockSize = 128)) (\<lambda>_.
      bind (access_metadata (H shape) 0) (\<lambda>kRows.
      bind (TORCH_CHECK (kRows \<le> 128 * 128)) (\<lambda>_.
      bind (row_indices E H shape data offsets indices) (\<lambda>row_idxs.
      let sort_indices = map2 (\<lambda>c r. of_int c + of_int r / of_int kBlockSize)
                           (entries (H indices)) row_idxs;
          gather_indices = argsort E sort_indices in
      bind (gather row_idxs gather_indices) (\<lambda>indices_t.
      let kValuesPerBlock = kBlockSize * kBlockSize;
          kBytesPerBlock = kValuesPerBlock * 2 in
      bind (linspace 0 (to_int32 ((kNonzeros - 1) * kBytesPerBlock)) kNonzeros) (\<lambda>block_offsets.
      bind (gather block_offsets gather_indices) (\<lambda>block_offsets_t.
      bind (histc E (entries (H indices)) kBlockCols 0 kCols) (\<lambda>nnz_per_column.
      let zero = [0];
          offsets_t = zero @ map (\<lambda>x. x * kValuesPerBlock) (cumsum nnz_per_column) in
      Inr (indices_t, map to_int32 offsets_t, block_offsets_t))))))))))))"

section \<open>State: the caller's tensors and the calls made\<close>

text \<open>
  A \<^verbatim>\<open>torch::Tensor\<close> argument is a reference: two arguments may be one tensor, and
  a write through one is seen through the other. The state therefore maps handles to
  tensors. Two handles are two buffers: tensors that share a part of one buffer only
  are not modelled. The state also records, in order, what a run asks of its
  collaborators: the validity check with its answer, each transpose view computed (the
  three buffers the helper returns), each bitmask workspace allocated (its size in
  bytes), and each kernel call with the descriptors it is given. What a kernel writes
  through the pointers of these descriptors (the output of the multiplication, the
  bitmask workspaces) is the kernel's doing and not a write of this layer: the heap
  holds the writes of this layer only.
\<close>

datatype event =
    EvValidMatmul bool
  | EvTranspose "int list" "int list" "int list"
  | EvAllocBitmask nat
  | EvMatmul operand bool operand bool operand
  | EvMatmulEx operand bool operand bool operand

record state =
  heap :: heap
  trace :: "event list"

type_synonym 'a run = "state \<Rightarrow> (error + 'a) \<times> state"

definition bindS :: "'a run \<Rightarrow> ('a \<Rightarrow> 'b run) \<Rightarrow> 'b run" where
  "bindS m f s = (case m s of (Inl e, s') \<Rightarrow> (Inl e, s') | (Inr x, s') \<Rightarrow> f x s')"

definition read :: "(heap \<Rightarrow> error + 'a) \<Rightarrow> 'a run" where
  "read f s = (f (heap s), s)"

definition emit :: "event \<Rightarrow> unit run" where
  "emit ev s = (Inr (), s\<lparr>trace := trace s @ [ev]\<rparr>)"

definition fail :: "error \<Rightarrow> 'a run" where
  "fail e s = (Inl e, s)"

definition succeed :: "unit run" where
  "succeed s = (Inr (), s)"

text \<open>
  The transpose helper as a step of a run: it reads the tensors as they are at that
  moment and, when it returns, has allocated its three result buffers.
\<close>

definition transpose_step ::
  "env \<Rightarrow> nat \<Rightarrow> nat \<Rightarrow> nat \<Rightarrow> nat \<Rightarrow> (int list \<times> int list \<times> int list) run" where
  "transpose_step E shape data offsets indices =
     bindS (read (\<lambda>H. transpose_helper E H shape data offsets indices)) (\<lambda>meta.
     bindS (emit (EvTranspose (fst meta) (fst (snd meta)) (snd (snd meta)))) (\<lambda>_.
     read (\<lambda>H. Inr meta)))"

text \<open>
  The two entries are read through the accessor, which follows the stride, and written
  through \<^verbatim>\<open>shape.data_ptr<int>()\<close>, to the first two cells of the buffer whatever
  the stride is. A buffer of fewer than two cells has no second cell to write.
\<close>

definition standardize_shape :: "nat \<Rightarrow> bool \<Rightarrow> unit run" where
  "standardize_shape shape t =
     bindS (read (\<lambda>H. access_metadata (H shape) (if t then 1 else 0))) (\<lambda>rows.
     bindS (read (\<lambda>H. access_metadata (H shape) (if t then 0 else 1))) (\<lambda>cols.
     (\<lambda>s. if length (elems (heap s shape)) < 2 then (Inl Undefined, s)
          else (Inr (), s\<lparr>heap := (heap s)(shape :=
                  (heap s shape)\<lparr>elems := (elems (heap s shape))[0 := rows, 1 := cols]\<rparr>)\<rparr>))))"

section \<open>Bitmask helper\<close>

text \<open>
  The result is a \<^verbatim>\<open>size_t\<close>, 64 bits without sign. The sum and the first product are
  \<^verbatim>\<open>int\<close> arithmetic and wrap; the product with \<^verbatim>\<open>sizeof(uint64_t)\<close> is taken after
  the conversion to \<^verbatim>\<open>size_t\<close>. The division truncates.
\<close>

definition size_in_bytes :: "int \<Rightarrow> int \<Rightarrow> nat" where
  "size_in_bytes = (\<lambda>rows columns.
     let kAlignment = 64;
         column_entries = to_int32 (columns + kAlignment - 1) sdiv kAlignment
     in nat (((to_int32 (column_entries * rows) mod 2 ^ 64) * 8) mod 2 ^ 64))"

text \<open>
  \<^verbatim>\<open>torch::empty\<close> takes the number of bytes as a signed 64-bit size and raises when
  that is negative.
\<close>

definition allocate_bitmask :: "BlockMatrix \<Rightarrow> bool \<Rightarrow> nat run" where
  "allocate_bitmask = (\<lambda>m trans.
     let block_size = block_size m in
     if block_size = 0 then fail Undefined else
     let block_rows = (if trans then cols m else rows m) sdiv block_size;
         block_cols = (if trans then rows m else cols m) sdiv block_size;
         bytes = size_in_bytes block_rows block_cols
     in if bytes \<ge> 2 ^ 63 then fail LibraryError
        else bindS (emit (EvAllocBitmask bytes)) (\<lambda>_. read (\<lambda>H. Inr bytes)))"

section \<open>Custom operations\<close>

definition check_ValidMatmul :: "env \<Rightarrow> operand \<Rightarrow> bool \<Rightarrow> operand \<Rightarrow> bool \<Rightarrow> operand \<Rightarrow> unit run" where
  "check_ValidMatmul E lhs transpose_lhs rhs transpose_rhs out =
     bindS (emit (EvValidMatmul (ValidMatmul E lhs transpose_lhs rhs transpose_rhs out))) (\<lambda>_.
     read (\<lambda>H. TORCH_CHECK (ValidMatmul E lhs transpose_lhs rhs transpose_rhs out)))"

definition call_Matmul :: "env \<Rightarrow> operand \<Rightarrow> bool \<Rightarrow> operand \<Rightarrow> bool \<Rightarrow> operand \<Rightarrow> unit run" where
  "call_Matmul E lhs transpose_lhs rhs transpose_rhs out =
     bindS (emit (EvMatmul lhs transpose_lhs rhs transpose_rhs out)) (\<lambda>_.
     if Matmul_ok E lhs transpose_lhs rhs transpose_rhs out then succeed else fail KernelFailure)"

definition call_MatmulEx :: "env \<Rightarrow> operand \<Rightarrow> bool \<Rightarrow> operand \<Rightarrow> bool \<Rightarrow> operand \<Rightarrow> unit run" where
  "call_MatmulEx E lhs transpose_lhs rhs transpose_rhs out =
     bindS (emit (EvMatmulEx lhs transpose_lhs rhs transpose_rhs out)) (\<lambda>_.
     if MatmulEx_ok E lhs transpose_lhs rhs transpose_rhs out then succeed else fail KernelFailure)"

definition attach :: "BlockMatrix \<Rightarrow> int list \<times> int list \<times> int list \<Rightarrow> BlockMatrix" where
  "attach m meta = m\<lparr>indices_t := Some (fst meta), offsets_t := Some (fst (snd meta)),
                     block_offsets := Some (snd (snd meta))\<rparr>"

definition dsd :: "env \<Rightarrow> nat \<Rightarrow> nat \<Rightarrow> nat \<Rightarrow> nat \<Rightarrow> nat \<Rightarrow> nat \<Rightarrow> nat \<Rightarrow> unit run" where
  "dsd E shape data offsets indices transpose_a rhs_t out_t =
     bindS (read (\<lambda>H. validate_transpose (H transpose_a))) (\<lambda>_.
     bindS (read (\<lambda>H. access_metadata (H transpose_a) 0)) (\<lambda>ta.
     let transpose_lhs = (ta \<noteq> 0) in
     bindS (read (\<lambda>H. validate_shape (H shape))) (\<lambda>_.
     bindS (standardize_shape shape transpose_lhs) (\<lambda>_.
     bindS (read (\<lambda>H. as_block_matrix H shape data offsets indices)) (\<lambda>lhs.
     bindS (read (\<lambda>H. as_matrix H rhs_t)) (\<lambda>rhs.
     bindS (read (\<lambda>H. Inr (is_transposed (H rhs_t)))) (\<lambda>transpose_rhs.
     bindS (read (\<lambda>H. as_matrix H out_t)) (\<lambda>out.
     bindS (check_ValidMatmul E (Sparse lhs) transpose_lhs (Dense rhs) transpose_rhs (Dense out)) (\<lambda>_.
     if transpose_lhs then
       bindS (transpose_step E shape data offsets indices) (\<lambda>meta.
       call_MatmulEx E (Sparse (attach lhs meta)) transpose_lhs (Dense rhs) transpose_rhs (Dense out))
     else
       call_Matmul E (Sparse lhs) transpose_lhs (Dense rhs) transpose_rhs (Dense out))))))))))"

definition dds :: "env \<Rightarrow> nat \<Rightarrow> nat \<Rightarrow> nat \<Rightarrow> nat \<Rightarrow> nat \<Rightarrow> nat \<Rightarrow> nat \<Rightarrow> unit run" where
  "dds E lhs_t shape data offsets indices transpose_b out_t =
     bindS (read (\<lambda>H. as_matrix H lhs_t)) (\<lambda>lhs.
     bindS (read (\<lambda>H. Inr (is_transposed (H lhs_t)))) (\<lambda>transpose_lhs.
     bindS (read (\<lambda>H. validate_transpose (H transpose_b))) (\<lambda>_.
     bindS (read (\<lambda>H. access_metadata (H transpose_b) 0)) (\<lambda>tb.
     let transpose_rhs = (tb \<noteq> 0) in
     bindS (read (\<lambda>H. validate_shape (H shape))) (\<lambda>_.
     bindS (standardize_shape shape transpose_rhs) (\<lambda>_.
     bindS (read (\<lambda>H. as_block_matrix H shape data offsets indices)) (\<lambda>rhs.
     bindS (read (\<lambda>H. as_matrix H out_t)) (\<lambda>out.
     bindS (check_ValidMatmul E (Dense lhs) transpose_lhs (Sparse rhs) transpose_rhs (Dense out)) (\<lambda>_.
     if \<not> transpose_rhs then
       bindS (transpose_step E shape data offsets indices) (\<lambda>meta.
       call_MatmulEx E (Dense lhs) transpose_lhs (Sparse (attach rhs meta)) transpose_rhs (Dense out))
     else
       call_Matmul E (Dense lhs) transpose_lhs (Sparse rhs) transpose_rhs (Dense out))))))))))"

definition sdd :: "env \<Rightarrow> nat \<Rightarrow> nat \<Rightarrow> nat \<Rightarrow> nat \<Rightarrow> nat \<Rightarrow> nat \<Rightarrow> unit run" where
  "sdd E lhs_t rhs_t shape data offsets indices =
     bindS (read (\<lambda>H. as_matrix H lhs_t)) (\<lambda>lhs.
     bindS (read (\<lambda>H. Inr (is_transposed (H lhs_t)))) (\<lambda>transpose_lhs.
     bindS (read (\<lambda>H. as_matrix H rhs_t)) (\<lambda>rhs.
     bindS (read (\<lambda>H. Inr (is_transposed (H rhs_t)))) (\<lambda>transpose_rhs.
     bindS (read (\<lambda>H. as_block_matrix H shape data offsets indices)) (\<lambda>out.
     bindS (check_ValidMatmul E (Dense lhs) transpose_lhs (Dense rhs) transpose_rhs (Sparse out)) (\<lambda>_.
     call_Matmul E (Dense lhs) transpose_lhs (Dense rhs) transpose_rhs (Sparse out)))))))"

definition ssd ::
  "env \<Rightarrow> nat \<Rightarrow> nat \<Rightarrow> nat \<Rightarrow> nat \<Rightarrow> nat \<Rightarrow> nat \<Rightarrow> nat \<Rightarrow> nat \<Rightarrow> nat \<Rightarrow> nat \<Rightarrow> unit run" where
  "ssd E lhs_shape lhs_data lhs_offsets lhs_indices transpose_a rhs_t
         out_shape out_data out_offsets out_indices =
     bindS (read (\<lambda>H. validate_transpose (H transpose_a))) (\<lambda>_.
     bindS (read (\<lambda>H. access_metadata (H transpose_a) 0)) (\<lambda>ta.
     let transpose_lhs = (ta \<noteq> 0) in
     bindS (read (\<lambda>H. validate_shape (H lhs_shape))) (\<lambda>_.
     bindS (standardize_shape lhs_shape transpose_lhs) (\<lambda>_.
     bindS (read (\<lambda>H. as_block_matrix H lhs_shape lhs_data lhs_offsets lhs_indices)) (\<lambda>lhs.
     bindS (read (\<lambda>H. as_matrix H rhs_t)) (\<lambda>rhs.
     bindS (read (\<lambda>H. Inr (is_transposed (H rhs_t)))) (\<lambda>transpose_rhs.
     bindS (read (\<lambda>H. as_block_matrix H out_shape out_data out_offsets out_indices)) (\<lambda>out.
     bindS (check_ValidMatmul E (Sparse lhs) transpose_lhs (Dense rhs) transpose_rhs (Sparse out)) (\<lambda>_.
     if transpose_lhs then
       bindS (transpose_step E lhs_shape lhs_data lhs_offsets lhs_indices) (\<lambda>meta.
       call_MatmulEx E (Sparse (attach lhs meta)) transpose_lhs (Dense rhs) transpose_rhs (Sparse out))
     else
       call_Matmul E (Sparse lhs) transpose_lhs (Dense rhs) transpose_rhs (Sparse out))))))))))"

definition dss ::
  "env \<Rightarrow> nat \<Rightarrow> nat \<Rightarrow> nat \<Rightarrow> nat \<Rightarrow> nat \<Rightarrow> nat \<Rightarrow> nat \<Rightarrow> nat \<Rightarrow> nat \<Rightarrow> nat \<Rightarrow> nat \<Rightarrow> unit run" where
  "dss E lhs_shape lhs_data lhs_offsets lhs_indices transpose_a
         rhs_shape rhs_data rhs_offsets rhs_indices transpose_b out_t =
     bindS (read (\<lambda>H. validate_transpose (H transpose_a))) (\<lambda>_.
     bindS (read (\<lambda>H. access_metadata (H transpose_a) 0)) (\<lambda>ta.
     let transpose_lhs = (ta \<noteq> 0) in
     bindS (read (\<lambda>H. validate_shape (H lhs_shape))) (\<lambda>_.
     bindS (standardize_shape lhs_shape transpose_lhs) (\<lambda>_.
     bindS (read (\<lambda>H. as_block_matrix H lhs_shape lhs_data lhs_offsets lhs_indices)) (\<lambda>lhs.
     bindS (read (\<lambda>H. validate_transpose (H transpose_b))) (\<lambda>_.
     bindS (read (\<lambda>H. access_metadata (H transpose_b) 0)) (\<lambda>tb.
     let transpose_rhs = (tb \<noteq> 0) in
     bindS (read (\<lambda>H. validate_shape (H rhs_shape))) (\<lambda>_.
     bindS (standardize_shape rhs_shape transpose_rhs) (\<lambda>_.
     bindS (read (\<lambda>H. as_block_matrix H rhs_shape rhs_data rhs_offsets rhs_indices)) (\<lambda>rhs.
     bindS (read (\<lambda>H. as_matrix H out_t)) (\<lambda>out.
     bindS (check_ValidMatmul E (Sparse lhs) transpose_lhs (Sparse rhs) transpose_rhs (Dense out)) (\<lambda>_.
     bindS (allocate_bitmask lhs transpose_lhs) (\<lambda>lhs_bitmask.
     let lhs1 = lhs\<lparr>bitmask := Some lhs_bitmask\<rparr> in
     bindS (allocate_bitmask rhs transpose_rhs) (\<lambda>rhs_bitmask.
     let rhs1 = rhs\<lparr>bitmask := Some rhs_bitmask\<rparr> in
     bindS (if transpose_lhs
            then bindS (transpose_step E lhs_shape lhs_data lhs_offsets lhs_indices) (\<lambda>lhs_meta.
                 read (\<lambda>H. Inr (attach lhs1 lhs_meta)))
            else read (\<lambda>H. Inr lhs1)) (\<lambda>lhs2.
     bindS (if \<not> transpose_rhs
            then bindS (transpose_step E rhs_shape rhs_data rhs_offsets rhs_indices) (\<lambda>rhs_meta.
                 read (\<lambda>H. Inr (attach rhs1 rhs_meta)))
            else read (\<lambda>H. Inr rhs1)) (\<lambda>rhs2.
     call_MatmulEx E (Sparse lhs2) transpose_lhs (Sparse rhs2) transpose_rhs (Dense out)))))))))))))))))"

section \<open>Descriptors and reference inputs\<close>

text \<open>
  The invariants the data model states for a block-sparse quadruple, apart from the
  range of the column indices: the tensors pass validation, the shape is a vector whose
  buffer holds its two entries, which are non-negative multiples of 128, the buffer of
  the offsets is the offsets, there is one tile per index, and the offsets are a
  row-pointer array: one more than the number of block-rows, non-decreasing, from 0 to
  the number of blocks. The indices are the entries of their tensor, whatever its
  stride.
\<close>

definition csr_ok :: "heap \<Rightarrow> nat \<Rightarrow> nat \<Rightarrow> nat \<Rightarrow> nat \<Rightarrow> bool" where
  "csr_ok H shape data offsets indices \<longleftrightarrow>
     validate_sparse (H shape) (H data) (H offsets) (H indices) = Inr () \<and>
     sizes (H shape) = [2] \<and> strides (H shape) ! 0 < length (elems (H shape)) \<and>
     (let r = entries (H shape) ! 0; c = entries (H shape) ! 1;
          offs = elems (H offsets); idx = entries (H indices)
      in 0 \<le> r \<and> 0 \<le> c \<and> r mod 128 = 0 \<and> c mod 128 = 0 \<and>
         sizes (H offsets) = [length offs] \<and> sizes (H indices) = [length idx] \<and>
         sizes (H data) ! 0 = length idx \<and>
         int (length offs) = r div 128 + 1 \<and> sorted offs \<and> hd offs = 0 \<and>
         last offs = int (length idx))"

text \<open>\<^verbatim>\<open>argsort\<close> keeps its promise on every list of keys.\<close>

definition argsort_sorts :: "env \<Rightarrow> bool" where
  "argsort_sorts E \<longleftrightarrow> (\<forall>keys. argsort_ok keys (argsort E keys))"

text \<open>The first and the second buffer of what the transpose helper returns.\<close>

definition indices_t_of :: "error + int list \<times> int list \<times> int list \<Rightarrow> int list" where
  "indices_t_of r = (case r of Inr (it, ot, bo) \<Rightarrow> it | Inl e \<Rightarrow> [])"

definition offsets_t_of :: "error + int list \<times> int list \<times> int list \<Rightarrow> int list" where
  "offsets_t_of r = (case r of Inr (it, ot, bo) \<Rightarrow> ot | Inl e \<Rightarrow> [])"

text \<open>
  A reference environment: the stable \<^verbatim>\<open>argsort\<close>, a histogram that raises on a bound
  it cannot hold, every launch succeeds and every multiplication is accepted.
\<close>

definition E_ref :: env where
  "E_ref = \<lparr>argsort = stable_argsort, histc_wide = (\<lambda>_ _ _ _. Inl LibraryError),
            RowIndices_ok = True,
            ValidMatmul = (\<lambda>_ _ _ _ _. True), Matmul_ok = (\<lambda>_ _ _ _ _. True),
            MatmulEx_ok = (\<lambda>_ _ _ _ _. True)\<rparr>"

text \<open>Tensors for the examples: a contiguous vector, and \<open>n\<close> tiles of 128 by 128 halves.\<close>

definition vec :: "device \<Rightarrow> scalar_type \<Rightarrow> int list \<Rightarrow> tensor" where
  "vec d t es = \<lparr>device = d, scalar_type = t, sizes = [length es], strides = [1], elems = es\<rparr>"

definition tiles :: "nat \<Rightarrow> tensor" where
  "tiles n = \<lparr>device = CUDA, scalar_type = kHalf, sizes = [n, 128, 128],
              strides = [16384, 128, 1], elems = []\<rparr>"

text \<open>
  A heap with one block-sparse matrix: shape at handle 0, data at 1, offsets at 2,
  indices at 3.
\<close>

definition sparse_heap :: "int list \<Rightarrow> int list \<Rightarrow> int list \<Rightarrow> heap" where
  "sparse_heap shp offs idx =
     (\<lambda>_. vec CPU kInt [])(0 := vec CPU kInt shp, 1 := tiles (length idx),
                             2 := vec CUDA kInt offs, 3 := vec CUDA kShort idx)"

text \<open>
  The 256 by 256 matrix with blocks at (block-row 0, block-column 1) and (block-row 1,
  block-column 0): once with the block-column of each block in \<open>indices\<close>, once with
  the first element column of each block (128 times the block-column).
\<close>

definition scenario_heap :: heap where
  "scenario_heap = sparse_heap [256, 256] [0, 1, 2] [1, 0]"

definition scenario_heap_scaled :: heap where
  "scenario_heap_scaled = sparse_heap [256, 256] [0, 1, 2] [128, 0]"

text \<open>
  A quadruple that passes the checks and breaks every invariant of the format: 100 rows
  and 37 columns are no multiples of 128; the offsets are two, not one, decrease, start
  at 5 and end at 3 with two blocks stored; the indices are negative and beyond the
  columns.
\<close>

definition broken_heap :: heap where
  "broken_heap = sparse_heap [100, 37] [5, 3] [- 7, 900]"

text \<open>One block-row and one block-column, with \<open>2 ^ 15\<close> stored blocks.\<close>

definition overflow_heap :: heap where
  "overflow_heap = sparse_heap [128, 128] [0, 32768] (replicate 32768 0)"

text \<open>
  The transpose view read as a compressed block-column representation: block-column
  \<open>c\<close> owns the entries of \<open>indices_t\<close> from \<open>offsets_t[c]\<close> to \<open>offsets_t[c + 1]\<close>
  (both counted in elements, \<open>128 * 128\<close> to a block), and each entry is the block-row
  of one block. The result lists the (block-row, block-column) pairs.
\<close>

definition column_view :: "int list \<Rightarrow> int list \<Rightarrow> (int \<times> int) list" where
  "column_view it ot =
     concat (map (\<lambda>c. map (\<lambda>k. (it ! k, int c))
                          [nat (ot ! c div 16384) ..< nat (ot ! Suc c div 16384)])
                 [0..<length ot - 1])"

text \<open>
  The (block-row, block-column) pairs of the stored blocks, from the offsets and the
  block-column of every block.
\<close>

definition stored_blocks :: "int list \<Rightarrow> int list \<Rightarrow> (int \<times> int) list" where
  "stored_blocks offs cs = map (\<lambda>j. (row_of offs j, cs ! j)) [0..<length cs]"

text \<open>
  Follows the spec's words: the bitmask workspace has
  \<open>ceil(block_cols / 64) * block_rows * 8\<close> bytes.
\<close>

definition spec_bitmask_bytes :: "int \<Rightarrow> int \<Rightarrow> int" where
  "spec_bitmask_bytes block_rows block_cols = \<lceil>of_int block_cols / (64 :: rat)\<rceil> * block_rows * 8"

text \<open>The sizes of the bitmask workspaces allocated, in the order of allocation.\<close>

fun bitmask_sizes :: "event list \<Rightarrow> nat list" where
  "bitmask_sizes [] = []"
| "bitmask_sizes (EvAllocBitmask n # evs) = n # bitmask_sizes evs"
| "bitmask_sizes (ev # evs) = bitmask_sizes evs"

subsection \<open>States after a step\<close>

text \<open>The state once an event is recorded.\<close>

definition log_event :: "state \<Rightarrow> event \<Rightarrow> state" where
  "log_event s ev = s\<lparr>trace := trace s @ [ev]\<rparr>"

text \<open>
  What the normalizer leaves of a shape tensor of any stride: the first two cells of
  the buffer hold the two entries, exchanged when the flag is set. And the state with
  such a shape.
\<close>

definition normalized :: "bool \<Rightarrow> tensor \<Rightarrow> tensor" where
  "normalized b t =
     t\<lparr>elems := (elems t)[0 := elems t ! ((if b then 1 else 0) * strides t ! 0),
                           1 := elems t ! ((if b then 0 else 1) * strides t ! 0)]\<rparr>"

definition swap_shape :: "state \<Rightarrow> nat \<Rightarrow> bool \<Rightarrow> state" where
  "swap_shape s h t = s\<lparr>heap := (heap s)(h := normalized t (heap s h))\<rparr>"

text \<open>A tensor with its first two cells exchanged.\<close>

definition swapped :: "tensor \<Rightarrow> tensor" where
  "swapped t = t\<lparr>elems := (elems t)[0 := elems t ! 1, 1 := elems t ! 0]\<rparr>"

definition swapped_if :: "bool \<Rightarrow> tensor \<Rightarrow> tensor" where
  "swapped_if b t = (if b then swapped t else t)"

text \<open>What a run started in \<open>s\<close> ends with: its result and final state satisfy \<open>\<Phi>\<close>.\<close>

definition post :: "'a run \<Rightarrow> state \<Rightarrow> (error + 'a \<Rightarrow> state \<Rightarrow> bool) \<Rightarrow> bool" where
  "post m s \<Phi> \<longleftrightarrow> \<Phi> (fst (m s)) (snd (m s))"

subsection \<open>Reading a run\<close>

text \<open>The events a run has added, the value of a flag tensor, and whether a run returns.\<close>

definition new_events :: "state \<Rightarrow> state \<Rightarrow> event list" where
  "new_events s s' = drop (length (trace s)) (trace s')"

definition flag :: "state \<Rightarrow> nat \<Rightarrow> bool" where
  "flag s h \<longleftrightarrow> elems (heap s h) ! 0 \<noteq> 0"

definition returns :: "unit run \<Rightarrow> state \<Rightarrow> bool" where
  "returns m s \<longleftrightarrow> fst (m s) = Inr ()"

text \<open>
  The validity check comes first: a run that has added no event has failed; otherwise
  its first event is the validity check, and when the check's answer is no, that is
  its only event and the run has failed with the check's error. The events already in
  the trace stay.
\<close>

definition check_first :: "error + unit \<Rightarrow> event list \<Rightarrow> bool" where
  "check_first r evs =
     (case evs of
        [] \<Rightarrow> r \<noteq> Inr ()
      | EvValidMatmul ok # rest \<Rightarrow> (if ok then True else rest = [] \<and> r = Inl CheckFailed)
      | _ \<Rightarrow> False)"

definition validated_first :: "unit run \<Rightarrow> state \<Rightarrow> bool" where
  "validated_first m s \<longleftrightarrow>
     trace (snd (m s)) = trace s @ new_events s (snd (m s)) \<and>
     check_first (fst (m s)) (new_events s (snd (m s)))"

text \<open>
  The kind of an event. For a kernel call it tells, of the left and of the right
  operand, how many of the three buffers of a transpose view the descriptor carries and
  whether it carries a bitmask workspace.
\<close>

datatype kind = KValid bool | KTranspose | KBitmask
  | KPlain "nat \<times> bool" "nat \<times> bool" | KExtended "nat \<times> bool" "nat \<times> bool"

fun attached :: "operand \<Rightarrow> nat \<times> bool" where
  "attached (Dense m) = (0, False)"
| "attached (Sparse m) =
     (length (filter (\<lambda>b. b \<noteq> None) [indices_t m, offsets_t m, block_offsets m]),
      bitmask m \<noteq> None)"

fun kind_of :: "event \<Rightarrow> kind" where
  "kind_of (EvValidMatmul ok) = KValid ok"
| "kind_of (EvTranspose it ot bo) = KTranspose"
| "kind_of (EvAllocBitmask n) = KBitmask"
| "kind_of (EvMatmul a ta b tb c) = KPlain (attached a) (attached b)"
| "kind_of (EvMatmulEx a ta b tb c) = KExtended (attached a) (attached b)"

definition kinds :: "unit run \<Rightarrow> state \<Rightarrow> kind list" where
  "kinds m s = map kind_of (new_events s (snd (m s)))"

subsection \<open>Reference states\<close>

definition dense_matrix :: "nat \<Rightarrow> nat \<Rightarrow> tensor" where
  "dense_matrix r c = \<lparr>device = CUDA, scalar_type = kHalf, sizes = [r, c], strides = [c, 1],
                        elems = []\<rparr>"

text \<open>
  A 128 by 256 matrix with both blocks of its block-row stored (shape at 0, data at 1,
  offsets at 2, indices at 3), a flag that is set (4), a flag that is not (5), two dense
  matrices (6 and 7), a second shape (8), and the offsets (9) and indices (10) of a 256
  by 128 matrix with one block in each of its two block-rows, which is what the shape at
  0 stands for when the operand is used transposed.
\<close>

definition op_state :: state where
  "op_state = \<lparr>heap = (sparse_heap [128, 256] [0, 2] [0, 128])
                  (4 := vec CPU kInt [1], 5 := vec CPU kInt [0],
                   6 := dense_matrix 256 64, 7 := dense_matrix 128 64,
                   8 := vec CPU kInt [256, 128],
                   9 := vec CUDA kInt [0, 1, 2], 10 := vec CUDA kShort [0, 0]),
                trace = []\<rparr>"

text \<open>
  The shape \<open>[128, 256]\<close> as every second cell of a buffer of three, and as a matrix of
  two rows and one column.
\<close>

definition strided_shape :: tensor where
  "strided_shape = \<lparr>device = CPU, scalar_type = kInt, sizes = [2], strides = [2],
                     elems = [128, 999, 256]\<rparr>"

definition column_shape :: tensor where
  "column_shape = \<lparr>device = CPU, scalar_type = kInt, sizes = [2, 1], strides = [1, 1],
                    elems = [128, 256]\<rparr>"

text \<open>
  The reference state with the two-dimensional shape at 0; and with the strided shape at
  0 and a dense 256 by 64 output (7).
\<close>

definition column_state :: state where
  "column_state = \<lparr>heap = (heap op_state)(0 := column_shape), trace = []\<rparr>"

definition strided_state :: state where
  "strided_state = \<lparr>heap = (heap op_state)(0 := strided_shape, 7 := dense_matrix 256 64),
                     trace = []\<rparr>"

text \<open>
  A caller's shape \<open>[8320, 128]\<close> for a left operand used transposed (flag at 4): after
  normalization the descriptor has 128 rows and 8320 columns, and one block is stored.
  The right operand (shape at 8, flag at 5, not set) is one block of 128 by 128, and the
  output (7) is a dense 8320 by 128 matrix.
\<close>

definition wide_state :: state where
  "wide_state = \<lparr>heap = (sparse_heap [8320, 128] [0, 1] [0])
                    (4 := vec CPU kInt [1], 5 := vec CPU kInt [0],
                     7 := dense_matrix 8320 128, 8 := vec CPU kInt [128, 128]),
                  trace = []\<rparr>"

text \<open>
  One shape tensor \<open>[128, 256]\<close> (at 0) given for both operands of the sparse-sparse
  operation, both used transposed (flag at 4). The left descriptor is read after the
  first normalization, as 256 by 128, with one block in each of its two block-rows
  (offsets at 9, indices at 10); the right one after the second, as 128 by 256, with both
  blocks of its block-row (offsets at 2, indices at 3). The output (7) is a dense 128 by
  128 matrix.
\<close>

definition alias_state :: state where
  "alias_state = \<lparr>heap = (sparse_heap [128, 256] [0, 2] [0, 128])
                     (4 := vec CPU kInt [1], 7 := dense_matrix 128 128,
                      9 := vec CUDA kInt [0, 1, 2], 10 := vec CUDA kShort [0, 0]),
                   trace = []\<rparr>"

text \<open>
  A run that has stopped early: the kinds of its events are the rejected validity check
  alone, or the first ones of the expected list.
\<close>

definition stopped_within :: "kind list \<Rightarrow> kind list \<Rightarrow> bool" where
  "stopped_within ks expected \<longleftrightarrow> ks = [KValid False] \<or> take (length ks) expected = ks"

text \<open>Collaborators as in \<open>E_ref\<close>, with a validity check that rejects every problem.\<close>

definition E_reject :: env where
  "E_reject = E_ref\<lparr>ValidMatmul := (\<lambda>_ _ _ _ _. False)\<rparr>"

section \<open>Lemmas about the helpers\<close>

subsection \<open>Results and checks\<close>

lemma bind_eq_Inr: "bind m f = Inr y \<longleftrightarrow> (\<exists>x. m = Inr x \<and> f x = Inr y)"
  by (cases m) (simp_all add: bind_def)

lemma TORCH_CHECK_eq_Inr: "TORCH_CHECK c = Inr u \<longleftrightarrow> c"
  by (simp add: TORCH_CHECK_def)

lemma validate_sparse_Inr:
  "validate_sparse shape data offsets indices = Inr u \<Longrightarrow> size_at data 1 = Inr 128"
  by (auto simp: validate_sparse_def bind_eq_Inr TORCH_CHECK_eq_Inr)

lemma row_indices_Inr:
  assumes "row_indices E H shape data offsets indices = Inr rws"
  shows "size_at (H data) 1 = Inr 128"
    and "RowIndices_ok E"
    and "\<exists>n. size_at (H indices) 0 = Inr (int n) \<and> rws = RowIndices (elems (H offsets)) n"
  using assms
  by (auto simp: row_indices_def as_block_matrix_def bind_eq_Inr size_at_def dest!: validate_sparse_Inr split: if_splits)

lemma transpose_helper_Inr:
  assumes "transpose_helper E H shape data offsets indices = Inr (it, ot, bo)"
  obtains kCols kRows rws hist where
    "size_at (H data) 1 = Inr 128"
    "access_metadata (H shape) 1 = Inr kCols"
    "access_metadata (H shape) 0 = Inr kRows"
    "kRows \<le> 16384"
    "row_indices E H shape data offsets indices = Inr rws"
    "gather rws (argsort E (map2 (\<lambda>c r. of_int c + of_int r / 128) (entries (H indices)) rws)) = Inr it"
    "histc E (entries (H indices)) (kCols sdiv 128) 0 kCols = Inr hist"
    "ot = map to_int32 (0 # map (\<lambda>x. x * 16384) (cumsum hist))"
proof -
  from assms obtain sz kCols kRows rws where
    a: "size_at (H data) 1 = Inr sz" "access_metadata (H shape) 1 = Inr kCols" "to_int32 sz = 128"
       "access_metadata (H shape) 0 = Inr kRows" "kRows \<le> 16384"
       "row_indices E H shape data offsets indices = Inr rws"
    by (auto simp: transpose_helper_def Let_def bind_eq_Inr TORCH_CHECK_eq_Inr split: if_splits)
  have sz: "sz = 128" using row_indices_Inr(1)[OF a(6)] a(1) by simp
  from assms a sz obtain hist where
    "gather rws (argsort E (map2 (\<lambda>c r. of_int c + of_int r / 128) (entries (H indices)) rws)) = Inr it"
    "histc E (entries (H indices)) (kCols sdiv 128) 0 kCols = Inr hist"
    "ot = map to_int32 (0 # map (\<lambda>x. x * 16384) (cumsum hist))"
    unfolding transpose_helper_def Let_def 
    by (auto simp: bind_eq_Inr TORCH_CHECK_eq_Inr to_int32_def split: if_splits)
  with a sz show ?thesis using that by blast
qed


lemma row_of_bound:
  assumes "offs \<noteq> []" "hd offs = 0" "last offs = int n" "j < n"
  shows "0 \<le> row_of offs j \<and> row_of offs j < int (length offs) - 1"
proof -
  have "tl offs \<noteq> []"
  proof
    assume "tl offs = []"
    then have "offs = [hd offs]" using assms(1) by (cases offs) auto
    then have "last offs = hd offs" by (metis last.simps)
    with assms show False by simp
  qed
  then have l: "last (tl offs) = int n" using assms(3) by (simp add: last_tl)
  have "last (tl offs) \<in> set (tl offs)" using \<open>tl offs \<noteq> []\<close> by (rule last_in_set)
  moreover have "\<not> last (tl offs) \<le> int j" using l assms(4) by simp
  ultimately have "last (tl offs) \<in> set (tl offs)" "\<not> last (tl offs) \<le> int j" by auto
  then have ne: "takeWhile (\<lambda>e. e \<le> int j) (tl offs) \<noteq> tl offs"
    unfolding takeWhile_eq_all_conv by blast
  have "length (takeWhile (\<lambda>e. e \<le> int j) (tl offs)) \<noteq> length (tl offs)"
  proof
    assume "length (takeWhile (\<lambda>e. e \<le> int j) (tl offs)) = length (tl offs)"
    then have "takeWhile (\<lambda>e. e \<le> int j) (tl offs) = take (length (tl offs)) (tl offs)"
      using takeWhile_eq_take[of "\<lambda>e. e \<le> int j" "tl offs"] by simp
    with ne show False by simp
  qed
  then have "length (takeWhile (\<lambda>e. e \<le> int j) (tl offs)) < length (tl offs)"
    using length_takeWhile_le[of "\<lambda>e. e \<le> int j" "tl offs"] by linarith
  then show ?thesis by (auto simp: row_of_def)
qed

lemma key_le_lex:
  fixes c1 c2 r1 r2 :: int
  assumes "0 \<le> r1" "r1 < 128" "0 \<le> r2" "r2 < 128"
    and "(of_int c1 + of_int r1 / 128 :: rat) \<le> of_int c2 + of_int r2 / 128"
  shows "c1 < c2 \<or> (c1 = c2 \<and> r1 \<le> r2)"
proof -
  have "(of_int (128 * c1 + r1) :: rat) \<le> of_int (128 * c2 + r2)"
    using assms(5) by (simp add: field_simps)
  then have "128 * c1 + r1 \<le> 128 * c2 + r2" by (simp only: of_int_le_iff)
  with assms(1-4) show ?thesis by linarith
qed


lemma gather_Inr: "gather xs is = Inr ys \<Longrightarrow> ys = map (\<lambda>i. xs ! i) is \<and> (\<forall>i \<in> set is. i < length xs)"
  by (auto simp: gather_def split: if_splits)

lemma argsort_ok_set: "argsort_ok keys p \<Longrightarrow> set p = {0..<length keys}"
  unfolding argsort_ok_def using mset_eq_setD by fastforce

lemma argsort_ok_mono:
  "argsort_ok keys p \<Longrightarrow> a < b \<Longrightarrow> b < length p \<Longrightarrow> keys ! (p ! a) \<le> keys ! (p ! b)"
  unfolding argsort_ok_def
  using sorted_nth_mono[of "map (\<lambda>i. keys ! i) p" a b] by simp


subsection \<open>Running sums and histograms\<close>

lemma to_int32_id: "- 2147483648 \<le> x \<Longrightarrow> x < 2147483648 \<Longrightarrow> to_int32 x = x"
  by (simp add: to_int32_def)

lemma length_cumsum_from: "length (cumsum_from a xs) = length xs"
  by (induction xs arbitrary: a) auto

lemma cumsum_from_nth:
  "i < length xs \<Longrightarrow> cumsum_from a xs ! i = a + sum_list (take (Suc i) xs)"
proof (induction xs arbitrary: a i)
  case Nil
  then show ?case by simp
next
  case (Cons x xs)
  then show ?case by (cases i) auto
qed

lemma cumsum_from_lower: "\<forall>v \<in> set xs. 0 \<le> v \<Longrightarrow> y \<in> set (cumsum_from a xs) \<Longrightarrow> a \<le> y"
proof (induction xs arbitrary: a)
  case Nil
  then show ?case by simp
next
  case (Cons x xs)
  then show ?case by fastforce
qed

lemma sorted_cumsum_from: "\<forall>v \<in> set xs. 0 \<le> v \<Longrightarrow> sorted (cumsum_from a xs)"
proof (induction xs arbitrary: a)
  case Nil
  then show ?case by simp
next
  case (Cons x xs)
  then show ?case using cumsum_from_lower[of xs _ "a + x"] by auto
qed

lemma last_cumsum_from: "xs \<noteq> [] \<Longrightarrow> last (cumsum_from a xs) = a + sum_list xs"
proof (induction xs arbitrary: a)
  case Nil
  then show ?case by simp
next
  case (Cons x xs)
  then show ?case by (cases xs) auto
qed

lemma cumsum_from_upper:
  "\<forall>v \<in> set xs. 0 \<le> v \<Longrightarrow> y \<in> set (cumsum_from a xs) \<Longrightarrow> y \<le> a + sum_list xs"
proof (induction xs arbitrary: a)
  case Nil
  then show ?case by simp
next
  case (Cons x xs)
  have "0 \<le> sum_list xs" using Cons.prems(1) by (simp add: sum_list_nonneg)
  with Cons show ?case by fastforce
qed

lemma length_filter_disj:
  "(\<And>x. \<not> (A x \<and> B x)) \<Longrightarrow>
   length (filter (\<lambda>x. A x \<or> B x) xs) = length (filter A xs) + length (filter B xs)"
  by (induction xs) auto

lemma sum_counts:
  "sum_list (map (\<lambda>b. int (length (filter (\<lambda>x. P x \<and> f x = int b) xs))) [0..<B]) =
   int (length (filter (\<lambda>x. P x \<and> 0 \<le> f x \<and> f x < int B) xs))"
proof (induction B)
  case 0
  then show ?case by simp
next
  case (Suc B)
  have "filter (\<lambda>x. P x \<and> 0 \<le> f x \<and> f x < int (Suc B)) xs =
        filter (\<lambda>x. (P x \<and> 0 \<le> f x \<and> f x < int B) \<or> (P x \<and> f x = int B)) xs"
    by (rule filter_cong) auto
  then have "length (filter (\<lambda>x. P x \<and> 0 \<le> f x \<and> f x < int (Suc B)) xs) =
        length (filter (\<lambda>x. P x \<and> 0 \<le> f x \<and> f x < int B) xs) +
        length (filter (\<lambda>x. P x \<and> f x = int B) xs)"
    using length_filter_disj[of "\<lambda>x. P x \<and> 0 \<le> f x \<and> f x < int B" "\<lambda>x. P x \<and> f x = int B" xs]
    by simp
  with Suc show ?case by simp
qed

lemma bin_of_range:
  assumes "0 < bins" "lo < hi" "lo \<le> x" "x \<le> hi"
  shows "0 \<le> bin_of bins lo hi x \<and> bin_of bins lo hi x < bins"
proof -
  let ?b = "((x - lo) * bins) div (hi - lo)"
  have "0 \<le> (x - lo) * bins" using assms by simp
  then have lo: "0 \<le> ?b" using assms by (simp add: pos_imp_zdiv_nonneg_iff)
  have "(x - lo) * bins \<le> (hi - lo) * bins" using assms by (simp add: mult_right_mono)
  then have "?b \<le> ((hi - lo) * bins) div (hi - lo)" using assms by (intro zdiv_mono1) auto
  then have "?b \<le> bins" using assms by simp
  with lo assms show ?thesis by (auto simp: bin_of_def Let_def)
qed

lemma length_bin_counts: "length (bin_counts xs bins lo hi) = nat bins"
  by (simp add: bin_counts_def)

lemma bin_counts_bounds: "v \<in> set (bin_counts xs bins lo hi) \<Longrightarrow> 0 \<le> v \<and> v \<le> int (length xs)"
  by (auto simp: bin_counts_def)

lemma bin_counts_prefix_sum:
  assumes "0 < bins" "lo < hi" "B \<le> nat bins"
  shows "sum_list (take B (bin_counts xs bins lo hi)) =
         int (length (filter (\<lambda>x. lo \<le> x \<and> x \<le> hi \<and> bin_of bins lo hi x < int B) xs))"
proof -
  have "take B (bin_counts xs bins lo hi) =
        map (\<lambda>b. int (length (filter (\<lambda>x. (lo \<le> x \<and> x \<le> hi) \<and> bin_of bins lo hi x = int b) xs))) [0..<B]"
    using assms(3) by (simp add: bin_counts_def take_map min_def conj_assoc)
  then have "sum_list (take B (bin_counts xs bins lo hi)) =
     int (length (filter (\<lambda>x. (lo \<le> x \<and> x \<le> hi) \<and> 0 \<le> bin_of bins lo hi x \<and> bin_of bins lo hi x < int B) xs))"
    by (simp only: sum_counts)
  also have "filter (\<lambda>x. (lo \<le> x \<and> x \<le> hi) \<and> 0 \<le> bin_of bins lo hi x \<and> bin_of bins lo hi x < int B) xs
           = filter (\<lambda>x. lo \<le> x \<and> x \<le> hi \<and> bin_of bins lo hi x < int B) xs"
    using bin_of_range[OF assms(1,2)] by (intro filter_cong) auto
  finally show ?thesis .
qed

lemma bin_counts_total:
  assumes "0 < bins" "lo < hi"
  shows "sum_list (bin_counts xs bins lo hi) = int (length (filter (\<lambda>x. lo \<le> x \<and> x \<le> hi) xs))"
proof -
  have "sum_list (take (nat bins) (bin_counts xs bins lo hi)) =
        int (length (filter (\<lambda>x. lo \<le> x \<and> x \<le> hi \<and> bin_of bins lo hi x < int (nat bins)) xs))"
    using bin_counts_prefix_sum[OF assms, of "nat bins"] by simp
  moreover have "filter (\<lambda>x. lo \<le> x \<and> x \<le> hi \<and> bin_of bins lo hi x < int (nat bins)) xs =
                 filter (\<lambda>x. lo \<le> x \<and> x \<le> hi) xs"
    using bin_of_range[OF assms] assms(1) by (intro filter_cong) auto
  ultimately show ?thesis by (simp add: length_bin_counts)
qed

lemma to_int16_id: "- 32768 \<le> x \<Longrightarrow> x < 32768 \<Longrightarrow> to_int16 x = x"
  by (simp add: to_int16_def)

text \<open>With fewer than \<open>2 ^ 15\<close> elements no count wraps.\<close>

lemma histc_Inr:
  assumes "histc E xs bins lo hi = Inr h"
    and "- 32768 \<le> lo" "lo \<le> 32767" "- 32768 \<le> hi" "hi \<le> 32767"
    and "length xs < 32768"
  shows "0 < bins" "lo < hi" "h = bin_counts xs bins lo hi"
proof -
  have fits: "\<not> (lo < - 32768 \<or> 32767 < lo \<or> hi < - 32768 \<or> 32767 < hi)"
    using assms(2-5) by linarith
  show b: "0 < bins" "lo < hi"
    using assms(1) fits by (auto simp: histc_def split: if_splits)
  have "map to_int16 (bin_counts xs bins lo hi) = bin_counts xs bins lo hi"
  proof (rule map_idI)
    fix v assume "v \<in> set (bin_counts xs bins lo hi)"
    then have "0 \<le> v \<and> v \<le> int (length xs)" by (rule bin_counts_bounds)
    then show "to_int16 v = v" using assms(6) by (intro to_int16_id) auto
  qed
  then show "h = bin_counts xs bins lo hi"
    using assms(1) fits b by (auto simp: histc_def split: if_splits)
qed

lemma histc_small:
  assumes "- 32768 \<le> lo" "lo \<le> 32767" "- 32768 \<le> hi" "hi \<le> 32767"
    and "length xs < 32768" "0 < bins" "lo < hi"
  shows "histc E xs bins lo hi = Inr (bin_counts xs bins lo hi)"
proof -
  have "map to_int16 (bin_counts xs bins lo hi) = bin_counts xs bins lo hi"
  proof (rule map_idI)
    fix v assume "v \<in> set (bin_counts xs bins lo hi)"
    then have "0 \<le> v \<and> v \<le> int (length xs)" by (rule bin_counts_bounds)
    then show "to_int16 v = v" using assms(5) by (intro to_int16_id) auto
  qed
  then show ?thesis using assms by (simp add: histc_def)
qed

lemma sdiv_nonneg: "0 \<le> k \<Longrightarrow> 0 < l \<Longrightarrow> k sdiv l = k div (l::int)"
  by (simp add: signed_divide_int_def sgn_if)

lemma access_metadata_Inr:
  "access_metadata m i = Inr v \<Longrightarrow> v = elems m ! (i * strides m ! 0)"
  by (auto simp: access_metadata_def split: if_splits)

lemma length_entries: "length (entries x) = sizes x ! 0"
  by (simp add: entries_def)

lemma entries_nth: "i < sizes x ! 0 \<Longrightarrow> entries x ! i = elems x ! (i * strides x ! 0)"
  by (simp add: entries_def)

lemma entries_contiguous:
  "strides x = [1] \<Longrightarrow> sizes x = [length (elems x)] \<Longrightarrow> entries x = elems x"
  by (simp add: entries_def map_nth)

lemma shape_vector:
  "validate_shape t = Inr u \<Longrightarrow> access_metadata t i = Inr v \<Longrightarrow> sizes t = [2]"
  by (cases "sizes t")
     (auto simp: validate_shape_def access_metadata_def bind_eq_Inr TORCH_CHECK_eq_Inr
        numel_def ndimension_def split: if_splits)

lemma validate_sparse_shape:
  "validate_sparse shape data offsets indices = Inr u \<Longrightarrow> validate_shape shape = Inr ()"
  by (auto simp: validate_sparse_def bind_eq_Inr)

lemma row_indices_valid:
  "row_indices E H shape data offsets indices = Inr rws \<Longrightarrow>
   validate_sparse (H shape) (H data) (H offsets) (H indices) = Inr ()"
  by (auto simp: row_indices_def as_block_matrix_def bind_eq_Inr)

text \<open>
  What a returning helper has read and computed when the columns fit the 16-bit bound
  of the histogram and there are fewer than \<open>2 ^ 15\<close> blocks.
\<close>

lemma transpose_helper_hist:
  assumes ret: "transpose_helper E H shape data offsets indices = Inr (it, ot, bo)"
    and c: "- 32768 \<le> entries (H shape) ! 1" "entries (H shape) ! 1 \<le> 32767"
    and n: "length (entries (H indices)) < 32768"
  obtains kCols where
    "kCols = entries (H shape) ! 1" "access_metadata (H shape) 1 = Inr kCols"
    "0 < kCols" "0 < kCols sdiv 128"
    "ot = map to_int32 (0 # map (\<lambda>x. x * 16384)
            (cumsum (bin_counts (entries (H indices)) (kCols sdiv 128) 0 kCols)))"
proof -
  from ret obtain kCols rws hist where
    k: "access_metadata (H shape) 1 = Inr kCols"
    and ri: "row_indices E H shape data offsets indices = Inr rws"
    and h: "histc E (entries (H indices)) (kCols sdiv 128) 0 kCols = Inr hist"
    and ot: "ot = map to_int32 (0 # map (\<lambda>x. x * 16384) (cumsum hist))"
    by (rule transpose_helper_Inr)
  have "sizes (H shape) = [2]"
    using shape_vector[OF validate_sparse_shape[OF row_indices_valid[OF ri]] k] .
  then have kc: "kCols = entries (H shape) ! 1"
    using access_metadata_Inr[OF k] by (simp add: entries_nth)
  have b: "- 32768 \<le> kCols" "kCols \<le> 32767" using c kc by simp_all
  note hi = histc_Inr[OF h _ _ b n]
  have "0 < kCols sdiv 128" "0 < kCols" "hist = bin_counts (entries (H indices)) (kCols sdiv 128) 0 kCols"
    using hi by simp_all
  then show ?thesis using that[OF kc k] ot by simp
qed


lemma offsets_t_last:
  assumes ret: "transpose_helper E H shape data offsets indices = Inr (it, ot, bo)"
    and rng: "\<forall>x \<in> set (entries (H indices)). 0 \<le> x \<and> x < entries (H shape) ! 1 div 128"
    and c: "- 32768 \<le> entries (H shape) ! 1" "entries (H shape) ! 1 \<le> 32767"
    and n: "length (entries (H indices)) < 32768"
  shows "last ot = to_int32 (int (length (entries (H indices))) * 16384)"
    and "length ot = nat (entries (H shape) ! 1 div 128) + 1"
    and "hd ot = 0"
proof -
  from ret c n obtain kCols where
    kc: "kCols = entries (H shape) ! 1"
    and pos: "0 < kCols" "0 < kCols sdiv 128"
    and ot: "ot = map to_int32 (0 # map (\<lambda>x. x * 16384)
            (cumsum (bin_counts (entries (H indices)) (kCols sdiv 128) 0 kCols)))"
    by (rule transpose_helper_hist)
  define hist where "hist = bin_counts (entries (H indices)) (kCols sdiv 128) 0 kCols"
  have sd: "kCols sdiv 128 = kCols div 128" using pos by (simp add: sdiv_nonneg)
  have lh: "length hist = nat (kCols sdiv 128)" by (simp add: hist_def length_bin_counts)
  have ne: "hist \<noteq> []" using lh pos by auto
  have "filter (\<lambda>x. 0 \<le> x \<and> x \<le> kCols) (entries (H indices)) = entries (H indices)"
    using rng kc pos by (auto simp: filter_id_conv) 
  then have tot: "sum_list hist = int (length (entries (H indices)))"
    using bin_counts_total[OF pos(2,1), of "entries (H indices)"] by (simp add: hist_def)
  have "last (cumsum hist) = int (length (entries (H indices)))"
    using last_cumsum_from[OF ne, of 0] tot by (simp add: cumsum_def)
  moreover have "cumsum hist \<noteq> []" using ne length_cumsum_from[of 0 hist] by (auto simp: cumsum_def)
  ultimately show "last ot = to_int32 (int (length (entries (H indices))) * 16384)"
    by (simp add: ot hist_def[symmetric] last_map)
  show "length ot = nat (entries (H shape) ! 1 div 128) + 1"
    using sd unfolding kc[symmetric]
    by (simp add: ot cumsum_def length_cumsum_from length_bin_counts)
  show "hd ot = 0" by (simp add: ot to_int32_def)
qed


subsection \<open>When the transpose helper returns\<close>

lemma validate_sparse_shape_int:
  "validate_sparse shape data offsets indices = Inr u \<Longrightarrow> scalar_type shape = kInt"
  by (auto simp: validate_sparse_def validate_shape_def bind_eq_Inr TORCH_CHECK_eq_Inr)

lemma linspace_Inr: "0 \<le> steps \<Longrightarrow> \<exists>blk. linspace start e steps = Inr blk \<and> length blk = nat steps"
  by (auto simp: linspace_def)

lemma gather_ok: "\<forall>i \<in> set is. i < length xs \<Longrightarrow> gather xs is = Inr (map (\<lambda>i. xs ! i) is)"
  by (simp add: gather_def)

lemma transpose_helper_returns_with:
  assumes vs: "validate_sparse (H shape) (H data) (H offsets) (H indices) = Inr ()"
    and sh: "sizes (H shape) = [2]" "strides (H shape) ! 0 < length (elems (H shape))"
    and r: "entries (H shape) ! 0 \<le> 16384"
    and wf: "ndimension (H indices) = 1"
    and n: "int (length (entries (H indices))) < 2147483648"
    and ok: "RowIndices_ok E" "argsort_sorts E"
    and hist: "histc E (entries (H indices)) (entries (H shape) ! 1 sdiv 128) 0
                 (entries (H shape) ! 1) = Inr hist"
  shows "\<exists>it bo. transpose_helper E H shape data offsets indices
             = Inr (it, map to_int32 (0 # map (\<lambda>x. x * 16384) (cumsum hist)), bo)"
proof -
  define idx where "idx = entries (H indices)"
  define nn where "nn = length idx"
  define rws where "rws = RowIndices (elems (H offsets)) nn"
  define keys :: "rat list" where "keys = map2 (\<lambda>c r. of_int c + of_int r / 128) idx rws"
  define g where "g = argsort E keys"
  define kc where "kc = entries (H shape) ! 1"
  have f1: "size_at (H data) 1 = Inr 128" using vs by (rule validate_sparse_Inr)
  have ty: "scalar_type (H shape) = kInt" using vs by (rule validate_sparse_shape_int)
  have e0: "entries (H shape) ! 0 = elems (H shape) ! 0"
    and e1: "entries (H shape) ! 1 = elems (H shape) ! (strides (H shape) ! 0)"
    using sh(1) by (simp_all add: entries_nth)
  have ne: "elems (H shape) \<noteq> []" using sh(2) by auto
  have f2: "access_metadata (H shape) 0 = Inr (entries (H shape) ! 0)"
           "access_metadata (H shape) 1 = Inr kc"
    using sh ty e0 e1 ne by (simp_all add: access_metadata_def ndimension_def kc_def)
  obtain m where sz: "sizes (H indices) = [m]"
    using wf by (cases "sizes (H indices)") (auto simp: ndimension_def)
  have mn: "m = nn" using sz by (simp add: nn_def idx_def length_entries)
  have f4: "numel (H indices) = nn" using sz mn by (simp add: numel_def)
  have f4': "size_at (H indices) 0 = Inr (int nn)"
    using sz mn by (simp add: size_at_def ndimension_def)
  have f3: "row_indices E H shape data offsets indices = Inr rws"
    using vs f1 f2 f4' ok(1) by (simp add: row_indices_def as_block_matrix_def bind_def rws_def)
  have lk: "length keys = nn" by (simp add: keys_def rws_def RowIndices_def nn_def)
  have aok: "argsort_ok keys g" using ok(2) by (simp add: argsort_sorts_def g_def)
  have sg: "\<forall>i \<in> set g. i < nn" using argsort_ok_set[OF aok] lk by simp
  have f5: "gather rws g = Inr (map (\<lambda>i. rws ! i) g)"
    using sg by (intro gather_ok) (simp add: rws_def RowIndices_def)
  have t32: "to_int32 (int nn) = int nn" using n by (intro to_int32_id) (auto simp: nn_def idx_def)
  obtain blk where f6: "linspace 0 (to_int32 ((int nn - 1) * 32768)) (int nn) = Inr blk"
    and lb: "length blk = nn"
    using linspace_Inr[of "int nn" 0 "to_int32 ((int nn - 1) * 32768)"] by auto
  have f7: "gather blk g = Inr (map (\<lambda>i. blk ! i) g)" using sg lb by (intro gather_ok) simp
  have f8: "histc E idx (kc sdiv 128) 0 kc = Inr hist" using hist by (simp add: idx_def kc_def)
  have "transpose_helper E H shape data offsets indices
          = Inr (map (\<lambda>i. rws ! i) g, map to_int32 (0 # map (\<lambda>x. x * 16384) (cumsum hist)),
                 map (\<lambda>i. blk ! i) g)"
    unfolding transpose_helper_def Let_def
    using r f5 f7 f6 f8
    by (simp add: f1 f2 f3 f4 t32 bind_def TORCH_CHECK_def to_int32_id
          idx_def[symmetric] keys_def[symmetric] g_def[symmetric] del: One_nat_def)
  then show ?thesis by blast
qed

subsection \<open>The reference inputs\<close>

lemma stable_argsort_ok: "argsort_ok ks (stable_argsort ks)"
  by (simp add: argsort_ok_def stable_argsort_def)

lemma argsort_sorts_E_ref: "argsort_sorts E_ref"
  by (simp add: argsort_sorts_def E_ref_def stable_argsort_ok)

lemma RowIndices_ok_E_ref: "RowIndices_ok E_ref"
  by (simp add: E_ref_def)

text \<open>
  On \<open>2 ^ 15\<close> blocks at one position of a 128 by 128 matrix the one count of the
  histogram wraps to \<open>- (2 ^ 15)\<close>.
\<close>

lemma histc_overflow: "histc E (replicate 32768 0) 1 0 128 = Inr [- 32768]"
  by (simp add: histc_def bin_counts_def bin_of_def filter_replicate to_int16_def)

lemma transpose_helper_overflow:
  "\<exists>it bo. transpose_helper E_ref overflow_heap 0 1 2 3 = Inr (it, [0, - 536870912], bo)"
proof -
  have h: "histc E_ref (entries (overflow_heap 3)) (entries (overflow_heap 0) ! 1 sdiv 128) 0
             (entries (overflow_heap 0) ! 1) = Inr [- 32768]"
    using histc_overflow[of E_ref]
    by (simp add: overflow_heap_def sparse_heap_def vec_def entries_contiguous sdiv_nonneg)
  have "\<exists>it bo. transpose_helper E_ref overflow_heap 0 1 2 3
           = Inr (it, map to_int32 (0 # map (\<lambda>x. x * 16384) (cumsum [- 32768])), bo)"
    by (rule transpose_helper_returns_with[OF _ _ _ _ _ _ RowIndices_ok_E_ref argsort_sorts_E_ref h])
       (simp_all add: overflow_heap_def sparse_heap_def vec_def tiles_def entries_contiguous
          validate_sparse_def validate_shape_def bind_def TORCH_CHECK_def
          is_cuda_def numel_def ndimension_def size_at_def)
  then show ?thesis by (simp add: cumsum_def to_int32_def)
qed

lemmas fixture_simps = sparse_heap_def vec_def tiles_def entries_contiguous

lemmas check_simps = validate_sparse_def validate_shape_def bind_def TORCH_CHECK_def
  is_cuda_def numel_def ndimension_def size_at_def


lemma perm2: "mset p = mset [0, Suc 0] \<Longrightarrow> p = [0, Suc 0] \<or> p = [Suc 0, 0]"
proof -
  assume a: "mset p = mset [0, Suc 0]"
  have "length p = 2" using mset_eq_length[OF a] by simp
  then obtain x y where p: "p = [x, y]"
    by (metis (no_types, opaque_lifting) One_nat_def Suc_1 length_0_conv length_Suc_conv)
  have "set p = {0, Suc 0}" using mset_eq_setD[OF a] by simp
  then show ?thesis unfolding p by (auto simp: doubleton_eq_iff)
qed


subsection \<open>The order of the gathered blocks\<close>

lemma transpose_gather_order:
  assumes ok: "csr_ok H shape data offsets indices"
    and srt: "argsort_sorts E"
    and ret: "transpose_helper E H shape data offsets indices = Inr (it, ot, bo)"
  shows "let idx = entries (H indices); offs = elems (H offsets);
             g = argsort E (map2 (\<lambda>c r. of_int c + of_int r / 128) idx (RowIndices offs (length idx)))
         in mset g = mset [0..<length idx] \<and>
            it = map (row_of offs) g \<and>
            (\<forall>a b. a < b \<and> b < length g \<longrightarrow>
               idx ! (g ! a) < idx ! (g ! b) \<or>
               (idx ! (g ! a) = idx ! (g ! b) \<and> row_of offs (g ! a) \<le> row_of offs (g ! b)))"
proof -
  define idx where "idx = entries (H indices)"
  define offs where "offs = elems (H offsets)"
  define n where "n = length idx"
  define rws where "rws = RowIndices offs n"
  define keys :: "rat list" where "keys = map2 (\<lambda>c r. of_int c + of_int r / 128) idx rws"
  define g where "g = argsort E keys"
  from ret obtain kCols kRows rws' hist where
    t: "access_metadata (H shape) 0 = Inr kRows" "kRows \<le> 16384"
       "row_indices E H shape data offsets indices = Inr rws'"
       "gather rws' (argsort E (map2 (\<lambda>c r. of_int c + of_int r / 128) (entries (H indices)) rws')) = Inr it"
    by (rule transpose_helper_Inr)
  have sz: "sizes (H indices) = [n]"
    and lo: "int (length offs) = entries (H shape) ! 0 div 128 + 1" and hd: "hd offs = 0"
    and la: "last offs = int n" and sh: "sizes (H shape) = [2]"
    using ok by (simp_all add: csr_ok_def Let_def idx_def offs_def n_def)
  have "rws' = rws"
    using row_indices_Inr(3)[OF t(3)] sz by (auto simp: size_at_def ndimension_def rws_def offs_def)
  with t(4) have ga: "gather rws g = Inr it" by (simp add: g_def keys_def idx_def)
  have kr: "kRows = entries (H shape) ! 0"
    using access_metadata_Inr[OF t(1)] sh by (simp add: entries_nth)
  have len_offs: "int (length offs) \<le> 129" using lo kr t(2) by linarith
  have ne: "offs \<noteq> []" using lo ok by (auto simp: csr_ok_def Let_def)
  have lr: "length rws = n" by (simp add: rws_def RowIndices_def)
  have lk: "length keys = n" by (simp add: keys_def lr n_def)
  have aok: "argsort_ok keys g" using srt by (simp add: argsort_sorts_def g_def)
  have rw: "rws ! j = row_of offs j" if "j < n" for j
    using that by (simp add: rws_def RowIndices_def)
  have rb: "0 \<le> row_of offs j \<and> row_of offs j < 128" if "j < n" for j
    using row_of_bound[OF ne hd la that] len_offs by linarith
  have key: "keys ! j = of_int (idx ! j) + of_int (row_of offs j) / 128" if "j < n" for j
    using that by (simp add: keys_def lr n_def rw)
  have gin: "g ! a < n" if "a < length g" for a
    using argsort_ok_set[OF aok] that lk nth_mem[OF that] by auto
  have 1: "mset g = mset [0..<length idx]" using aok lk by (simp add: argsort_ok_def n_def)
  have 2: "it = map (row_of offs) g"
  proof -
    have "it = map (\<lambda>i. rws ! i) g" using gather_Inr[OF ga] by simp
    also have "\<dots> = map (row_of offs) g"
      using argsort_ok_set[OF aok] lk by (intro map_cong) (auto simp: rw)
    finally show ?thesis .
  qed
  have 3: "idx ! (g ! a) < idx ! (g ! b) \<or>
           (idx ! (g ! a) = idx ! (g ! b) \<and> row_of offs (g ! a) \<le> row_of offs (g ! b))"
    if "a < b" "b < length g" for a b
  proof -
    have a: "g ! a < n" and b: "g ! b < n" using gin that by auto
    have "keys ! (g ! a) \<le> keys ! (g ! b)" using argsort_ok_mono[OF aok that] .
    then show ?thesis
      using key_le_lex[of "row_of offs (g ! a)" "row_of offs (g ! b)" "idx ! (g ! a)" "idx ! (g ! b)"]
        rb[OF a] rb[OF b] by (simp add: key[OF a] key[OF b])
  qed
  show ?thesis
    unfolding Let_def using 1 2 3
    by (simp add: g_def keys_def rws_def n_def idx_def offs_def)
qed


subsection \<open>Sorted lists and segments\<close>

lemma count_lt_le:
  fixes cs :: "int list"
  assumes "sorted cs" "k < length cs" "cs ! k < c"
  shows "k < length (filter (\<lambda>v. v < c) cs)"
proof -
  have "\<forall>x \<in> set (take (Suc k) cs). x < c"
  proof
    fix x assume "x \<in> set (take (Suc k) cs)"
    then obtain i where "i < Suc k" "x = cs ! i"
      using assms(2) by (auto simp: in_set_conv_nth)
    then have "x \<le> cs ! k" using sorted_nth_mono[OF assms(1), of i k] assms(2) by simp
    with assms(3) show "x < c" by simp
  qed
  then have "filter (\<lambda>v. v < c) (take (Suc k) cs) = take (Suc k) cs" by (simp add: filter_id_conv)
  moreover have "filter (\<lambda>v. v < c) cs =
      filter (\<lambda>v. v < c) (take (Suc k) cs) @ filter (\<lambda>v. v < c) (drop (Suc k) cs)"
    by (metis append_take_drop_id filter_append)
  ultimately show ?thesis using assms(2) by simp
qed

lemma count_lt_ge:
  fixes cs :: "int list"
  assumes "sorted cs" "k < length cs" "\<not> cs ! k < c"
  shows "length (filter (\<lambda>v. v < c) cs) \<le> k"
proof -
  have "\<forall>x \<in> set (drop k cs). \<not> x < c"
  proof
    fix x assume "x \<in> set (drop k cs)"
    then obtain i where "i < length cs - k" "x = cs ! (k + i)"
      by (auto simp: in_set_conv_nth)
    then have "cs ! k \<le> x" using sorted_nth_mono[OF assms(1), of k "k + i"] by simp
    with assms(3) show "\<not> x < c" by simp
  qed
  then have "filter (\<lambda>v. v < c) (drop k cs) = []" by (simp add: filter_empty_conv)
  moreover have "filter (\<lambda>v. v < c) cs =
      filter (\<lambda>v. v < c) (take k cs) @ filter (\<lambda>v. v < c) (drop k cs)"
    by (metis append_take_drop_id filter_append)
  ultimately have "length (filter (\<lambda>v. v < c) cs) = length (filter (\<lambda>v. v < c) (take k cs))"
    by simp
  also have "\<dots> \<le> length (take k cs)" by (rule length_filter_le)
  finally show ?thesis by simp
qed

lemma sorted_segment:
  fixes cs :: "int list"
  assumes "sorted cs"
    and "length (filter (\<lambda>v. v < c) cs) \<le> k"
    and "k < length (filter (\<lambda>v. v < c + 1) cs)"
  shows "cs ! k = c"
proof -
  have k: "k < length cs"
    using assms(3) length_filter_le[of "\<lambda>v. v < c + 1" cs] by linarith
  have "\<not> cs ! k < c" using count_lt_le[OF assms(1) k] assms(2) by fastforce
  moreover have "cs ! k < c + 1" using count_lt_ge[OF assms(1) k, of "c + 1"] assms(3) by fastforce
  ultimately show ?thesis by simp
qed

lemma concat_segments:
  fixes P :: "nat \<Rightarrow> nat"
  assumes "\<And>c. c < B \<Longrightarrow> P c \<le> P (Suc c)" "P 0 = 0"
  shows "concat (map (\<lambda>c. map F [P c ..< P (Suc c)]) [0..<B]) = map F [0..<P B]"
  using assms
proof (induction B)
  case 0
  then show ?case by simp
next
  case (Suc B)
  have IH: "concat (map (\<lambda>c. map F [P c ..< P (Suc c)]) [0..<B]) = map F [0..<P B]"
    using Suc.IH Suc.prems by simp
  have "P B \<le> P (Suc B)" using Suc.prems(1) by simp
  then have "[0..<P (Suc B)] = [0..<P B] @ [P B..<P (Suc B)]"
    using upt_add_eq_append[of 0 "P B" "P (Suc B) - P B"] by simp
  then show ?case using IH by simp
qed

lemma bin_of_scaled:
  assumes "0 < bins" "0 \<le> x" "x < 128 * bins" 
  shows "bin_of bins 0 (128 * bins) x = x div 128"
proof -
  have "(x * bins) div (128 * bins) = x div 128" using assms(1) by simp
  moreover have "x div 128 < bins" using assms(3) by linarith
  ultimately show ?thesis by (simp add: bin_of_def)
qed

lemma length_filter_perm: "mset xs = mset ys \<Longrightarrow> length (filter P xs) = length (filter P ys)"
proof -
  assume "mset xs = mset ys"
  then have "size (filter_mset P (mset xs)) = size (filter_mset P (mset ys))" by simp
  then show ?thesis by (simp only: mset_filter[symmetric] size_mset)
qed


lemmas eval_simps = transpose_helper_def Let_def bind_def size_at_def ndimension_def numel_def
  to_int32_def access_metadata_def TORCH_CHECK_def row_indices_def as_block_matrix_def
  validate_sparse_def validate_shape_def is_cuda_def RowIndices_def row_of_def gather_def
  linspace_def histc_def bin_counts_def to_int16_def bin_of_def cumsum_def upt_conv_Cons

section \<open>Lemmas about the operations\<close>

subsection \<open>The bitmask workspace\<close>

lemma ceiling_div_64: "\<lceil>of_int x / (64 :: rat)\<rceil> = (x + 63) div 64"
proof -
  have "\<lceil>of_int x / (64 :: rat)\<rceil> = - (- x div 64)"
    using ceiling_divide_eq_div[of x 64] by simp
  also have "\<dots> = (x + 63) div 64" by linarith
  finally show ?thesis .
qed

lemma size_in_bytes_exact:
  assumes "0 \<le> br" "0 \<le> bc" "bc < 2147483648 - 63" "(bc + 63) div 64 * br < 2147483648"
  shows "size_in_bytes br bc = nat (spec_bitmask_bytes br bc)"
proof -
  have e: "bc + 64 - 1 = bc + 63" by linarith
  have 1: "to_int32 (bc + 64 - 1) = bc + 63"
    unfolding e by (rule to_int32_id) (use assms in auto)
  have 2: "(bc + 63) sdiv 64 = (bc + 63) div 64" using assms by (intro sdiv_nonneg) auto
  have nn: "0 \<le> (bc + 63) div 64 * br" using assms by (simp add: pos_imp_zdiv_nonneg_iff)
  then have 3: "to_int32 ((bc + 63) div 64 * br) = (bc + 63) div 64 * br"
    using assms(4) by (intro to_int32_id) linarith+
  have p64: "(2::int) ^ 64 = 18446744073709551616" by simp
  have 4: "((bc + 63) div 64 * br) mod 2 ^ 64 = (bc + 63) div 64 * br"
    unfolding p64 using nn assms(4) by (intro mod_pos_pos_trivial) linarith+
  have 5: "((bc + 63) div 64 * br * 8) mod 2 ^ 64 = (bc + 63) div 64 * br * 8"
    unfolding p64 using nn assms(4) by (intro mod_pos_pos_trivial) linarith+
  show ?thesis
    unfolding size_in_bytes_def Let_def 1 2 3 4 5 spec_bitmask_bytes_def ceiling_div_64 ..
qed

lemma spec_bitmask_bytes_mono:
  assumes "0 \<le> br" "0 \<le> bc" "br \<le> br'" "bc \<le> bc'"
  shows "spec_bitmask_bytes br bc \<le> spec_bitmask_bytes br' bc'"
proof -
  have "(bc + 63) div 64 \<le> (bc' + 63) div 64" using assms by (intro zdiv_mono1) auto
  moreover have "0 \<le> (bc + 63) div 64" using assms by (simp add: pos_imp_zdiv_nonneg_iff)
  ultimately have "(bc + 63) div 64 * br \<le> (bc' + 63) div 64 * br'"
    using assms by (intro mult_mono) auto
  then show ?thesis by (simp add: spec_bitmask_bytes_def ceiling_div_64)
qed

subsection \<open>The shape normalizer\<close>

lemma standardize_shape_eq:
  assumes "ndimension (heap s h) = 1" "scalar_type (heap s h) = kInt"
    and "strides (heap s h) = [1]" "elems (heap s h) = r # c # rest"
  shows "standardize_shape h t s =
           (Inr (), s\<lparr>heap := (heap s)(h := (heap s h)\<lparr>elems :=
              (if t then c # r # rest else r # c # rest)\<rparr>)\<rparr>)"
  using assms by (simp add: standardize_shape_def bindS_def read_def access_metadata_def)

lemma heap_upd_same: "s\<lparr>heap := (heap s)(h := (heap s h)\<lparr>elems := elems (heap s h)\<rparr>)\<rparr> = s"
  by simp

subsection \<open>Running an operation step by step\<close>

lemma post_read:
  assumes "\<And>e. g (heap s) = Inl e \<Longrightarrow> \<Phi> (Inl e) s"
    and "\<And>x. g (heap s) = Inr x \<Longrightarrow> post (f x) s \<Phi>"
  shows "post (bindS (read g) f) s \<Phi>"
  using assms by (cases "g (heap s)") (simp_all add: post_def bindS_def read_def)

lemma post_read_last:
  assumes "\<Phi> (g (heap s)) s"
  shows "post (read g) s \<Phi>"
  using assms by (simp add: post_def read_def)

lemma standardize_shape_cases:
  "standardize_shape h t s =
     (case access_metadata (heap s h) (if t then 1 else 0) of
        Inl e \<Rightarrow> (Inl e, s)
      | Inr r \<Rightarrow> (case access_metadata (heap s h) (if t then 0 else 1) of
                    Inl e \<Rightarrow> (Inl e, s)
                  | Inr c \<Rightarrow> if length (elems (heap s h)) < 2 then (Inl Undefined, s)
                             else (Inr (), swap_shape s h t)))"
  by (cases t)
     (auto simp: standardize_shape_def bindS_def read_def access_metadata_def swap_shape_def
        normalized_def split: sum.splits)

lemma post_standardize_shape:
  assumes "\<And>e. access_metadata (heap s h) (if t then 1 else 0) = Inl e \<or>
                access_metadata (heap s h) (if t then 0 else 1) = Inl e \<or>
                e = Undefined \<and> length (elems (heap s h)) < 2 \<Longrightarrow> \<Phi> (Inl e) s"
    and "\<And>r c. access_metadata (heap s h) (if t then 1 else 0) = Inr r \<Longrightarrow>
                 access_metadata (heap s h) (if t then 0 else 1) = Inr c \<Longrightarrow>
                 post (f ()) (swap_shape s h t) \<Phi>"
  shows "post (bindS (standardize_shape h t) f) s \<Phi>"
proof (cases "access_metadata (heap s h) (if t then 1 else 0)")
  case (Inl e)
  then show ?thesis using assms(1)[of e]
    by (simp add: post_def bindS_def standardize_shape_cases)
next
  case r: (Inr r)
  show ?thesis
  proof (cases "access_metadata (heap s h) (if t then 0 else 1)")
    case (Inl e)
    then show ?thesis using assms(1)[of e] r
      by (simp add: post_def bindS_def standardize_shape_cases)
  next
    case c: (Inr c)
    show ?thesis
    proof (cases "length (elems (heap s h)) < 2")
      case True
      then show ?thesis using assms(1)[of Undefined] r c
        by (simp add: post_def bindS_def standardize_shape_cases)
    next
      case False
      then show ?thesis using assms(2)[OF r c] r c
        by (simp add: post_def bindS_def standardize_shape_cases)
    qed
  qed
qed

lemma post_check_ValidMatmul:
  assumes "\<not> ValidMatmul E a ta b tb c \<Longrightarrow> \<Phi> (Inl CheckFailed) (log_event s (EvValidMatmul False))"
    and "ValidMatmul E a ta b tb c \<Longrightarrow> post (f ()) (log_event s (EvValidMatmul True)) \<Phi>"
  shows "post (bindS (check_ValidMatmul E a ta b tb c) f) s \<Phi>"
  using assms
  by (cases "ValidMatmul E a ta b tb c")
     (simp_all add: post_def bindS_def read_def emit_def check_ValidMatmul_def TORCH_CHECK_def log_event_def)

lemma post_transpose_step:
  assumes "\<And>e. transpose_helper E (heap s) shape data offsets indices = Inl e \<Longrightarrow> \<Phi> (Inl e) s"
    and "\<And>it ot bo. transpose_helper E (heap s) shape data offsets indices = Inr (it, ot, bo) \<Longrightarrow>
            post (f (it, ot, bo)) (log_event s (EvTranspose it ot bo)) \<Phi>"
  shows "post (bindS (transpose_step E shape data offsets indices) f) s \<Phi>"
proof (cases "transpose_helper E (heap s) shape data offsets indices")
  case (Inl e)
  then show ?thesis using assms(1)
    by (simp add: post_def bindS_def read_def transpose_step_def)
next
  case (Inr meta)
  obtain it ot bo where m: "meta = (it, ot, bo)" by (cases meta) auto
  show ?thesis using assms(2)[of it ot bo] Inr m
    by (simp add: post_def bindS_def read_def emit_def transpose_step_def log_event_def)
qed

lemma post_allocate_bitmask:
  assumes "block_size m = 0 \<Longrightarrow> \<Phi> (Inl Undefined) s"
    and "\<And>bytes. block_size m \<noteq> 0 \<Longrightarrow>
           bytes = size_in_bytes ((if t then cols m else rows m) sdiv block_size m)
                                 ((if t then rows m else cols m) sdiv block_size m) \<Longrightarrow>
           2 ^ 63 \<le> bytes \<Longrightarrow> \<Phi> (Inl LibraryError) s"
    and "\<And>bytes. block_size m \<noteq> 0 \<Longrightarrow>
           bytes = size_in_bytes ((if t then cols m else rows m) sdiv block_size m)
                                 ((if t then rows m else cols m) sdiv block_size m) \<Longrightarrow>
           \<not> 2 ^ 63 \<le> bytes \<Longrightarrow>
           post (f bytes) (log_event s (EvAllocBitmask bytes)) \<Phi>"
  shows "post (bindS (allocate_bitmask m t) f) s \<Phi>"
  using assms
  by (simp add: post_def bindS_def read_def emit_def fail_def allocate_bitmask_def Let_def log_event_def)

lemma post_call_Matmul:
  assumes "\<Phi> (if Matmul_ok E a ta b tb c then Inr () else Inl KernelFailure) (log_event s (EvMatmul a ta b tb c))"
  shows "post (call_Matmul E a ta b tb c) s \<Phi>"
  using assms
  by (cases "Matmul_ok E a ta b tb c") (simp_all add: post_def bindS_def emit_def fail_def succeed_def call_Matmul_def log_event_def)

lemma post_call_MatmulEx:
  assumes "\<Phi> (if MatmulEx_ok E a ta b tb c then Inr () else Inl KernelFailure) (log_event s (EvMatmulEx a ta b tb c))"
  shows "post (call_MatmulEx E a ta b tb c) s \<Phi>"
  using assms
  by (cases "MatmulEx_ok E a ta b tb c") (simp_all add: post_def bindS_def emit_def fail_def succeed_def call_MatmulEx_def log_event_def)

lemma post_if:
  assumes "b \<Longrightarrow> post m1 s \<Phi>" and "\<not> b \<Longrightarrow> post m2 s \<Phi>"
  shows "post (if b then m1 else m2) s \<Phi>"
  using assms by simp

lemma post_bind_if:
  assumes "b \<Longrightarrow> post (bindS m1 f) s \<Phi>" and "\<not> b \<Longrightarrow> post (bindS m2 f) s \<Phi>"
  shows "post (bindS (if b then m1 else m2) f) s \<Phi>"
  using assms by simp

lemma post_assoc:
  assumes "post (bindS m (\<lambda>x. bindS (g x) f)) s \<Phi>"
  shows "post (bindS (bindS m g) f) s \<Phi>"
  using assms by (simp add: post_def bindS_def split: prod.splits sum.splits)

lemmas post_rules = post_read post_standardize_shape post_check_ValidMatmul post_transpose_step
  post_allocate_bitmask post_call_Matmul post_call_MatmulEx post_if post_bind_if post_assoc
  post_read_last

lemmas state_simps = log_event_def swap_shape_def new_events_def

lemma as_block_matrix_attached:
  "as_block_matrix H shape data offsets indices = Inr m \<Longrightarrow>
     indices_t m = None \<and> offsets_t m = None \<and> block_offsets m = None \<and> bitmask m = None"
  by (auto simp: as_block_matrix_def bind_eq_Inr)

lemma trace_swap_shape: "trace (swap_shape s h t) = trace s"
  by (simp add: swap_shape_def)

lemma heap_log_event: "heap (log_event s ev) = heap s"
  by (simp add: log_event_def)

lemma trace_log_event: "trace (log_event s ev) = trace s @ [ev]"
  by (simp add: log_event_def)

lemmas trace_simps = trace_swap_shape heap_log_event trace_log_event new_events_def

lemma validate_conflict:
  "validate_shape t = Inr () \<Longrightarrow> validate_transpose t' = Inr () \<Longrightarrow> sizes t' = sizes t \<Longrightarrow> False"
  by (auto simp: validate_shape_def validate_transpose_def bind_eq_Inr TORCH_CHECK_eq_Inr numel_def)

lemma sizes_normalized: "sizes (normalized b t) = sizes t"
  by (simp add: normalized_def)

lemma normalized_contiguous: "strides t = [1] \<Longrightarrow> normalized b t = swapped_if b t"
  by (simp add: normalized_def swapped_if_def swapped_def)

lemma flag_after_write:
  assumes "validate_shape (heap s l) = Inr ()"
    and "validate_transpose (heap (swap_shape s l t) tb) = Inr ()"
  shows "heap (swap_shape s l t) tb = heap s tb"
proof (cases "tb = l")
  case True
  then have "heap (swap_shape s l t) tb = normalized t (heap s l)" by (simp add: swap_shape_def)
  then show ?thesis
    using validate_conflict[OF assms(1), of "normalized t (heap s l)"] assms(2)
    by (simp add: sizes_normalized)
next
  case False
  then show ?thesis by (simp add: swap_shape_def)
qed

lemma access_metadata_eq_Inr:
  "access_metadata m i = Inr v \<longleftrightarrow>
     ndimension m = 1 \<and> scalar_type m = kInt \<and> i * strides m ! 0 < length (elems m) \<and>
     v = elems m ! (i * strides m ! 0)"
  by (auto simp: access_metadata_def)

lemma flag_after_writeD:
  "validate_transpose (heap (swap_shape s l t) tb) = Inr () \<Longrightarrow>
   validate_shape (heap s l) = Inr () \<Longrightarrow>
   heap (swap_shape s l t) tb = heap s tb"
  by (rule flag_after_write)

lemma heap_swap_shape: "heap (swap_shape s h t) = (heap s)(h := normalized t (heap s h))"
  by (simp add: swap_shape_def)

subsection \<open>The validity check comes first\<close>

lemma dsd_check_first:
  "post (dsd E shape data offsets indices transpose_a rhs_t out_t) s
     (\<lambda>r s'. trace s' = trace s @ new_events s s' \<and> check_first r (new_events s s'))"
  unfolding dsd_def Let_def
  by (intro post_rules) (simp_all add: state_simps check_first_def)

lemma dss_check_first:
  "post (dss E lhs_shape lhs_data lhs_offsets lhs_indices transpose_a
         rhs_shape rhs_data rhs_offsets rhs_indices transpose_b out_t) s
     (\<lambda>r s'. trace s' = trace s @ new_events s s' \<and> check_first r (new_events s s'))"
  unfolding dss_def Let_def
  by (intro post_rules) (simp_all add: state_simps check_first_def)

lemma dds_check_first:
  "post (dds E lhs_t shape data offsets indices transpose_b out_t) s
     (\<lambda>r s'. trace s' = trace s @ new_events s s' \<and> check_first r (new_events s s'))"
  unfolding dds_def Let_def
  by (intro post_rules) (simp_all add: state_simps check_first_def)

lemma sdd_check_first:
  "post (sdd E lhs_t rhs_t shape data offsets indices) s
     (\<lambda>r s'. trace s' = trace s @ new_events s s' \<and> check_first r (new_events s s'))"
  unfolding sdd_def Let_def
  by (intro post_rules) (simp_all add: state_simps check_first_def)

lemma ssd_check_first:
  "post (ssd E lhs_shape lhs_data lhs_offsets lhs_indices transpose_a rhs_t
           out_shape out_data out_offsets out_indices) s
     (\<lambda>r s'. trace s' = trace s @ new_events s s' \<and> check_first r (new_events s s'))"
  unfolding ssd_def Let_def
  by (intro post_rules) (simp_all add: state_simps check_first_def)

subsection \<open>The calls of a run that returns\<close>

lemma dsd_kinds_post:
  "post (dsd E shape data offsets indices transpose_a rhs_t out_t) s
     (\<lambda>r s'. r = Inr () \<longrightarrow> map kind_of (new_events s s') =
        (if flag s transpose_a then [KValid True, KTranspose, KExtended (3, False) (0, False)]
         else [KValid True, KPlain (0, False) (0, False)]))"
  unfolding dsd_def Let_def
  by (intro post_rules)
     (auto simp: state_simps flag_def attach_def dest!: access_metadata_Inr as_block_matrix_attached)


lemma ssd_kinds_post:
  "post (ssd E lhs_shape lhs_data lhs_offsets lhs_indices transpose_a rhs_t
           out_shape out_data out_offsets out_indices) s
     (\<lambda>r s'. r = Inr () \<longrightarrow> map kind_of (new_events s s') =
        (if flag s transpose_a then [KValid True, KTranspose, KExtended (3, False) (0, False)]
         else [KValid True, KPlain (0, False) (0, False)]))"
  unfolding ssd_def Let_def
  by (intro post_rules)
     (auto simp: state_simps flag_def attach_def dest!: access_metadata_Inr as_block_matrix_attached)

lemma dds_kinds_post:
  "post (dds E lhs_t shape data offsets indices transpose_b out_t) s
     (\<lambda>r s'. r = Inr () \<longrightarrow> map kind_of (new_events s s') =
        (if \<not> flag s transpose_b then [KValid True, KTranspose, KExtended (0, False) (3, False)]
         else [KValid True, KPlain (0, False) (0, False)]))"
  unfolding dds_def Let_def
  by (intro post_rules)
     (auto simp: state_simps flag_def attach_def dest!: access_metadata_Inr as_block_matrix_attached)

lemma dss_kinds_post:
  "post (dss E lhs_shape lhs_data lhs_offsets lhs_indices transpose_a
           rhs_shape rhs_data rhs_offsets rhs_indices transpose_b out_t) s
     (\<lambda>r s'. r = Inr () \<longrightarrow> map kind_of (new_events s s') =
        [KValid True, KBitmask, KBitmask] @
        (if flag s transpose_a then [KTranspose] else []) @
        (if \<not> flag s transpose_b then [KTranspose] else []) @
        [KExtended (if flag s transpose_a then 3 else 0, True)
                   (if \<not> flag s transpose_b then 3 else 0, True)])"
  unfolding dss_def Let_def
  by (intro post_rules;
      clarsimp simp: trace_simps access_metadata_eq_Inr flag_def attach_def
               dest!: as_block_matrix_attached flag_after_writeD)

subsection \<open>The heap after a run\<close>

lemma dsd_heap_post:
  "post (dsd E shape data offsets indices transpose_a rhs_t out_t) s
     (\<lambda>r s'. new_events s s' \<noteq> [] \<longrightarrow>
        heap s' = (heap s)(shape := normalized (flag s transpose_a) (heap s shape)))"
  unfolding dsd_def Let_def
  by (intro post_rules;
      clarsimp simp: trace_simps heap_swap_shape access_metadata_eq_Inr flag_def)

lemma dds_heap_post:
  "post (dds E lhs_t shape data offsets indices transpose_b out_t) s
     (\<lambda>r s'. new_events s s' \<noteq> [] \<longrightarrow>
        heap s' = (heap s)(shape := normalized (flag s transpose_b) (heap s shape)))"
  unfolding dds_def Let_def
  by (intro post_rules;
      clarsimp simp: trace_simps heap_swap_shape access_metadata_eq_Inr flag_def)

lemma ssd_heap_post:
  "post (ssd E lhs_shape lhs_data lhs_offsets lhs_indices transpose_a rhs_t
           out_shape out_data out_offsets out_indices) s
     (\<lambda>r s'. new_events s s' \<noteq> [] \<longrightarrow>
        heap s' = (heap s)(lhs_shape := normalized (flag s transpose_a) (heap s lhs_shape)))"
  unfolding ssd_def Let_def
  by (intro post_rules;
      clarsimp simp: trace_simps heap_swap_shape access_metadata_eq_Inr flag_def)

lemma dss_heap_post:
  "post (dss E lhs_shape lhs_data lhs_offsets lhs_indices transpose_a
           rhs_shape rhs_data rhs_offsets rhs_indices transpose_b out_t) s
     (\<lambda>r s'. new_events s s' \<noteq> [] \<longrightarrow>
        heap s' =
          (let H1 = (heap s)(lhs_shape := normalized (flag s transpose_a) (heap s lhs_shape))
           in H1(rhs_shape := normalized (flag s transpose_b) (H1 rhs_shape))))"
  unfolding dss_def Let_def
  by (intro post_rules;
      clarsimp simp: trace_simps access_metadata_eq_Inr flag_def
           dest!: flag_after_writeD;
      simp add: heap_swap_shape)

subsection \<open>Runs on the reference states\<close>

lemmas op_simps = op_state_def wide_state_def alias_state_def dense_matrix_def fixture_simps check_simps
  validate_transpose_def validate_dense_def is_contiguous_def is_transposed_def
  access_metadata_def as_matrix_def as_block_matrix_def swap_shape_def normalized_def
  log_event_def new_events_def attach_def E_ref_def eval_simps stable_argsort_def

lemma size_in_bytes_values:
  "size_in_bytes 1 2 = 8" "size_in_bytes 2 1 = 16" "size_in_bytes 65 1 = 520" "size_in_bytes 2 2 = 16"
  "size_in_bytes 1 1 = 8"
  unfolding size_in_bytes_def Let_def to_int32_def by simp_all

lemma dsd_run:
  "post (dsd E_ref 0 1 2 3 4 6 7) op_state
     (\<lambda>r s'. r = Inr () \<and> new_events op_state s' \<noteq> [] \<and>
        map kind_of (new_events op_state s') =
          [KValid True, KTranspose, KExtended (3, False) (0, False)])"
  unfolding dsd_def Let_def
  by (intro post_rules; clarsimp simp: op_simps)

lemma ssd_run:
  "post (ssd E_ref 0 1 2 3 4 6 8 1 2 3) op_state
     (\<lambda>r s'. r = Inr () \<and> new_events op_state s' \<noteq> [] \<and>
        map kind_of (new_events op_state s') =
          [KValid True, KTranspose, KExtended (3, False) (0, False)])"
  unfolding ssd_def Let_def
  by (intro post_rules; clarsimp simp: op_simps)

lemma dds_run:
  "post (dds E_ref 6 0 1 2 3 5 7) op_state
     (\<lambda>r s'. r = Inr () \<and> new_events op_state s' \<noteq> [] \<and>
        map kind_of (new_events op_state s') =
          [KValid True, KTranspose, KExtended (0, False) (3, False)])"
  unfolding dds_def Let_def
  by (intro post_rules; clarsimp simp: op_simps)

lemma dss_run:
  "post (dss E_ref 0 1 2 3 4 8 1 2 3 5 7) op_state
     (\<lambda>r s'. r = Inr () \<and> new_events op_state s' \<noteq> [] \<and>
        map kind_of (new_events op_state s') =
          [KValid True, KBitmask, KBitmask, KTranspose, KTranspose,
           KExtended (3, True) (3, True)])"
  unfolding dss_def Let_def
  by (intro post_rules; clarsimp simp: op_simps size_in_bytes_values)

lemma dss_alias_run:
  "post (dss E_ref 0 1 9 10 4 0 1 2 3 4 7) alias_state
     (\<lambda>r s'. r = Inr () \<and> elems (heap s' 0) = [128, 256])"
  unfolding dss_def Let_def
  by (intro post_rules; clarsimp simp: op_simps size_in_bytes_values)

lemma dss_wide_run:
  "post (dss E_ref 0 1 2 3 4 8 1 2 3 5 7) wide_state
     (\<lambda>r s'. r = Inr () \<and> elems (heap s' 0) = [128, 8320] \<and>
               bitmask_sizes (trace s') = [520, 8])"
  unfolding dss_def Let_def
  by (intro post_rules; clarsimp simp: op_simps size_in_bytes_values)

lemma spec_bitmask_bytes_div: "spec_bitmask_bytes br bc = (bc + 63) div 64 * br * 8"
  unfolding spec_bitmask_bytes_def ceiling_div_64 ..

subsection \<open>The calls of a run that stops early\<close>

lemma dsd_kinds_partial:
  "post (dsd E shape data offsets indices transpose_a rhs_t out_t) s
     (\<lambda>r s'. stopped_within (map kind_of (new_events s s'))
        (if flag s transpose_a then [KValid True, KTranspose, KExtended (3, False) (0, False)]
         else [KValid True, KPlain (0, False) (0, False)]))"
  unfolding dsd_def Let_def
  by (intro post_rules)
     (auto simp: state_simps flag_def attach_def stopped_within_def
           dest!: access_metadata_Inr as_block_matrix_attached)

lemma ssd_kinds_partial:
  "post (ssd E lhs_shape lhs_data lhs_offsets lhs_indices transpose_a rhs_t
           out_shape out_data out_offsets out_indices) s
     (\<lambda>r s'. stopped_within (map kind_of (new_events s s'))
        (if flag s transpose_a then [KValid True, KTranspose, KExtended (3, False) (0, False)]
         else [KValid True, KPlain (0, False) (0, False)]))"
  unfolding ssd_def Let_def
  by (intro post_rules)
     (auto simp: state_simps flag_def attach_def stopped_within_def
           dest!: access_metadata_Inr as_block_matrix_attached)

lemma dds_kinds_partial:
  "post (dds E lhs_t shape data offsets indices transpose_b out_t) s
     (\<lambda>r s'. stopped_within (map kind_of (new_events s s'))
        (if \<not> flag s transpose_b then [KValid True, KTranspose, KExtended (0, False) (3, False)]
         else [KValid True, KPlain (0, False) (0, False)]))"
  unfolding dds_def Let_def
  by (intro post_rules)
     (auto simp: state_simps flag_def attach_def stopped_within_def
           dest!: access_metadata_Inr as_block_matrix_attached)

lemma dss_kinds_partial:
  "post (dss E lhs_shape lhs_data lhs_offsets lhs_indices transpose_a
           rhs_shape rhs_data rhs_offsets rhs_indices transpose_b out_t) s
     (\<lambda>r s'. stopped_within (map kind_of (new_events s s'))
       ([KValid True, KBitmask, KBitmask] @
        (if flag s transpose_a then [KTranspose] else []) @
        (if \<not> flag s transpose_b then [KTranspose] else []) @
        [KExtended (if flag s transpose_a then 3 else 0, True)
                   (if \<not> flag s transpose_b then 3 else 0, True)]))"
  unfolding dss_def Let_def
  by (intro post_rules;
      clarsimp simp: trace_simps access_metadata_eq_Inr flag_def attach_def stopped_within_def
               dest!: as_block_matrix_attached flag_after_writeD)

subsection \<open>The tensors a run leaves alone\<close>

lemma dsd_frame_post:
  "post (dsd E shape data offsets indices transpose_a rhs_t out_t) s
     (\<lambda>r s'. \<forall>h. h \<noteq> shape \<longrightarrow> heap s' h = heap s h)"
  unfolding dsd_def Let_def
  by (intro post_rules; clarsimp simp: trace_simps heap_swap_shape)

lemma dds_frame_post:
  "post (dds E lhs_t shape data offsets indices transpose_b out_t) s
     (\<lambda>r s'. \<forall>h. h \<noteq> shape \<longrightarrow> heap s' h = heap s h)"
  unfolding dds_def Let_def
  by (intro post_rules; clarsimp simp: trace_simps heap_swap_shape)

lemma ssd_frame_post:
  "post (ssd E lhs_shape lhs_data lhs_offsets lhs_indices transpose_a rhs_t
           out_shape out_data out_offsets out_indices) s
     (\<lambda>r s'. \<forall>h. h \<noteq> lhs_shape \<longrightarrow> heap s' h = heap s h)"
  unfolding ssd_def Let_def
  by (intro post_rules; clarsimp simp: trace_simps heap_swap_shape)

lemma dss_frame_post:
  "post (dss E lhs_shape lhs_data lhs_offsets lhs_indices transpose_a
           rhs_shape rhs_data rhs_offsets rhs_indices transpose_b out_t) s
     (\<lambda>r s'. \<forall>h. h \<noteq> lhs_shape \<and> h \<noteq> rhs_shape \<longrightarrow> heap s' h = heap s h)"
  unfolding dss_def Let_def
  by (intro post_rules; clarsimp simp: trace_simps heap_swap_shape)

lemma check_first_returns: "check_first (Inr ()) evs \<Longrightarrow> evs \<noteq> []"
  by (auto simp: check_first_def)

lemma check_first_rejected:
  "check_first r evs \<Longrightarrow> map kind_of evs = [KValid False] \<Longrightarrow> r = Inl CheckFailed"
  by (cases evs; cases "hd evs") (auto simp: check_first_def)

subsection \<open>More runs on the reference states\<close>

lemma flag_op_state: "flag op_state 4" "\<not> flag op_state 5"
  by (simp_all add: flag_def op_state_def vec_def)

lemma dsd_plain_run:
  "post (dsd E_ref 0 1 2 3 5 6 7) op_state (\<lambda>r s'. r = Inr ())"
  unfolding dsd_def Let_def
  by (intro post_rules; clarsimp simp: op_simps)

lemma dds_plain_run:
  "post (dds E_ref 6 0 1 2 3 4 7) op_state (\<lambda>r s'. r = Inr ())"
  unfolding dds_def Let_def
  by (intro post_rules; clarsimp simp: op_simps)

lemma dss_plain_run:
  "post (dss E_ref 0 1 2 3 5 8 1 2 3 4 7) op_state (\<lambda>r s'. r = Inr ())"
  unfolding dss_def Let_def
  by (intro post_rules; clarsimp simp: op_simps size_in_bytes_values)

lemma dsd_rejected_run:
  "post (dsd E_reject 0 1 2 3 4 6 7) op_state
     (\<lambda>r s'. map kind_of (new_events op_state s') = [KValid False])"
  unfolding dsd_def Let_def
  by (intro post_rules; clarsimp simp: op_simps E_reject_def)

lemma dss_rejected_run:
  "post (dss E_reject 0 1 2 3 4 8 1 2 3 5 7) op_state
     (\<lambda>r s'. map kind_of (new_events op_state s') = [KValid False])"
  unfolding dss_def Let_def
  by (intro post_rules; clarsimp simp: op_simps E_reject_def)

lemma dsd_strided_run:
  "post (dsd E_ref 0 1 9 10 4 6 7) strided_state
     (\<lambda>r s'. r = Inr () \<and> elems (heap s' 0) = [256, 128, 256])"
  unfolding dsd_def Let_def
  by (intro post_rules; clarsimp simp: op_simps strided_state_def strided_shape_def)

subsection \<open>The calls of a run that returns, with their arguments\<close>

lemma as_block_matrix_block_size:
  "as_block_matrix H shape data offsets indices = Inr m \<Longrightarrow> block_size m = 128"
  by (auto simp: as_block_matrix_def bind_eq_Inr dest!: validate_sparse_Inr)

lemma dsd_events_post:
  "post (dsd E shape data offsets indices transpose_a rhs_t out_t) s
     (\<lambda>r s'. r = Inr () \<longrightarrow>
        (\<exists>lhs rhs out.
           as_block_matrix (heap s') shape data offsets indices = Inr lhs \<and>
           as_matrix (heap s') rhs_t = Inr rhs \<and> as_matrix (heap s') out_t = Inr out \<and>
           (if flag s transpose_a
            then \<exists>it ot bo.
                   transpose_helper E (heap s') shape data offsets indices = Inr (it, ot, bo) \<and>
                   new_events s s' =
                     [EvValidMatmul True, EvTranspose it ot bo,
                      EvMatmulEx (Sparse (lhs\<lparr>indices_t := Some it, offsets_t := Some ot,
                                               block_offsets := Some bo\<rparr>)) True
                        (Dense rhs) (is_transposed (heap s' rhs_t)) (Dense out)]
            else new_events s s' =
                     [EvValidMatmul True,
                      EvMatmul (Sparse lhs) False (Dense rhs) (is_transposed (heap s' rhs_t))
                        (Dense out)])))"
  unfolding dsd_def Let_def
  by (intro post_rules;
      clarsimp simp: trace_simps heap_swap_shape access_metadata_eq_Inr flag_def attach_def)

lemma dss_events_post:
  "post (dss E lhs_shape lhs_data lhs_offsets lhs_indices transpose_a
           rhs_shape rhs_data rhs_offsets rhs_indices transpose_b out_t) s
     (\<lambda>r s'. r = Inr () \<longrightarrow>
        (\<exists>lhs rhs out va vb.
           as_block_matrix ((heap s)(lhs_shape := normalized (flag s transpose_a) (heap s lhs_shape)))
             lhs_shape lhs_data lhs_offsets lhs_indices = Inr lhs \<and>
           as_block_matrix (heap s') rhs_shape rhs_data rhs_offsets rhs_indices = Inr rhs \<and>
           as_matrix (heap s') out_t = Inr out \<and>
           (flag s transpose_a \<longrightarrow>
              transpose_helper E (heap s') lhs_shape lhs_data lhs_offsets lhs_indices = Inr va) \<and>
           (\<not> flag s transpose_b \<longrightarrow>
              transpose_helper E (heap s') rhs_shape rhs_data rhs_offsets rhs_indices = Inr vb) \<and>
           new_events s s' =
             [EvValidMatmul True,
              EvAllocBitmask (size_in_bytes
                 ((if flag s transpose_a then cols lhs else rows lhs) sdiv 128)
                 ((if flag s transpose_a then rows lhs else cols lhs) sdiv 128)),
              EvAllocBitmask (size_in_bytes
                 ((if flag s transpose_b then cols rhs else rows rhs) sdiv 128)
                 ((if flag s transpose_b then rows rhs else cols rhs) sdiv 128))] @
             (if flag s transpose_a then [EvTranspose (fst va) (fst (snd va)) (snd (snd va))] else []) @
             (if \<not> flag s transpose_b then [EvTranspose (fst vb) (fst (snd vb)) (snd (snd vb))] else []) @
             [EvMatmulEx
                (Sparse (if flag s transpose_a
                   then lhs\<lparr>bitmask := Some (size_in_bytes (cols lhs sdiv 128) (rows lhs sdiv 128)),
                            indices_t := Some (fst va), offsets_t := Some (fst (snd va)),
                            block_offsets := Some (snd (snd va))\<rparr>
                   else lhs\<lparr>bitmask := Some (size_in_bytes (rows lhs sdiv 128) (cols lhs sdiv 128))\<rparr>))
                (flag s transpose_a)
                (Sparse (if \<not> flag s transpose_b
                   then rhs\<lparr>bitmask := Some (size_in_bytes (rows rhs sdiv 128) (cols rhs sdiv 128)),
                            indices_t := Some (fst vb), offsets_t := Some (fst (snd vb)),
                            block_offsets := Some (snd (snd vb))\<rparr>
                   else rhs\<lparr>bitmask := Some (size_in_bytes (cols rhs sdiv 128) (rows rhs sdiv 128))\<rparr>))
                (flag s transpose_b) (Dense out)]))"
  unfolding dss_def Let_def
  by (intro post_rules;
      clarsimp simp: trace_simps access_metadata_eq_Inr flag_def attach_def
               dest!: flag_after_writeD;
      frule as_block_matrix_block_size;
      clarsimp simp: heap_swap_shape dest!: as_block_matrix_block_size)

lemma ssd_events_post:
  "post (ssd E lhs_shape lhs_data lhs_offsets lhs_indices transpose_a rhs_t
           out_shape out_data out_offsets out_indices) s
     (\<lambda>r s'. r = Inr () \<longrightarrow>
        (\<exists>lhs rhs out.
           as_block_matrix (heap s') lhs_shape lhs_data lhs_offsets lhs_indices = Inr lhs \<and>
           as_matrix (heap s') rhs_t = Inr rhs \<and>
           as_block_matrix (heap s') out_shape out_data out_offsets out_indices = Inr out \<and>
           (if flag s transpose_a
            then \<exists>it ot bo.
                   transpose_helper E (heap s') lhs_shape lhs_data lhs_offsets lhs_indices
                     = Inr (it, ot, bo) \<and>
                   new_events s s' =
                     [EvValidMatmul True, EvTranspose it ot bo,
                      EvMatmulEx (Sparse (lhs\<lparr>indices_t := Some it, offsets_t := Some ot,
                                               block_offsets := Some bo\<rparr>)) True
                        (Dense rhs) (is_transposed (heap s' rhs_t)) (Sparse out)]
            else new_events s s' =
                     [EvValidMatmul True,
                      EvMatmul (Sparse lhs) False (Dense rhs) (is_transposed (heap s' rhs_t))
                        (Sparse out)])))"
  unfolding ssd_def Let_def
  by (intro post_rules;
      clarsimp simp: trace_simps heap_swap_shape access_metadata_eq_Inr flag_def attach_def)

lemma dds_events_post:
  "post (dds E lhs_t shape data offsets indices transpose_b out_t) s
     (\<lambda>r s'. r = Inr () \<longrightarrow>
        (\<exists>lhs rhs out.
           as_matrix (heap s) lhs_t = Inr lhs \<and>
           as_block_matrix (heap s') shape data offsets indices = Inr rhs \<and>
           as_matrix (heap s') out_t = Inr out \<and>
           (if \<not> flag s transpose_b
            then \<exists>it ot bo.
                   transpose_helper E (heap s') shape data offsets indices = Inr (it, ot, bo) \<and>
                   new_events s s' =
                     [EvValidMatmul True, EvTranspose it ot bo,
                      EvMatmulEx (Dense lhs) (is_transposed (heap s lhs_t))
                        (Sparse (rhs\<lparr>indices_t := Some it, offsets_t := Some ot,
                                       block_offsets := Some bo\<rparr>)) False (Dense out)]
            else new_events s s' =
                     [EvValidMatmul True,
                      EvMatmul (Dense lhs) (is_transposed (heap s lhs_t)) (Sparse rhs) True
                        (Dense out)])))"
  unfolding dds_def Let_def
  by (intro post_rules;
      clarsimp simp: trace_simps heap_swap_shape access_metadata_eq_Inr flag_def attach_def)

lemma as_block_matrix_dims:
  "as_block_matrix H shape data offsets indices = Inr m \<Longrightarrow>
     rows m = elems (H shape) ! 0 \<and> cols m = elems (H shape) ! (strides (H shape) ! 0)"
  by (auto simp: as_block_matrix_def bind_eq_Inr dest!: access_metadata_Inr)

lemma size_in_bytes_spec:
  assumes "0 \<le> r" "0 \<le> c" "c < 2147483648"
    and "spec_bitmask_bytes (r div 128) (c div 128) < 17179869184"
  shows "size_in_bytes (r sdiv 128) (c sdiv 128) = nat (spec_bitmask_bytes (r div 128) (c div 128))"
proof -
  have b: "0 \<le> r div 128" "0 \<le> c div 128" "c div 128 < 2147483648 - 63"
    using assms(1-3) by (auto simp: pos_imp_zdiv_nonneg_iff)
  have sd: "r sdiv 128 = r div 128" "c sdiv 128 = c div 128"
    using assms(1,2) by (auto simp: sdiv_nonneg)
  have "(c div 128 + 63) div 64 * (r div 128) * 8 < 17179869184"
    using assms(4) by (simp add: spec_bitmask_bytes_def ceiling_div_64)
  then have fit: "(c div 128 + 63) div 64 * (r div 128) < 2147483648" by linarith
  show ?thesis unfolding sd using size_in_bytes_exact[OF b fit] .
qed

lemma bitmask_sizes_events:
  "bitmask_sizes ([EvValidMatmul ok, EvAllocBitmask n1, EvAllocBitmask n2] @
      (if a then [EvTranspose x1 x2 x3] else []) @ (if b then [EvTranspose y1 y2 y3] else []) @
      [EvMatmulEx x fx y fy z]) = [n1, n2]"
  by simp

lemma flag_wide_state: "flag wide_state 4" "\<not> flag wide_state 5"
  by (simp_all add: flag_def wide_state_def vec_def)

lemma dsd_view_run:
  "post (dsd E_ref 0 1 9 10 4 6 7) op_state
     (\<lambda>r s'. r = Inr () \<and>
        new_events op_state s' =
          [EvValidMatmul True, EvTranspose [0, 1] [0, 32768] [0, 32768],
           EvMatmulEx
             (Sparse \<lparr>rows = 256, cols = 128, data_ptr = 1, block_size = 128, nonzeros = 2,
                offsets_ptr = 9, indices_ptr = 10, offsets_t = Some [0, 32768],
                indices_t = Some [0, 1], block_offsets = Some [0, 32768], bitmask = None\<rparr>)
             True (Dense \<lparr>rows = 256, cols = 64, data_ptr = 6\<rparr>) False
             (Dense \<lparr>rows = 128, cols = 64, data_ptr = 7\<rparr>)])"
  unfolding dsd_def Let_def
  by (intro post_rules; clarsimp simp: op_simps)

section \<open>The transpose helper on the two-block matrix\<close>

text \<open>
  C1, as stated: for rows = cols = 256, block size 128, offsets \<open>[0, 1, 2]\<close> and indices
  \<open>[1, 0]\<close> the helper would return \<open>indices_t = [1, 0]\<close> and
  \<open>offsets_t = [0, 16384, 32768]\<close>. It does not: the histogram has \<open>kBlockCols = 2\<close>
  bins over the range from 0 to \<open>kCols = 256\<close>, so each bin is 128 wide and both
  indices, 0 and 1, fall into the first. The helper returns
  \<open>offsets_t = [0, 32768, 32768]\<close>.
\<close>

theorem transpose_scenario_counterexample:
  "transpose_helper E_ref scenario_heap 0 1 2 3 = Inr ([1, 0], [0, 32768, 32768], [32768, 0]) \<and>
   offsets_t_of (transpose_helper E_ref scenario_heap 0 1 2 3) \<noteq> [0, 16384, 32768]"
proof -
  have "transpose_helper E_ref scenario_heap 0 1 2 3 = Inr ([1, 0], [0, 32768, 32768], [32768, 0])"
    by (simp add: eval_simps scenario_heap_def fixture_simps E_ref_def stable_argsort_def)
  then show ?thesis by (simp add: offsets_t_of_def)
qed

text \<open>
  C1, amended: with the same matrix and \<open>indices = [128, 0]\<close>, the first element column
  of each block (128 times its block-column), the helper returns \<open>indices_t = [1, 0]\<close>
  and \<open>offsets_t = [0, 16384, 32768]\<close>, whatever order \<^verbatim>\<open>argsort\<close> gives to equal
  keys, provided the row-index kernel reports success. The third buffer holds the byte
  offsets of the two tiles in the same order.
\<close>

theorem transpose_scenario_scaled:
  assumes "RowIndices_ok E" and "argsort_sorts E"
  shows "transpose_helper E scenario_heap_scaled 0 1 2 3
           = Inr ([1, 0], [0, 16384, 32768], [32768, 0])"
proof -
  let ?ks = "[128, 1 / 128] :: rat list"
  have ok: "argsort_ok ?ks (argsort E ?ks)" using assms(2) by (simp add: argsort_sorts_def)
  then have "mset (argsort E ?ks) = mset [0, Suc 0]"
    by (simp add: argsort_ok_def upt_conv_Cons)
  then have "argsort E ?ks = [0, Suc 0] \<or> argsort E ?ks = [Suc 0, 0]" by (rule perm2)
  moreover have "argsort E ?ks \<noteq> [0, Suc 0]"
  proof
    assume eq: "argsort E ?ks = [0, Suc 0]"
    from ok have "sorted (map (\<lambda>i. ?ks ! i) (argsort E ?ks))"
      unfolding argsort_ok_def by (rule conjunct2)
    then have "sorted (map (\<lambda>i. ?ks ! i) [0, Suc 0])" by (simp only: eq)
    then have "(128::rat) \<le> 1 / 128"
      by (simp only: list.map nth_Cons_0 nth_Cons_Suc sorted2 sorted1)
    then show False by simp
  qed
  ultimately have "argsort E ?ks = [1, 0]" by simp
  then show ?thesis using assms(1)
    by (simp add: eval_simps scenario_heap_scaled_def fixture_simps)
qed

theorem transpose_scenario_scaled_witness:
  "RowIndices_ok E_ref \<and> argsort_sorts E_ref \<and>
   transpose_helper E_ref scenario_heap_scaled 0 1 2 3 = Inr ([1, 0], [0, 16384, 32768], [32768, 0])"
  using transpose_scenario_scaled [OF RowIndices_ok_E_ref argsort_sorts_E_ref]
  by (simp add: RowIndices_ok_E_ref argsort_sorts_E_ref)

section \<open>The order of the transpose view\<close>

text \<open>
  C2: for a descriptor that satisfies the invariants and passes the helper's checks
  (block size 128, at most \<open>128 * 128\<close> rows), the permutation \<open>g\<close> that the helper
  computes is a permutation of the block positions that lists the blocks by ascending
  column index and, among blocks of one column, by ascending block-row; \<open>indices_t\<close> is
  the block-rows in that order. The column indices are the entries of \<^verbatim>\<open>indices\<close>.
  The key is \<open>column + row / 128\<close>, which orders as \<open>column * 128 + row\<close> does because
  a row index stays below 128. No range of the column indices is needed.
\<close>

theorem transpose_sorts_by_column_then_row:
  assumes ok: "csr_ok H shape data offsets indices"
    and srt: "argsort_sorts E"
    and ret: "transpose_helper E H shape data offsets indices = Inr (it, ot, bo)"
  shows "let idx = entries (H indices); offs = elems (H offsets);
             g = argsort E (map2 (\<lambda>c r. of_int c + of_int r / 128) idx (RowIndices offs (length idx)))
         in mset g = mset [0..<length idx] \<and>
            it = map (row_of offs) g \<and>
            (\<forall>a b. a < b \<and> b < length g \<longrightarrow>
               idx ! (g ! a) < idx ! (g ! b) \<or>
               (idx ! (g ! a) = idx ! (g ! b) \<and> row_of offs (g ! a) \<le> row_of offs (g ! b)))"
  using ok srt ret by (rule transpose_gather_order)

theorem transpose_sorts_by_column_then_row_witness:
  "csr_ok scenario_heap 0 1 2 3 \<and> argsort_sorts E_ref \<and>
   transpose_helper E_ref scenario_heap 0 1 2 3 = Inr ([1, 0], [0, 32768, 32768], [32768, 0]) \<and>
   (let idx = entries (scenario_heap 3); offs = elems (scenario_heap 2);
        g = argsort E_ref (map2 (\<lambda>c r. of_int c + of_int r / 128) idx (RowIndices offs (length idx)))
    in mset g = mset [0..<length idx] \<and>
       [1, 0] = map (row_of offs) g \<and>
       (\<forall>a b. a < b \<and> b < length g \<longrightarrow>
          idx ! (g ! a) < idx ! (g ! b) \<or>
          (idx ! (g ! a) = idx ! (g ! b) \<and> row_of offs (g ! a) \<le> row_of offs (g ! b))))"
proof -
  have h1: "csr_ok scenario_heap 0 1 2 3"
    by (simp add: csr_ok_def scenario_heap_def fixture_simps check_simps)
  have h3: "transpose_helper E_ref scenario_heap 0 1 2 3 = Inr ([1, 0], [0, 32768, 32768], [32768, 0])"
    by (simp add: eval_simps scenario_heap_def fixture_simps E_ref_def stable_argsort_def)
  show ?thesis
    using transpose_sorts_by_column_then_row [OF h1 argsort_sorts_E_ref h3] h1 h3 argsort_sorts_E_ref
    by simp
qed

section \<open>The size of the bitmask workspace\<close>

text \<open>
  C3, as stated: for an operand of the sparse-sparse operation whose dimensions after
  normalization are rows by cols, the workspace would have
  \<open>ceil((cols / 128) / 64) * (rows / 128) * 8\<close> bytes. The allocator exchanges the two
  dimensions of the descriptor when the operand's flag is set, so it counts the
  block-rows and block-columns of the shape the caller gave, not of the normalized one.
  With a caller's shape \<open>[8320, 128]\<close> and the flag set, the normalized shape is 128 by
  8320, for which the formula gives 16 bytes; the allocator takes 65 block-rows and one
  block-column and allocates 520 bytes. (The second workspace, 8 bytes, is that of the
  right operand.)
\<close>

theorem bitmask_size_counterexample:
  "fst (dss E_ref 0 1 2 3 4 8 1 2 3 5 7 wide_state) = Inr () \<and>
   elems (heap (snd (dss E_ref 0 1 2 3 4 8 1 2 3 5 7 wide_state)) 0) = [128, 8320] \<and>
   bitmask_sizes (trace (snd (dss E_ref 0 1 2 3 4 8 1 2 3 5 7 wide_state))) = [520, 8] \<and>
   spec_bitmask_bytes (128 div 128) (8320 div 128) = 16"
proof -
  have "spec_bitmask_bytes (128 div 128) (8320 div 128) = 16"
    by (simp add: spec_bitmask_bytes_div)
  then show ?thesis using dss_wide_run by (simp add: post_def)
qed

text \<open>
  C3, amended: let the two operands of a run of dss that returns have distinct shape
  tensors, contiguous vectors with non-negative entries. The workspace of an operand is
  sized from the shape as the caller gave it: with that shape \<open>r\<close> by \<open>c\<close>, which is the
  shape after normalization when the flag is not set and the exchanged one when it is
  set, it has exactly \<open>ceil((c / 128) / 64) * (r / 128) * 8\<close> bytes, provided this is
  below \<open>2 ^ 34\<close> (the bytes are eight times a product taken in 32-bit integers). The
  left workspace is allocated first. The size does not decrease when the number of
  block-rows or of block-columns grows.
\<close>

theorem bitmask_workspace_size:
  assumes ret: "returns (dss E shape data offsets indices ta rshape rdata roffsets rindices tb out) s"
    and sep: "shape \<noteq> rshape"
    and l: "strides (heap s shape) = [1]" "elems (heap s shape) = ra # ca # resta"
    and r: "strides (heap s rshape) = [1]" "elems (heap s rshape) = rb # cb # restb"
    and nonneg: "0 \<le> ra" "0 \<le> ca" "0 \<le> rb" "0 \<le> cb"
    and int32: "ca < 2147483648" "cb < 2147483648"
    and fit: "spec_bitmask_bytes (ra div 128) (ca div 128) < 17179869184"
             "spec_bitmask_bytes (rb div 128) (cb div 128) < 17179869184"
  shows "bitmask_sizes (new_events s
           (snd (dss E shape data offsets indices ta rshape rdata roffsets rindices tb out s))) =
           [nat (spec_bitmask_bytes (ra div 128) (ca div 128)),
            nat (spec_bitmask_bytes (rb div 128) (cb div 128))] \<and>
         elems (heap (snd (dss E shape data offsets indices ta rshape rdata roffsets rindices tb out s))
                  shape) = (if flag s ta then ca # ra # resta else ra # ca # resta) \<and>
         elems (heap (snd (dss E shape data offsets indices ta rshape rdata roffsets rindices tb out s))
                  rshape) = (if flag s tb then cb # rb # restb else rb # cb # restb) \<and>
         (\<forall>br bc. ra div 128 \<le> br \<and> ca div 128 \<le> bc \<longrightarrow>
            spec_bitmask_bytes (ra div 128) (ca div 128) \<le> spec_bitmask_bytes br bc) \<and>
         (\<forall>br bc. rb div 128 \<le> br \<and> cb div 128 \<le> bc \<longrightarrow>
            spec_bitmask_bytes (rb div 128) (cb div 128) \<le> spec_bitmask_bytes br bc)"
proof -
  define s' where "s' = snd (dss E shape data offsets indices ta rshape rdata roffsets rindices tb out s)"
  define H1 where "H1 = (heap s)(shape := normalized (flag s ta) (heap s shape))"
  have r0: "fst (dss E shape data offsets indices ta rshape rdata roffsets rindices tb out s) = Inr ()"
    using ret by (simp add: returns_def)
  have "new_events s s' \<noteq> []"
    using dss_check_first[of E shape data offsets indices ta rshape rdata roffsets rindices tb out s]
      r0 check_first_returns by (auto simp: post_def s'_def)
  then have hp: "heap s' = H1(rshape := normalized (flag s tb) (H1 rshape))"
    using dss_heap_post[of E shape data offsets indices ta rshape rdata roffsets rindices tb out s]
    by (simp add: post_def s'_def H1_def Let_def)
  have e1: "elems (H1 shape) = (if flag s ta then ca # ra # resta else ra # ca # resta)"
    "strides (H1 shape) = [1]"
    using l by (simp_all add: H1_def normalized_def)
  have e2: "elems (heap s' rshape) = (if flag s tb then cb # rb # restb else rb # cb # restb)"
    "strides (heap s' rshape) = [1]"
    using r sep by (simp_all add: hp H1_def normalized_def)
  have e3: "heap s' shape = H1 shape" using sep by (simp add: hp)
  from dss_events_post[of E shape data offsets indices ta rshape rdata roffsets rindices tb out s] r0
  obtain lhs rhs outm va vb where
    L: "as_block_matrix H1 shape data offsets indices = Inr lhs"
    and R: "as_block_matrix (heap s') rshape rdata roffsets rindices = Inr rhs"
    and ev: "new_events s s' =
             [EvValidMatmul True,
              EvAllocBitmask (size_in_bytes
                 ((if flag s ta then cols lhs else rows lhs) sdiv 128)
                 ((if flag s ta then rows lhs else cols lhs) sdiv 128)),
              EvAllocBitmask (size_in_bytes
                 ((if flag s tb then cols rhs else rows rhs) sdiv 128)
                 ((if flag s tb then rows rhs else cols rhs) sdiv 128))] @
             (if flag s ta then [EvTranspose (fst va) (fst (snd va)) (snd (snd va))] else []) @
             (if \<not> flag s tb then [EvTranspose (fst vb) (fst (snd vb)) (snd (snd vb))] else []) @
             [EvMatmulEx
                (Sparse (if flag s ta
                   then lhs\<lparr>bitmask := Some (size_in_bytes (cols lhs sdiv 128) (rows lhs sdiv 128)),
                            indices_t := Some (fst va), offsets_t := Some (fst (snd va)),
                            block_offsets := Some (snd (snd va))\<rparr>
                   else lhs\<lparr>bitmask := Some (size_in_bytes (rows lhs sdiv 128) (cols lhs sdiv 128))\<rparr>))
                (flag s ta)
                (Sparse (if \<not> flag s tb
                   then rhs\<lparr>bitmask := Some (size_in_bytes (rows rhs sdiv 128) (cols rhs sdiv 128)),
                            indices_t := Some (fst vb), offsets_t := Some (fst (snd vb)),
                            block_offsets := Some (snd (snd vb))\<rparr>
                   else rhs\<lparr>bitmask := Some (size_in_bytes (cols rhs sdiv 128) (rows rhs sdiv 128))\<rparr>))
                (flag s tb) (Dense outm)]"
    unfolding post_def s'_def[symmetric] H1_def[symmetric] by blast
  have dl: "(if flag s ta then cols lhs else rows lhs) = ra"
           "(if flag s ta then rows lhs else cols lhs) = ca"
    using as_block_matrix_dims[OF L] e1 by auto
  have dr: "(if flag s tb then cols rhs else rows rhs) = rb"
           "(if flag s tb then rows rhs else cols rhs) = cb"
    using as_block_matrix_dims[OF R] e2 by auto
  have n1: "size_in_bytes (ra sdiv 128) (ca sdiv 128) = nat (spec_bitmask_bytes (ra div 128) (ca div 128))"
    using size_in_bytes_spec[OF nonneg(1,2) int32(1) fit(1)] .
  have n2: "size_in_bytes (rb sdiv 128) (cb sdiv 128) = nat (spec_bitmask_bytes (rb div 128) (cb div 128))"
    using size_in_bytes_spec[OF nonneg(3,4) int32(2) fit(2)] .
  have 1: "bitmask_sizes (new_events s s') =
           [nat (spec_bitmask_bytes (ra div 128) (ca div 128)),
            nat (spec_bitmask_bytes (rb div 128) (cb div 128))]"
    unfolding ev dl dr n1 n2 by (rule bitmask_sizes_events)
  have m1: "spec_bitmask_bytes (ra div 128) (ca div 128) \<le> spec_bitmask_bytes br bc"
    if "ra div 128 \<le> br \<and> ca div 128 \<le> bc" for br bc
    using that nonneg by (intro spec_bitmask_bytes_mono) (auto simp: pos_imp_zdiv_nonneg_iff)
  have m2: "spec_bitmask_bytes (rb div 128) (cb div 128) \<le> spec_bitmask_bytes br bc"
    if "rb div 128 \<le> br \<and> cb div 128 \<le> bc" for br bc
    using that nonneg by (intro spec_bitmask_bytes_mono) (auto simp: pos_imp_zdiv_nonneg_iff)
  show ?thesis
    unfolding s'_def[symmetric] using 1 e1(1) e2(1) e3 m1 m2 by simp
qed

text \<open>
  The run with the caller's shape \<open>[8320, 128]\<close> and the flag set for the left operand,
  and \<open>[128, 128]\<close> with the flag not set for the right one.
\<close>

theorem bitmask_workspace_size_witness:
  "returns (dss E_ref 0 1 2 3 4 8 1 2 3 5 7) wide_state \<and>
   elems (heap wide_state 0) = [8320, 128] \<and> elems (heap wide_state 8) = [128, 128] \<and>
   strides (heap wide_state 0) = [1] \<and> strides (heap wide_state 8) = [1] \<and>
   flag wide_state 4 \<and>
   bitmask_sizes (new_events wide_state (snd (dss E_ref 0 1 2 3 4 8 1 2 3 5 7 wide_state))) =
     [520, 8] \<and>
   elems (heap (snd (dss E_ref 0 1 2 3 4 8 1 2 3 5 7 wide_state)) 0) = [128, 8320] \<and>
   elems (heap (snd (dss E_ref 0 1 2 3 4 8 1 2 3 5 7 wide_state)) 8) = [128, 128] \<and>
   spec_bitmask_bytes (8320 div 128) (128 div 128) = 520 \<and>
   spec_bitmask_bytes (128 div 128) (128 div 128) = 8"
proof -
  have r: "returns (dss E_ref 0 1 2 3 4 8 1 2 3 5 7) wide_state"
    using dss_wide_run by (simp add: post_def returns_def)
  have e: "strides (heap wide_state 0) = [1]" "elems (heap wide_state 0) = [8320, 128]"
    "strides (heap wide_state 8) = [1]" "elems (heap wide_state 8) = [128, 128]"
    by (simp_all add: wide_state_def sparse_heap_def vec_def)
  have v: "spec_bitmask_bytes (8320 div 128) (128 div 128) = 520"
    "spec_bitmask_bytes (128 div 128) (128 div 128) = 8"
    by (simp_all add: spec_bitmask_bytes_div)
  have d: "(0::nat) \<noteq> 8" by simp
  note a = bitmask_workspace_size [OF r d e]
  show ?thesis
    using a r e v flag_wide_state by simp
qed

section \<open>Which kernel entry point an operation calls\<close>

text \<open>
  C4: the calls an operation makes, in their order, with the descriptors the kernel is
  given. A run of dsd or of ssd that returns has checked validity and then, when the
  flag of the sparse left operand is set, has computed one transpose view and called the
  extended entry point with the left descriptor carrying exactly the three buffers of
  that view, the ones the transpose helper returns on the normalized shape; when the
  flag is not set it has called the plain entry point with the descriptor as the
  conversion made it, nothing attached. A run of dds that returns has done the same for
  the sparse right operand, with the transpose view computed when the flag is not set. A
  run of dss that returns has allocated the two bitmask workspaces right after the
  validity check and before any transpose view, has attached each to its descriptor
  together with the view of the operand that needs one, and has called the extended
  entry point whatever the flags are. A run that does not return has made the first
  ones of these calls, or only the validity check, which was rejected.
\<close>

theorem dispatch_by_transpose_flag:
  "(returns (dsd E shape data offsets indices ta dense out) s \<longrightarrow>
      kinds (dsd E shape data offsets indices ta dense out) s =
        (if flag s ta then [KValid True, KTranspose, KExtended (3, False) (0, False)]
         else [KValid True, KPlain (0, False) (0, False)])) \<and>
   stopped_within (kinds (dsd E shape data offsets indices ta dense out) s)
     (if flag s ta then [KValid True, KTranspose, KExtended (3, False) (0, False)]
         else [KValid True, KPlain (0, False) (0, False)]) \<and>
   (returns (dsd E shape data offsets indices ta dense out) s \<longrightarrow>
      (\<exists>lhs rhs outm.
         as_block_matrix (heap (snd (dsd E shape data offsets indices ta dense out s))) shape data offsets indices = Inr lhs \<and>
         as_matrix (heap (snd (dsd E shape data offsets indices ta dense out s))) dense = Inr rhs \<and> as_matrix (heap (snd (dsd E shape data offsets indices ta dense out s))) out = Inr outm \<and>
         (if flag s ta
          then \<exists>it ot bo.
                 transpose_helper E (heap (snd (dsd E shape data offsets indices ta dense out s))) shape data offsets indices = Inr (it, ot, bo) \<and>
                 new_events s (snd (dsd E shape data offsets indices ta dense out s)) =
                   [EvValidMatmul True, EvTranspose it ot bo,
                    EvMatmulEx (Sparse (lhs\<lparr>indices_t := Some it, offsets_t := Some ot,
                                             block_offsets := Some bo\<rparr>)) True
                      (Dense rhs) (is_transposed ((heap (snd (dsd E shape data offsets indices ta dense out s))) dense)) (Dense outm)]
          else new_events s (snd (dsd E shape data offsets indices ta dense out s)) =
                   [EvValidMatmul True,
                    EvMatmul (Sparse lhs) False (Dense rhs) (is_transposed ((heap (snd (dsd E shape data offsets indices ta dense out s))) dense))
                      (Dense outm)]))) \<and>
   (returns (ssd E shape data offsets indices ta dense oshape odata ooffsets oindices) s \<longrightarrow>
      kinds (ssd E shape data offsets indices ta dense oshape odata ooffsets oindices) s =
        (if flag s ta then [KValid True, KTranspose, KExtended (3, False) (0, False)]
         else [KValid True, KPlain (0, False) (0, False)])) \<and>
   stopped_within (kinds (ssd E shape data offsets indices ta dense oshape odata ooffsets oindices) s)
     (if flag s ta then [KValid True, KTranspose, KExtended (3, False) (0, False)]
         else [KValid True, KPlain (0, False) (0, False)]) \<and>
   (returns (ssd E shape data offsets indices ta dense oshape odata ooffsets oindices) s \<longrightarrow>
      (\<exists>lhs rhs outm.
         as_block_matrix (heap (snd (ssd E shape data offsets indices ta dense oshape odata ooffsets oindices s))) shape data offsets indices = Inr lhs \<and>
         as_matrix (heap (snd (ssd E shape data offsets indices ta dense oshape odata ooffsets oindices s))) dense = Inr rhs \<and>
         as_block_matrix (heap (snd (ssd E shape data offsets indices ta dense oshape odata ooffsets oindices s))) oshape odata ooffsets oindices = Inr outm \<and>
         (if flag s ta
          then \<exists>it ot bo.
                 transpose_helper E (heap (snd (ssd E shape data offsets indices ta dense oshape odata ooffsets oindices s))) shape data offsets indices = Inr (it, ot, bo) \<and>
                 new_events s (snd (ssd E shape data offsets indices ta dense oshape odata ooffsets oindices s)) =
                   [EvValidMatmul True, EvTranspose it ot bo,
                    EvMatmulEx (Sparse (lhs\<lparr>indices_t := Some it, offsets_t := Some ot,
                                             block_offsets := Some bo\<rparr>)) True
                      (Dense rhs) (is_transposed ((heap (snd (ssd E shape data offsets indices ta dense oshape odata ooffsets oindices s))) dense)) (Sparse outm)]
          else new_events s (snd (ssd E shape data offsets indices ta dense oshape odata ooffsets oindices s)) =
                   [EvValidMatmul True,
                    EvMatmul (Sparse lhs) False (Dense rhs) (is_transposed ((heap (snd (ssd E shape data offsets indices ta dense oshape odata ooffsets oindices s))) dense))
                      (Sparse outm)]))) \<and>
   (returns (dds E dense shape data offsets indices tb out) s \<longrightarrow>
      kinds (dds E dense shape data offsets indices tb out) s =
        (if \<not> flag s tb then [KValid True, KTranspose, KExtended (0, False) (3, False)]
         else [KValid True, KPlain (0, False) (0, False)])) \<and>
   stopped_within (kinds (dds E dense shape data offsets indices tb out) s)
     (if \<not> flag s tb then [KValid True, KTranspose, KExtended (0, False) (3, False)]
         else [KValid True, KPlain (0, False) (0, False)]) \<and>
   (returns (dds E dense shape data offsets indices tb out) s \<longrightarrow>
      (\<exists>lhs rhs outm.
         as_matrix (heap s) dense = Inr lhs \<and>
         as_block_matrix (heap (snd (dds E dense shape data offsets indices tb out s))) shape data offsets indices = Inr rhs \<and>
         as_matrix (heap (snd (dds E dense shape data offsets indices tb out s))) out = Inr outm \<and>
         (if \<not> flag s tb
          then \<exists>it ot bo.
                 transpose_helper E (heap (snd (dds E dense shape data offsets indices tb out s))) shape data offsets indices = Inr (it, ot, bo) \<and>
                 new_events s (snd (dds E dense shape data offsets indices tb out s)) =
                   [EvValidMatmul True, EvTranspose it ot bo,
                    EvMatmulEx (Dense lhs) (is_transposed (heap s dense))
                      (Sparse (rhs\<lparr>indices_t := Some it, offsets_t := Some ot,
                                     block_offsets := Some bo\<rparr>)) False (Dense outm)]
          else new_events s (snd (dds E dense shape data offsets indices tb out s)) =
                   [EvValidMatmul True,
                    EvMatmul (Dense lhs) (is_transposed (heap s dense)) (Sparse rhs) True
                      (Dense outm)]))) \<and>
   (returns (dss E shape data offsets indices ta rshape rdata roffsets rindices tb out) s \<longrightarrow>
      kinds (dss E shape data offsets indices ta rshape rdata roffsets rindices tb out) s =
        ([KValid True, KBitmask, KBitmask] @
        (if flag s ta then [KTranspose] else []) @
        (if \<not> flag s tb then [KTranspose] else []) @
        [KExtended (if flag s ta then 3 else 0, True) (if \<not> flag s tb then 3 else 0, True)])) \<and>
   stopped_within (kinds (dss E shape data offsets indices ta rshape rdata roffsets rindices tb out) s)
     ([KValid True, KBitmask, KBitmask] @
        (if flag s ta then [KTranspose] else []) @
        (if \<not> flag s tb then [KTranspose] else []) @
        [KExtended (if flag s ta then 3 else 0, True) (if \<not> flag s tb then 3 else 0, True)]) \<and>
   (returns (dss E shape data offsets indices ta rshape rdata roffsets rindices tb out) s \<longrightarrow>
      (\<exists>lhs rhs outm va vb.
         as_block_matrix ((heap s)(shape := normalized (flag s ta) (heap s shape)))
           shape data offsets indices = Inr lhs \<and>
         as_block_matrix (heap (snd (dss E shape data offsets indices ta rshape rdata roffsets rindices tb out s))) rshape rdata roffsets rindices = Inr rhs \<and>
         as_matrix (heap (snd (dss E shape data offsets indices ta rshape rdata roffsets rindices tb out s))) out = Inr outm \<and>
         (flag s ta \<longrightarrow>
            transpose_helper E (heap (snd (dss E shape data offsets indices ta rshape rdata roffsets rindices tb out s))) shape data offsets indices = Inr va) \<and>
         (\<not> flag s tb \<longrightarrow>
            transpose_helper E (heap (snd (dss E shape data offsets indices ta rshape rdata roffsets rindices tb out s))) rshape rdata roffsets rindices = Inr vb) \<and>
         new_events s (snd (dss E shape data offsets indices ta rshape rdata roffsets rindices tb out s)) =
           [EvValidMatmul True,
            EvAllocBitmask (size_in_bytes
               ((if flag s ta then cols lhs else rows lhs) sdiv 128)
               ((if flag s ta then rows lhs else cols lhs) sdiv 128)),
            EvAllocBitmask (size_in_bytes
               ((if flag s tb then cols rhs else rows rhs) sdiv 128)
               ((if flag s tb then rows rhs else cols rhs) sdiv 128))] @
           (if flag s ta then [EvTranspose (fst va) (fst (snd va)) (snd (snd va))] else []) @
           (if \<not> flag s tb then [EvTranspose (fst vb) (fst (snd vb)) (snd (snd vb))] else []) @
           [EvMatmulEx
              (Sparse (if flag s ta
                 then lhs\<lparr>bitmask := Some (size_in_bytes (cols lhs sdiv 128) (rows lhs sdiv 128)),
                          indices_t := Some (fst va), offsets_t := Some (fst (snd va)),
                          block_offsets := Some (snd (snd va))\<rparr>
                 else lhs\<lparr>bitmask := Some (size_in_bytes (rows lhs sdiv 128) (cols lhs sdiv 128))\<rparr>))
              (flag s ta)
              (Sparse (if \<not> flag s tb
                 then rhs\<lparr>bitmask := Some (size_in_bytes (rows rhs sdiv 128) (cols rhs sdiv 128)),
                          indices_t := Some (fst vb), offsets_t := Some (fst (snd vb)),
                          block_offsets := Some (snd (snd vb))\<rparr>
                 else rhs\<lparr>bitmask := Some (size_in_bytes (cols rhs sdiv 128) (rows rhs sdiv 128))\<rparr>))
              (flag s tb) (Dense outm)]))"
proof (intro conjI)
  show "(returns (dsd E shape data offsets indices ta dense out) s \<longrightarrow>
      kinds (dsd E shape data offsets indices ta dense out) s =
        (if flag s ta then [KValid True, KTranspose, KExtended (3, False) (0, False)]
         else [KValid True, KPlain (0, False) (0, False)]))"
    using dsd_kinds_post[of E shape data offsets indices ta dense out s]
    unfolding post_def returns_def kinds_def by blast
  show "stopped_within (kinds (dsd E shape data offsets indices ta dense out) s)
     (if flag s ta then [KValid True, KTranspose, KExtended (3, False) (0, False)]
         else [KValid True, KPlain (0, False) (0, False)])"
    using dsd_kinds_partial[of E shape data offsets indices ta dense out s]
    unfolding post_def kinds_def .
  show "(returns (dsd E shape data offsets indices ta dense out) s \<longrightarrow>
      (\<exists>lhs rhs outm.
         as_block_matrix (heap (snd (dsd E shape data offsets indices ta dense out s))) shape data offsets indices = Inr lhs \<and>
         as_matrix (heap (snd (dsd E shape data offsets indices ta dense out s))) dense = Inr rhs \<and> as_matrix (heap (snd (dsd E shape data offsets indices ta dense out s))) out = Inr outm \<and>
         (if flag s ta
          then \<exists>it ot bo.
                 transpose_helper E (heap (snd (dsd E shape data offsets indices ta dense out s))) shape data offsets indices = Inr (it, ot, bo) \<and>
                 new_events s (snd (dsd E shape data offsets indices ta dense out s)) =
                   [EvValidMatmul True, EvTranspose it ot bo,
                    EvMatmulEx (Sparse (lhs\<lparr>indices_t := Some it, offsets_t := Some ot,
                                             block_offsets := Some bo\<rparr>)) True
                      (Dense rhs) (is_transposed ((heap (snd (dsd E shape data offsets indices ta dense out s))) dense)) (Dense outm)]
          else new_events s (snd (dsd E shape data offsets indices ta dense out s)) =
                   [EvValidMatmul True,
                    EvMatmul (Sparse lhs) False (Dense rhs) (is_transposed ((heap (snd (dsd E shape data offsets indices ta dense out s))) dense))
                      (Dense outm)])))"
    using dsd_events_post[of E shape data offsets indices ta dense out s]
    unfolding post_def returns_def .
  show "(returns (ssd E shape data offsets indices ta dense oshape odata ooffsets oindices) s \<longrightarrow>
      kinds (ssd E shape data offsets indices ta dense oshape odata ooffsets oindices) s =
        (if flag s ta then [KValid True, KTranspose, KExtended (3, False) (0, False)]
         else [KValid True, KPlain (0, False) (0, False)]))"
    using ssd_kinds_post[of E shape data offsets indices ta dense oshape odata ooffsets oindices s]
    unfolding post_def returns_def kinds_def by blast
  show "stopped_within (kinds (ssd E shape data offsets indices ta dense oshape odata ooffsets oindices) s)
     (if flag s ta then [KValid True, KTranspose, KExtended (3, False) (0, False)]
         else [KValid True, KPlain (0, False) (0, False)])"
    using ssd_kinds_partial[of E shape data offsets indices ta dense oshape odata ooffsets oindices s]
    unfolding post_def kinds_def .
  show "(returns (ssd E shape data offsets indices ta dense oshape odata ooffsets oindices) s \<longrightarrow>
      (\<exists>lhs rhs outm.
         as_block_matrix (heap (snd (ssd E shape data offsets indices ta dense oshape odata ooffsets oindices s))) shape data offsets indices = Inr lhs \<and>
         as_matrix (heap (snd (ssd E shape data offsets indices ta dense oshape odata ooffsets oindices s))) dense = Inr rhs \<and>
         as_block_matrix (heap (snd (ssd E shape data offsets indices ta dense oshape odata ooffsets oindices s))) oshape odata ooffsets oindices = Inr outm \<and>
         (if flag s ta
          then \<exists>it ot bo.
                 transpose_helper E (heap (snd (ssd E shape data offsets indices ta dense oshape odata ooffsets oindices s))) shape data offsets indices = Inr (it, ot, bo) \<and>
                 new_events s (snd (ssd E shape data offsets indices ta dense oshape odata ooffsets oindices s)) =
                   [EvValidMatmul True, EvTranspose it ot bo,
                    EvMatmulEx (Sparse (lhs\<lparr>indices_t := Some it, offsets_t := Some ot,
                                             block_offsets := Some bo\<rparr>)) True
                      (Dense rhs) (is_transposed ((heap (snd (ssd E shape data offsets indices ta dense oshape odata ooffsets oindices s))) dense)) (Sparse outm)]
          else new_events s (snd (ssd E shape data offsets indices ta dense oshape odata ooffsets oindices s)) =
                   [EvValidMatmul True,
                    EvMatmul (Sparse lhs) False (Dense rhs) (is_transposed ((heap (snd (ssd E shape data offsets indices ta dense oshape odata ooffsets oindices s))) dense))
                      (Sparse outm)])))"
    using ssd_events_post[of E shape data offsets indices ta dense oshape odata ooffsets oindices s]
    unfolding post_def returns_def .
  show "(returns (dds E dense shape data offsets indices tb out) s \<longrightarrow>
      kinds (dds E dense shape data offsets indices tb out) s =
        (if \<not> flag s tb then [KValid True, KTranspose, KExtended (0, False) (3, False)]
         else [KValid True, KPlain (0, False) (0, False)]))"
    using dds_kinds_post[of E dense shape data offsets indices tb out s]
    unfolding post_def returns_def kinds_def by blast
  show "stopped_within (kinds (dds E dense shape data offsets indices tb out) s)
     (if \<not> flag s tb then [KValid True, KTranspose, KExtended (0, False) (3, False)]
         else [KValid True, KPlain (0, False) (0, False)])"
    using dds_kinds_partial[of E dense shape data offsets indices tb out s]
    unfolding post_def kinds_def .
  show "(returns (dds E dense shape data offsets indices tb out) s \<longrightarrow>
      (\<exists>lhs rhs outm.
         as_matrix (heap s) dense = Inr lhs \<and>
         as_block_matrix (heap (snd (dds E dense shape data offsets indices tb out s))) shape data offsets indices = Inr rhs \<and>
         as_matrix (heap (snd (dds E dense shape data offsets indices tb out s))) out = Inr outm \<and>
         (if \<not> flag s tb
          then \<exists>it ot bo.
                 transpose_helper E (heap (snd (dds E dense shape data offsets indices tb out s))) shape data offsets indices = Inr (it, ot, bo) \<and>
                 new_events s (snd (dds E dense shape data offsets indices tb out s)) =
                   [EvValidMatmul True, EvTranspose it ot bo,
                    EvMatmulEx (Dense lhs) (is_transposed (heap s dense))
                      (Sparse (rhs\<lparr>indices_t := Some it, offsets_t := Some ot,
                                     block_offsets := Some bo\<rparr>)) False (Dense outm)]
          else new_events s (snd (dds E dense shape data offsets indices tb out s)) =
                   [EvValidMatmul True,
                    EvMatmul (Dense lhs) (is_transposed (heap s dense)) (Sparse rhs) True
                      (Dense outm)])))"
    using dds_events_post[of E dense shape data offsets indices tb out s]
    unfolding post_def returns_def .
  show "(returns (dss E shape data offsets indices ta rshape rdata roffsets rindices tb out) s \<longrightarrow>
      kinds (dss E shape data offsets indices ta rshape rdata roffsets rindices tb out) s =
        ([KValid True, KBitmask, KBitmask] @
        (if flag s ta then [KTranspose] else []) @
        (if \<not> flag s tb then [KTranspose] else []) @
        [KExtended (if flag s ta then 3 else 0, True) (if \<not> flag s tb then 3 else 0, True)]))"
    using dss_kinds_post[of E shape data offsets indices ta rshape rdata roffsets rindices tb out s]
    unfolding post_def returns_def kinds_def by blast
  show "stopped_within (kinds (dss E shape data offsets indices ta rshape rdata roffsets rindices tb out) s)
     ([KValid True, KBitmask, KBitmask] @
        (if flag s ta then [KTranspose] else []) @
        (if \<not> flag s tb then [KTranspose] else []) @
        [KExtended (if flag s ta then 3 else 0, True) (if \<not> flag s tb then 3 else 0, True)])"
    using dss_kinds_partial[of E shape data offsets indices ta rshape rdata roffsets rindices tb out s]
    unfolding post_def kinds_def .
  show "(returns (dss E shape data offsets indices ta rshape rdata roffsets rindices tb out) s \<longrightarrow>
      (\<exists>lhs rhs outm va vb.
         as_block_matrix ((heap s)(shape := normalized (flag s ta) (heap s shape)))
           shape data offsets indices = Inr lhs \<and>
         as_block_matrix (heap (snd (dss E shape data offsets indices ta rshape rdata roffsets rindices tb out s))) rshape rdata roffsets rindices = Inr rhs \<and>
         as_matrix (heap (snd (dss E shape data offsets indices ta rshape rdata roffsets rindices tb out s))) out = Inr outm \<and>
         (flag s ta \<longrightarrow>
            transpose_helper E (heap (snd (dss E shape data offsets indices ta rshape rdata roffsets rindices tb out s))) shape data offsets indices = Inr va) \<and>
         (\<not> flag s tb \<longrightarrow>
            transpose_helper E (heap (snd (dss E shape data offsets indices ta rshape rdata roffsets rindices tb out s))) rshape rdata roffsets rindices = Inr vb) \<and>
         new_events s (snd (dss E shape data offsets indices ta rshape rdata roffsets rindices tb out s)) =
           [EvValidMatmul True,
            EvAllocBitmask (size_in_bytes
               ((if flag s ta then cols lhs else rows lhs) sdiv 128)
               ((if flag s ta then rows lhs else cols lhs) sdiv 128)),
            EvAllocBitmask (size_in_bytes
               ((if flag s tb then cols rhs else rows rhs) sdiv 128)
               ((if flag s tb then rows rhs else cols rhs) sdiv 128))] @
           (if flag s ta then [EvTranspose (fst va) (fst (snd va)) (snd (snd va))] else []) @
           (if \<not> flag s tb then [EvTranspose (fst vb) (fst (snd vb)) (snd (snd vb))] else []) @
           [EvMatmulEx
              (Sparse (if flag s ta
                 then lhs\<lparr>bitmask := Some (size_in_bytes (cols lhs sdiv 128) (rows lhs sdiv 128)),
                          indices_t := Some (fst va), offsets_t := Some (fst (snd va)),
                          block_offsets := Some (snd (snd va))\<rparr>
                 else lhs\<lparr>bitmask := Some (size_in_bytes (rows lhs sdiv 128) (cols lhs sdiv 128))\<rparr>))
              (flag s ta)
              (Sparse (if \<not> flag s tb
                 then rhs\<lparr>bitmask := Some (size_in_bytes (rows rhs sdiv 128) (cols rhs sdiv 128)),
                          indices_t := Some (fst vb), offsets_t := Some (fst (snd vb)),
                          block_offsets := Some (snd (snd vb))\<rparr>
                 else rhs\<lparr>bitmask := Some (size_in_bytes (cols rhs sdiv 128) (rows rhs sdiv 128))\<rparr>))
              (flag s tb) (Dense outm)]))"
    using dss_events_post[of E shape data offsets indices ta rshape rdata roffsets rindices tb out s]
    unfolding post_def returns_def .
qed

text \<open>
  On the reference state, with the flag at 4 set and the flag at 5 not set: the four
  operations with a transpose view for every sparse operand, and dsd, dds and dss with
  none; and the calls of dsd on the 256 by 128 matrix used transposed, with the view
  \<open>indices_t = [0, 1]\<close>, \<open>offsets_t = [0, 32768]\<close>, \<open>block_offsets = [0, 32768]\<close>
  attached to the descriptor the kernel is given.
\<close>

theorem dispatch_by_transpose_flag_witness:
  "returns (dsd E_ref 0 1 2 3 4 6 7) op_state \<and>
   kinds (dsd E_ref 0 1 2 3 4 6 7) op_state =
     [KValid True, KTranspose, KExtended (3, False) (0, False)] \<and>
   returns (ssd E_ref 0 1 2 3 4 6 8 1 2 3) op_state \<and>
   kinds (ssd E_ref 0 1 2 3 4 6 8 1 2 3) op_state =
     [KValid True, KTranspose, KExtended (3, False) (0, False)] \<and>
   returns (dds E_ref 6 0 1 2 3 5 7) op_state \<and>
   kinds (dds E_ref 6 0 1 2 3 5 7) op_state =
     [KValid True, KTranspose, KExtended (0, False) (3, False)] \<and>
   returns (dss E_ref 0 1 2 3 4 8 1 2 3 5 7) op_state \<and>
   kinds (dss E_ref 0 1 2 3 4 8 1 2 3 5 7) op_state =
     [KValid True, KBitmask, KBitmask, KTranspose, KTranspose, KExtended (3, True) (3, True)] \<and>
   returns (dsd E_ref 0 1 2 3 5 6 7) op_state \<and>
   kinds (dsd E_ref 0 1 2 3 5 6 7) op_state = [KValid True, KPlain (0, False) (0, False)] \<and>
   returns (dds E_ref 6 0 1 2 3 4 7) op_state \<and>
   kinds (dds E_ref 6 0 1 2 3 4 7) op_state = [KValid True, KPlain (0, False) (0, False)] \<and>
   returns (dss E_ref 0 1 2 3 5 8 1 2 3 4 7) op_state \<and>
   kinds (dss E_ref 0 1 2 3 5 8 1 2 3 4 7) op_state =
     [KValid True, KBitmask, KBitmask, KExtended (0, True) (0, True)] \<and>
   returns (dsd E_ref 0 1 9 10 4 6 7) op_state \<and>
   new_events op_state (snd (dsd E_ref 0 1 9 10 4 6 7 op_state)) =
     [EvValidMatmul True, EvTranspose [0, 1] [0, 32768] [0, 32768],
      EvMatmulEx
        (Sparse \<lparr>rows = 256, cols = 128, data_ptr = 1, block_size = 128, nonzeros = 2,
           offsets_ptr = 9, indices_ptr = 10, offsets_t = Some [0, 32768],
           indices_t = Some [0, 1], block_offsets = Some [0, 32768], bitmask = None\<rparr>)
        True (Dense \<lparr>rows = 256, cols = 64, data_ptr = 6\<rparr>) False
        (Dense \<lparr>rows = 128, cols = 64, data_ptr = 7\<rparr>)]"
proof -
  have r: "returns (dsd E_ref 0 1 2 3 4 6 7) op_state"
    "returns (ssd E_ref 0 1 2 3 4 6 8 1 2 3) op_state"
    "returns (dds E_ref 6 0 1 2 3 5 7) op_state"
    "returns (dss E_ref 0 1 2 3 4 8 1 2 3 5 7) op_state"
    "returns (dsd E_ref 0 1 2 3 5 6 7) op_state"
    "returns (dds E_ref 6 0 1 2 3 4 7) op_state"
    "returns (dss E_ref 0 1 2 3 5 8 1 2 3 4 7) op_state"
    "returns (dsd E_ref 0 1 9 10 4 6 7) op_state"
    using dsd_run ssd_run dds_run dss_run dsd_plain_run dds_plain_run dss_plain_run dsd_view_run
    by (simp_all add: post_def returns_def)
  have v: "new_events op_state (snd (dsd E_ref 0 1 9 10 4 6 7 op_state)) =
     [EvValidMatmul True, EvTranspose [0, 1] [0, 32768] [0, 32768],
      EvMatmulEx
        (Sparse \<lparr>rows = 256, cols = 128, data_ptr = 1, block_size = 128, nonzeros = 2,
           offsets_ptr = 9, indices_ptr = 10, offsets_t = Some [0, 32768],
           indices_t = Some [0, 1], block_offsets = Some [0, 32768], bitmask = None\<rparr>)
        True (Dense \<lparr>rows = 256, cols = 64, data_ptr = 6\<rparr>) False
        (Dense \<lparr>rows = 128, cols = 64, data_ptr = 7\<rparr>)]"
    using dsd_view_run by (simp add: post_def)
  note a = dispatch_by_transpose_flag [where E = E_ref and s = op_state and shape = 0
      and data = 1 and offsets = 2 and indices = 3 and ta = 4 and tb = 5 and dense = 6
      and out = 7 and oshape = 8 and odata = 1 and ooffsets = 2 and oindices = 3
      and rshape = 8 and rdata = 1 and roffsets = 2 and rindices = 3]
  note b = dispatch_by_transpose_flag [where E = E_ref and s = op_state and shape = 0
      and data = 1 and offsets = 2 and indices = 3 and ta = 5 and tb = 4 and dense = 6
      and out = 7 and oshape = 8 and odata = 1 and ooffsets = 2 and oindices = 3
      and rshape = 8 and rdata = 1 and roffsets = 2 and rindices = 3]
  have k: "kinds (dsd E_ref 0 1 2 3 4 6 7) op_state =
     [KValid True, KTranspose, KExtended (3, False) (0, False)]"
    "kinds (ssd E_ref 0 1 2 3 4 6 8 1 2 3) op_state =
     [KValid True, KTranspose, KExtended (3, False) (0, False)]"
    "kinds (dds E_ref 6 0 1 2 3 5 7) op_state =
     [KValid True, KTranspose, KExtended (0, False) (3, False)]"
    "kinds (dss E_ref 0 1 2 3 4 8 1 2 3 5 7) op_state =
     [KValid True, KBitmask, KBitmask, KTranspose, KTranspose, KExtended (3, True) (3, True)]"
    using a r flag_op_state by simp_all
  have k': "kinds (dsd E_ref 0 1 2 3 5 6 7) op_state = [KValid True, KPlain (0, False) (0, False)]"
    "kinds (dds E_ref 6 0 1 2 3 4 7) op_state = [KValid True, KPlain (0, False) (0, False)]"
    "kinds (dss E_ref 0 1 2 3 5 8 1 2 3 4 7) op_state =
     [KValid True, KBitmask, KBitmask, KExtended (0, True) (0, True)]"
    using b r flag_op_state by simp_all
  show ?thesis using k k' r v by simp
qed

section \<open>The transpose view as a compressed block-column matrix\<close>

text \<open>
  C5, as stated: for a valid descriptor with block-column indices, the transpose view
  read column by column would give exactly the stored (block-row, block-column) pairs.
  On the two-block matrix, blocks at (0, 1) and (1, 0), the view gives both blocks to
  block-column 0: the pair (0, 1) is lost and (0, 0) is gained. And on the 128 by 128
  matrix with \<open>2 ^ 15\<close> blocks at its one position, where the invariants hold, the count
  of the histogram wraps, the one segment of the view ends before it starts, and all
  blocks are lost.
\<close>

theorem column_view_counterexample:
  "transpose_helper E_ref scenario_heap 0 1 2 3 = Inr ([1, 0], [0, 32768, 32768], [32768, 0]) \<and>
   column_view [1, 0] [0, 32768, 32768] = [(1, 0), (0, 0)] \<and>
   stored_blocks (elems (scenario_heap 2)) (entries (scenario_heap 3)) = [(0, 1), (1, 0)] \<and>
   mset (column_view [1, 0] [0, 32768, 32768]) \<noteq>
     mset (stored_blocks (elems (scenario_heap 2)) (entries (scenario_heap 3))) \<and>
   csr_ok overflow_heap 0 1 2 3 \<and>
   offsets_t_of (transpose_helper E_ref overflow_heap 0 1 2 3) = [0, - 536870912] \<and>
   column_view (indices_t_of (transpose_helper E_ref overflow_heap 0 1 2 3))
     (offsets_t_of (transpose_helper E_ref overflow_heap 0 1 2 3)) = [] \<and>
   length (stored_blocks (elems (overflow_heap 2)) (entries (overflow_heap 3))) = 32768"
proof -
  have 1: "transpose_helper E_ref scenario_heap 0 1 2 3 = Inr ([1, 0], [0, 32768, 32768], [32768, 0])"
    by (simp add: eval_simps scenario_heap_def fixture_simps E_ref_def stable_argsort_def)
  have 2: "column_view [1, 0] [0, 32768, 32768] = [(1, 0), (0, 0)]"
    by (simp add: column_view_def upt_conv_Cons)
  have 3: "stored_blocks (elems (scenario_heap 2)) (entries (scenario_heap 3)) = [(0, 1), (1, 0)]"
    by (simp add: stored_blocks_def scenario_heap_def fixture_simps row_of_def upt_conv_Cons)
  have 4: "mset [(1, 0), (0, 0 :: int) :: int \<times> int] \<noteq> mset [(0, 1), (1, 0)]"
  proof
    assume "mset [(1, 0), (0, 0 :: int) :: int \<times> int] = mset [(0, 1), (1, 0)]"
    then have "set [(1, 0), (0, 0 :: int) :: int \<times> int] = set [(0, 1), (1, 0)]"
      by (rule mset_eq_setD)
    then show False by (simp add: doubleton_eq_iff)
  qed
  have 5: "csr_ok overflow_heap 0 1 2 3"
    by (simp add: csr_ok_def overflow_heap_def fixture_simps check_simps)
  obtain it bo where r: "transpose_helper E_ref overflow_heap 0 1 2 3 = Inr (it, [0, - 536870912], bo)"
    using transpose_helper_overflow by blast
  have 6: "column_view it [0, - 536870912] = []" by (simp add: column_view_def)
  have 7: "length (stored_blocks (elems (overflow_heap 2)) (entries (overflow_heap 3))) = 32768"
    by (simp add: stored_blocks_def overflow_heap_def fixture_simps)
  show ?thesis using 1 2 3 4 5 6 7 r by (simp add: offsets_t_of_def indices_t_of_def)
qed

text \<open>
  C5, amended: for every descriptor that satisfies the invariants, whose indices hold
  the first element column of each block (a multiple of 128 in \<open>[0, cols)\<close>, 128 times
  the block-column), which has fewer than \<open>2 ^ 15\<close> blocks and whose number of columns
  is a 16-bit integer, the bound of the histogram, the returned transpose view, read
  column by column, gives exactly the stored (block-row, block-column) pairs, each as
  often as it is stored.
\<close>

theorem column_view_membership:
  assumes ok: "csr_ok H shape data offsets indices"
    and sc: "\<forall>x \<in> set (entries (H indices)). 0 \<le> x \<and> x < entries (H shape) ! 1 \<and> x mod 128 = 0"
    and cols: "entries (H shape) ! 1 \<le> 32767"
    and small: "length (entries (H indices)) < 32768"
    and srt: "argsort_sorts E"
    and ret: "transpose_helper E H shape data offsets indices = Inr (it, ot, bo)"
  shows "mset (column_view it ot) =
         mset (stored_blocks (elems (H offsets)) (map (\<lambda>x. x div 128) (entries (H indices))))"
proof -
  define idx where "idx = entries (H indices)"
  define offs where "offs = elems (H offsets)"
  define n where "n = length idx"
  define g where "g = argsort E (map2 (\<lambda>c r. of_int c + of_int r / 128) idx (RowIndices offs n))"
  define cs where "cs = map (\<lambda>j. idx ! j div 128) g"
  define G where "G = (\<lambda>j. (row_of offs j, idx ! j div 128))"
  have raw: "mset g = mset [0..<n] \<and> it = map (row_of offs) g \<and>
            (\<forall>a b. a < b \<and> b < length g \<longrightarrow>
               idx ! (g ! a) < idx ! (g ! b) \<or>
               (idx ! (g ! a) = idx ! (g ! b) \<and> row_of offs (g ! a) \<le> row_of offs (g ! b)))"
    using transpose_gather_order[OF ok srt ret]
    unfolding Let_def idx_def[symmetric] offs_def[symmetric] n_def[symmetric] g_def[symmetric] .
  have ord: "mset g = mset [0..<n]" "it = map (row_of offs) g" using raw by blast+
  have ord3: "idx ! (g ! a) \<le> idx ! (g ! b)" if "a < b" "b < length g" for a b
  proof -
    have "idx ! (g ! a) < idx ! (g ! b) \<or> idx ! (g ! a) = idx ! (g ! b)"
      using raw that by blast
    then show ?thesis by linarith
  qed
  have lg: "length g = n" using mset_eq_length[OF ord(1)] by simp
  have sg: "set g = {0..<n}" using mset_eq_setD[OF ord(1)] by simp
  \<comment> \<open>the columns in the order of the view are sorted\<close>
  have scs: "sorted cs"
    unfolding cs_def sorted_iff_nth_mono_less
  proof (intro allI impI)
    fix i j assume "i < j" "j < length (map (\<lambda>j. idx ! j div 128) g)"
    then have "idx ! (g ! i) \<le> idx ! (g ! j)" using ord3[of i j] by simp
    then show "map (\<lambda>j. idx ! j div 128) g ! i \<le> map (\<lambda>j. idx ! j div 128) g ! j"
      using \<open>i < j\<close> \<open>j < length (map (\<lambda>j. idx ! j div 128) g)\<close> by (simp add: zdiv_mono1)
  qed
  have pcs: "mset cs = mset (map (\<lambda>x. x div 128) idx)"
  proof -
    have "mset cs = image_mset (\<lambda>j. idx ! j div 128) (mset g)" by (simp add: cs_def)
    also have "\<dots> = image_mset (\<lambda>j. idx ! j div 128) (mset [0..<n])" by (simp only: ord(1))
    also have "\<dots> = mset (map (\<lambda>j. idx ! j div 128) [0..<n])" by (simp only: mset_map)
    also have "map (\<lambda>j. idx ! j div 128) [0..<n] = map (\<lambda>x. x div 128) idx"
      unfolding n_def by (rule nth_equalityI) auto
    finally show ?thesis .
  qed
  \<comment> \<open>the histogram\<close>
  have c0: "- 32768 \<le> entries (H shape) ! 1" using ok by (simp add: csr_ok_def Let_def)
  from ret c0 cols small obtain kCols where
    kc: "kCols = entries (H shape) ! 1"
    and pos: "0 < kCols" "0 < kCols sdiv 128"
    and ot0: "ot = map to_int32 (0 # map (\<lambda>x. x * 16384)
            (cumsum (bin_counts (entries (H indices)) (kCols sdiv 128) 0 kCols)))"
    by (rule transpose_helper_hist)
  define hist where "hist = bin_counts idx (kCols sdiv 128) 0 kCols"
  have ot: "ot = map to_int32 (0 # map (\<lambda>x. x * 16384) (cumsum hist))"
    using ot0 by (simp add: hist_def idx_def)
  define bins where "bins = kCols div 128"
  have sd: "kCols sdiv 128 = bins" using pos by (simp add: sdiv_nonneg bins_def)
  have "kCols mod 128 = 0" using ok kc by (simp add: csr_ok_def Let_def)
  then have kb: "kCols = 128 * bins"
    unfolding bins_def using mult_div_mod_eq[of 128 kCols] by simp
  have bpos: "0 < bins" using pos sd by simp
  have lh: "length hist = nat bins" using sd by (simp add: hist_def length_bin_counts)
  define P where "P = (\<lambda>c. length (filter (\<lambda>v. v < int c) cs))"
  have pre: "sum_list (take B hist) = int (P B)" if "B \<le> nat bins" for B
  proof -
    have "sum_list (take B hist) =
       int (length (filter (\<lambda>x. 0 \<le> x \<and> x \<le> kCols \<and> bin_of bins 0 kCols x < int B) idx))"
      using bin_counts_prefix_sum[OF pos(2,1), of B idx] that sd by (simp add: hist_def)
    also have "filter (\<lambda>x. 0 \<le> x \<and> x \<le> kCols \<and> bin_of bins 0 kCols x < int B) idx =
               filter (\<lambda>x. x div 128 < int B) idx"
    proof (rule filter_cong[OF refl])
      fix x assume "x \<in> set idx"
      then have x: "0 \<le> x" "x < 128 * bins" using sc kc kb by (auto simp: idx_def)
      then show "(0 \<le> x \<and> x \<le> kCols \<and> bin_of bins 0 kCols x < int B) = (x div 128 < int B)"
        using bin_of_scaled[OF bpos x] kb by simp
    qed
    also have "length (filter (\<lambda>x. x div 128 < int B) idx) =
               length (filter (\<lambda>v. v < int B) (map (\<lambda>x. x div 128) idx))"
      by (simp add: filter_map comp_def)
    also have "\<dots> = P B" unfolding P_def using length_filter_perm[OF pcs] by simp
    finally show ?thesis .
  qed
  have P0: "P 0 = 0"
  proof -
    have "\<forall>v \<in> set cs. \<not> v < 0"
    proof
      fix v assume "v \<in> set cs"
      then obtain j where "j \<in> set g" "v = idx ! j div 128" by (auto simp: cs_def)
      then have "idx ! j \<in> set idx" using sg by (simp add: n_def)
      then have "0 \<le> idx ! j" using sc by (auto simp: idx_def)
      then show "\<not> v < 0" using \<open>v = idx ! j div 128\<close> by simp
    qed
    then show ?thesis by (simp add: P_def filter_empty_conv)
  qed
  have Ple: "P B \<le> n" for B
    unfolding P_def using length_filter_le[of _ cs] by (simp add: cs_def lg)
  have otn: "ot ! c = int (P c) * 16384" if "c \<le> nat bins" for c
  proof -
    have "(0 # map (\<lambda>x. x * 16384) (cumsum hist)) ! c = int (P c) * 16384"
    proof (cases c)
      case 0
      then show ?thesis by (simp add: P0)
    next
      case (Suc c')
      then have "c' < length hist" using that lh by simp
      then have "cumsum hist ! c' = sum_list (take (Suc c') hist)"
        by (simp add: cumsum_def cumsum_from_nth)
      then show ?thesis using Suc pre[OF that] \<open>c' < length hist\<close>
        by (simp add: cumsum_def length_cumsum_from)
    qed
    moreover have "to_int32 (int (P c) * 16384) = int (P c) * 16384"
      using Ple[of c] small by (intro to_int32_id) (auto simp: n_def idx_def)
    moreover have "c < length (0 # map (\<lambda>x. x * 16384) (cumsum hist))"
      using that lh by (simp add: cumsum_def length_cumsum_from)
    ultimately show ?thesis unfolding ot by (simp only: nth_map)
  qed
  have lot: "length ot - 1 = nat bins" by (simp add: ot cumsum_def length_cumsum_from lh)
  have Pbins: "P (nat bins) = n"
  proof -
    have "\<forall>v \<in> set cs. v < int (nat bins)"
    proof
      fix v assume "v \<in> set cs"
      then obtain j where "j \<in> set g" "v = idx ! j div 128" by (auto simp: cs_def)
      then have "idx ! j \<in> set idx" using sg by (simp add: n_def)
      then have "idx ! j < 128 * bins" using sc kc kb by (auto simp: idx_def)
      then show "v < int (nat bins)" using \<open>v = idx ! j div 128\<close> bpos by simp
    qed
    then have "filter (\<lambda>v. v < int (nat bins)) cs = cs" by (simp only: filter_id_conv)
    then have "P (nat bins) = length cs" by (simp only: P_def)
    then show ?thesis by (simp add: cs_def lg)
  qed
  have Pmono: "P c \<le> P (Suc c)" for c
  proof -
    have "length (filter (\<lambda>v. v < int c) (filter (\<lambda>v. v < int (Suc c)) cs)) \<le> length (filter (\<lambda>v. v < int (Suc c)) cs)"
      by (rule length_filter_le)
    moreover have "filter (\<lambda>v. v < int c) (filter (\<lambda>v. v < int (Suc c)) cs) = filter (\<lambda>v. v < int c) cs"
      unfolding filter_filter by (rule filter_cong) auto
    ultimately show ?thesis by (simp add: P_def)
  qed
  \<comment> \<open>reading the view column by column gives the blocks in the order of the view\<close>
  have "column_view it ot =
        concat (map (\<lambda>c. map (\<lambda>k. (it ! k, int c)) [P c ..< P (Suc c)]) [0..<nat bins])"
    unfolding column_view_def lot
    by (intro arg_cong[where f = concat] map_cong refl) (simp add: otn)
  also have "\<dots> = concat (map (\<lambda>c. map (\<lambda>k. G (g ! k)) [P c ..< P (Suc c)]) [0..<nat bins])"
  proof (intro arg_cong[where f = concat] map_cong refl)
    fix c k assume "k \<in> set [P c ..< P (Suc c)]"
    then have k: "P c \<le> k" "k < P (Suc c)" by auto
    then have "cs ! k = int c"
      using sorted_segment[OF scs, of "int c" k] by (simp add: P_def add.commute)
    moreover have kn: "k < n" using k(2) Ple[of "Suc c"] by simp
    ultimately have "idx ! (g ! k) div 128 = int c" by (simp add: cs_def lg)
    then show "(it ! k, int c) = G (g ! k)" using kn by (simp add: G_def ord(2) lg)
  qed
  also have "\<dots> = map (\<lambda>k. G (g ! k)) [0..<P (nat bins)]"
    by (rule concat_segments) (simp_all add: Pmono P0)
  also have "\<dots> = map G g" unfolding Pbins lg[symmetric] by (rule nth_equalityI) auto
  finally have "mset (column_view it ot) = image_mset G (mset g)" by simp
  also have "\<dots> = image_mset G (mset [0..<n])" by (simp only: ord(1))
  also have "\<dots> = mset (map G [0..<n])" by (simp only: mset_map)
  also have "map G [0..<n] = stored_blocks offs (map (\<lambda>x. x div 128) idx)"
    by (simp add: stored_blocks_def G_def n_def)
  finally show ?thesis by (simp add: offs_def idx_def)
qed

theorem column_view_membership_witness:
  "csr_ok scenario_heap_scaled 0 1 2 3 \<and> argsort_sorts E_ref \<and>
   entries (scenario_heap_scaled 3) = [128, 0] \<and> entries (scenario_heap_scaled 0) ! 1 = 256 \<and>
   transpose_helper E_ref scenario_heap_scaled 0 1 2 3 = Inr ([1, 0], [0, 16384, 32768], [32768, 0]) \<and>
   column_view [1, 0] [0, 16384, 32768] = [(1, 0), (0, 1)] \<and>
   mset (column_view [1, 0] [0, 16384, 32768]) =
     mset (stored_blocks (elems (scenario_heap_scaled 2))
            (map (\<lambda>x. x div 128) (entries (scenario_heap_scaled 3))))"
proof -
  have h1: "csr_ok scenario_heap_scaled 0 1 2 3"
    by (simp add: csr_ok_def scenario_heap_scaled_def fixture_simps check_simps)
  have h2: "\<forall>x \<in> set (entries (scenario_heap_scaled 3)).
              0 \<le> x \<and> x < entries (scenario_heap_scaled 0) ! 1 \<and> x mod 128 = 0"
    by (simp add: scenario_heap_scaled_def fixture_simps)
  have h3: "entries (scenario_heap_scaled 0) ! 1 \<le> 32767"
    "length (entries (scenario_heap_scaled 3)) < 32768"
    by (simp_all add: scenario_heap_scaled_def fixture_simps)
  have h5: "transpose_helper E_ref scenario_heap_scaled 0 1 2 3
              = Inr ([1, 0], [0, 16384, 32768], [32768, 0])"
    by (simp add: eval_simps scenario_heap_scaled_def fixture_simps E_ref_def stable_argsort_def)
  have e: "entries (scenario_heap_scaled 3) = [128, 0] \<and> entries (scenario_heap_scaled 0) ! 1 = 256"
    by (simp add: scenario_heap_scaled_def fixture_simps)
  have v: "column_view [1, 0] [0, 16384, 32768] = [(1, 0), (0, 1)]"
    by (simp add: column_view_def upt_conv_Cons)
  show ?thesis
    using column_view_membership [OF h1 h2 h3 argsort_sorts_E_ref h5] h1 h5 e v argsort_sorts_E_ref
    by simp
qed

section \<open>The column pointers of the transpose view\<close>

text \<open>
  C6, as stated: whenever the block size is 128, there are at most \<open>128 * 128\<close> rows and
  the indices lie in \<open>[0, cols / 128)\<close>, the returned \<open>offsets_t\<close> would be
  non-decreasing and end at the number of blocks times \<open>128 * 128\<close>. The histogram
  counts in the 16-bit element type of the indices. With \<open>2 ^ 15\<close> blocks, all at
  block-row 0 and block-column 0 of a 128 by 128 matrix, its one count wraps to
  \<open>- (2 ^ 15)\<close>, and the helper returns \<open>offsets_t = [0, - (2 ^ 29)]\<close>, which decreases
  and does not end at \<open>2 ^ 29\<close>.
\<close>

theorem offsets_t_overflow_counterexample:
  "offsets_t_of (transpose_helper E_ref overflow_heap 0 1 2 3) = [0, - 536870912] \<and>
   entries (overflow_heap 0) = [128, 128] \<and> entries (overflow_heap 3) = replicate 32768 0 \<and>
   int (length (entries (overflow_heap 3))) * 16384 = 536870912"
proof -
  have "entries (overflow_heap 0) = [128, 128]" "entries (overflow_heap 3) = replicate 32768 0"
    by (simp_all add: overflow_heap_def fixture_simps)
  then show ?thesis
    using transpose_helper_overflow by (auto simp: offsets_t_of_def)
qed

text \<open>
  C6, amended: if moreover there are fewer than \<open>2 ^ 15\<close> blocks and the number of
  columns is a 16-bit integer, the bound of the histogram, the returned \<open>offsets_t\<close> has
  \<open>cols / 128 + 1\<close> entries, is non-decreasing, starts at 0 and ends at the number of
  blocks times \<open>128 * 128\<close>. That the block size is 128 and the rows are at most
  \<open>128 * 128\<close> is checked by the helper before it returns.
\<close>

theorem offsets_t_shape:
  assumes ret: "transpose_helper E H shape data offsets indices = Inr (it, ot, bo)"
    and rng: "\<forall>x \<in> set (entries (H indices)). 0 \<le> x \<and> x < entries (H shape) ! 1 div 128"
    and c: "- 32768 \<le> entries (H shape) ! 1" "entries (H shape) ! 1 \<le> 32767"
    and small: "length (entries (H indices)) < 32768"
  shows "length ot = nat (entries (H shape) ! 1 div 128) + 1 \<and> sorted ot \<and> hd ot = 0 \<and>
         last ot = int (length (entries (H indices))) * 16384"
proof -
  from ret c small obtain kCols where
    kc: "kCols = entries (H shape) ! 1"
    and pos: "0 < kCols" "0 < kCols sdiv 128"
    and ot: "ot = map to_int32 (0 # map (\<lambda>x. x * 16384)
            (cumsum (bin_counts (entries (H indices)) (kCols sdiv 128) 0 kCols)))"
    by (rule transpose_helper_hist)
  define hist where "hist = bin_counts (entries (H indices)) (kCols sdiv 128) 0 kCols"
  let ?n = "int (length (entries (H indices)))"
  have nn: "\<forall>v \<in> set hist. 0 \<le> v" using bin_counts_bounds by (auto simp: hist_def)
  have "filter (\<lambda>x. 0 \<le> x \<and> x \<le> kCols) (entries (H indices)) = entries (H indices)"
    using rng kc pos by (auto simp: filter_id_conv) 
  then have tot: "sum_list hist = ?n"
    using bin_counts_total[OF pos(2,1), of "entries (H indices)"] by (simp add: hist_def)
  have bnd: "0 \<le> y \<and> y \<le> ?n" if "y \<in> set (cumsum hist)" for y
    using cumsum_from_lower[OF nn, of y 0] cumsum_from_upper[OF nn, of y 0] that tot
    by (simp add: cumsum_def)
  have "map to_int32 (0 # map (\<lambda>x. x * 16384) (cumsum hist)) = 0 # map (\<lambda>x. x * 16384) (cumsum hist)"
  proof -
    have "to_int32 z = z" if "z \<in> set (0 # map (\<lambda>x. x * 16384) (cumsum hist))" for z
    proof -
      from that have "0 \<le> z \<and> z \<le> ?n * 16384" using bnd by auto
      with small show ?thesis by (intro to_int32_id) auto
    qed
    then show ?thesis by (simp add: map_idI)
  qed
  then have ot': "ot = 0 # map (\<lambda>x. x * 16384) (cumsum hist)" using ot by (simp add: hist_def)
  have "sorted (cumsum hist)" using sorted_cumsum_from[OF nn] by (simp add: cumsum_def)
  then have "sorted (map (\<lambda>x. x * 16384) (cumsum hist))"
    by (simp add: sorted_map sorted_wrt_mono_rel[of _ "(\<le>)"])
  moreover have "\<forall>y \<in> set (map (\<lambda>x. x * 16384) (cumsum hist)). 0 \<le> y" using bnd by auto
  ultimately have "sorted ot" by (simp add: ot')
  moreover have "last ot = to_int32 (?n * 16384)" using offsets_t_last(1)[OF ret rng c small] .
  moreover have "to_int32 (?n * 16384) = ?n * 16384" using small by (intro to_int32_id) auto
  ultimately show ?thesis using offsets_t_last(2,3)[OF ret rng c small] by simp
qed

theorem offsets_t_shape_witness:
  "transpose_helper E_ref scenario_heap 0 1 2 3 = Inr ([1, 0], [0, 32768, 32768], [32768, 0]) \<and>
   entries (scenario_heap 3) = [1, 0] \<and> entries (scenario_heap 0) ! 1 = 256 \<and>
   length (entries (scenario_heap 3)) < 32768 \<and>
   length [0, 32768, 32768 :: int] = nat (entries (scenario_heap 0) ! 1 div 128) + 1 \<and>
   sorted [0, 32768, 32768 :: int] \<and> hd [0, 32768, 32768 :: int] = 0 \<and>
   last [0, 32768, 32768 :: int] = int (length (entries (scenario_heap 3))) * 16384"
proof -
  have h1: "transpose_helper E_ref scenario_heap 0 1 2 3 = Inr ([1, 0], [0, 32768, 32768], [32768, 0])"
    by (simp add: eval_simps scenario_heap_def fixture_simps E_ref_def stable_argsort_def)
  have h4: "entries (scenario_heap 3) = [1, 0]" "entries (scenario_heap 0) ! 1 = 256"
    by (simp_all add: scenario_heap_def fixture_simps)
  have h2: "\<forall>x \<in> set (entries (scenario_heap 3)). 0 \<le> x \<and> x < entries (scenario_heap 0) ! 1 div 128"
    by (simp add: scenario_heap_def fixture_simps)
  have h3: "- 32768 \<le> entries (scenario_heap 0) ! 1" "entries (scenario_heap 0) ! 1 \<le> 32767"
    "length (entries (scenario_heap 3)) < 32768"
    by (simp_all add: scenario_heap_def fixture_simps)
  show ?thesis using offsets_t_shape [OF h1 h2 h3] h1 h3 h4 by simp
qed

section \<open>The shape normalizer\<close>

text \<open>
  C7, as stated: for every shape of two entries, normalizing with the flag set twice
  would restore the two entries. The normalizer reads the entries through the accessor,
  which follows the stride, and writes the first two cells of the buffer. On the shape
  \<open>[128, 256]\<close> held in every second cell of \<open>[128, 999, 256]\<close>, which passes the
  validation of a shape, the first call writes 256 and 128 to the cells 0 and 1 and the
  second 256 and 256: the entries end as \<open>[256, 256]\<close>. And on a shape of two entries
  with two dimensions, which passes the validation too, the accessor raises.
\<close>

theorem shape_not_restored_counterexample:
  "validate_shape strided_shape = Inr () \<and> entries strided_shape = [128, 256] \<and>
   heap strided_state 0 = strided_shape \<and>
   fst (bindS (standardize_shape 0 True) (\<lambda>_. standardize_shape 0 True) strided_state) = Inr () \<and>
   elems (heap (snd (bindS (standardize_shape 0 True) (\<lambda>_. standardize_shape 0 True)
                       strided_state)) 0) = [256, 256, 256] \<and>
   entries (heap (snd (bindS (standardize_shape 0 True) (\<lambda>_. standardize_shape 0 True)
                         strided_state)) 0) = [256, 256] \<and>
   validate_shape column_shape = Inr () \<and> heap column_state 0 = column_shape \<and>
   standardize_shape 0 True column_state = (Inl LibraryError, column_state)"
  by (simp add: strided_shape_def column_shape_def strided_state_def column_state_def
        validate_shape_def bind_def TORCH_CHECK_def is_cuda_def numel_def ndimension_def
        entries_def upt_conv_Cons standardize_shape_def bindS_def read_def access_metadata_def)

text \<open>
  C7, amended: on a shape tensor that is a contiguous vector of two 32-bit integers,
  normalizing with the flag set and then once more with the flag set returns without
  error and leaves the state as it was; normalizing with the flag not set leaves the
  state as it was; and one normalization with the flag set exchanges the two entries.
\<close>

theorem standardize_shape_self_inverse:
  assumes "sizes (heap s h) = [2]" "strides (heap s h) = [1]" "scalar_type (heap s h) = kInt"
    and "elems (heap s h) = r # c # rest"
  shows "bindS (standardize_shape h True) (\<lambda>_. standardize_shape h True) s = (Inr (), s) \<and>
         standardize_shape h False s = (Inr (), s) \<and>
         entries (heap s h) = [r, c] \<and>
         entries (heap (snd (standardize_shape h True s)) h) = [c, r]"
proof -
  have nd: "ndimension (heap s h) = 1" using assms(1) by (simp add: ndimension_def)
  have same: "s\<lparr>heap := (heap s)(h := (heap s h)\<lparr>elems := r # c # rest\<rparr>)\<rparr> = s"
    using heap_upd_same[of s h] unfolding assms(4) .
  define s1 where "s1 = s\<lparr>heap := (heap s)(h := (heap s h)\<lparr>elems := c # r # rest\<rparr>)\<rparr>"
  have 1: "standardize_shape h True s = (Inr (), s1)"
    using standardize_shape_eq[OF nd assms(3,2,4), of True] by (simp add: s1_def)
  have p: "ndimension (heap s1 h) = 1" "scalar_type (heap s1 h) = kInt"
    "strides (heap s1 h) = [1]" "elems (heap s1 h) = c # r # rest"
    using assms by (simp_all add: s1_def ndimension_def)
  have "s1\<lparr>heap := (heap s1)(h := (heap s1 h)\<lparr>elems := r # c # rest\<rparr>)\<rparr> =
        s\<lparr>heap := (heap s)(h := (heap s h)\<lparr>elems := r # c # rest\<rparr>)\<rparr>"
    by (simp add: s1_def)
  then have 2: "standardize_shape h True s1 = (Inr (), s)"
    using standardize_shape_eq[OF p, of True] same by simp
  have 3: "standardize_shape h False s = (Inr (), s)"
    using standardize_shape_eq[OF nd assms(3,2,4), of False] same by simp
  have 4: "entries (heap s h) = [r, c]" "entries (heap s1 h) = [c, r]"
    using assms by (simp_all add: entries_def s1_def upt_conv_Cons)
  show ?thesis using 1 2 3 4 by (simp add: bindS_def)
qed

theorem standardize_shape_self_inverse_witness:
  "sizes (heap op_state 0) = [2] \<and> strides (heap op_state 0) = [1] \<and>
   scalar_type (heap op_state 0) = kInt \<and> elems (heap op_state 0) = [128, 256] \<and>
   bindS (standardize_shape 0 True) (\<lambda>_. standardize_shape 0 True) op_state = (Inr (), op_state) \<and>
   standardize_shape 0 False op_state = (Inr (), op_state) \<and>
   entries (heap op_state 0) = [128, 256] \<and>
   entries (heap (snd (standardize_shape 0 True op_state)) 0) = [256, 128]"
proof -
  have h: "sizes (heap op_state 0) = [2]" "strides (heap op_state 0) = [1]"
    "scalar_type (heap op_state 0) = kInt" "elems (heap op_state 0) = [128, 256]"
    by (simp_all add: op_state_def sparse_heap_def vec_def)
  show ?thesis using standardize_shape_self_inverse [OF h] h by simp
qed

section \<open>The validity check comes before every allocation and every kernel call\<close>

text \<open>
  C8: in each of the five operations the check of the problem's dimensions is the first
  call: a run that has made no call has failed; the first call of any other run is the
  validity check, and when the check rejects the problem it stays the only call and the
  run fails with the error of the check. So no transpose view is computed, no bitmask
  workspace is allocated and no kernel is called before the check or after it has
  rejected the problem.
\<close>

theorem validity_check_comes_first:
  "validated_first (dsd E shape data offsets indices ta dense out) s \<and>
   validated_first (dds E dense shape data offsets indices tb out) s \<and>
   validated_first (sdd E dense dense' shape data offsets indices) s \<and>
   validated_first (ssd E shape data offsets indices ta dense oshape odata ooffsets oindices) s \<and>
   validated_first (dss E shape data offsets indices ta rshape rdata roffsets rindices tb out) s"
  using dsd_check_first[of E shape data offsets indices ta dense out s]
    dds_check_first[of E dense shape data offsets indices tb out s]
    sdd_check_first[of E dense dense' shape data offsets indices s]
    ssd_check_first[of E shape data offsets indices ta dense oshape odata ooffsets oindices s]
    dss_check_first[of E shape data offsets indices ta rshape rdata roffsets rindices tb out s]
  unfolding post_def validated_first_def by blast

text \<open>
  With a validity check that rejects: dsd and dss fail with the error of the check, and
  the check is their only call.
\<close>

theorem validity_check_comes_first_witness:
  "fst (dsd E_reject 0 1 2 3 4 6 7 op_state) = Inl CheckFailed \<and>
   kinds (dsd E_reject 0 1 2 3 4 6 7) op_state = [KValid False] \<and>
   fst (dss E_reject 0 1 2 3 4 8 1 2 3 5 7 op_state) = Inl CheckFailed \<and>
   kinds (dss E_reject 0 1 2 3 4 8 1 2 3 5 7) op_state = [KValid False]"
proof -
  have k: "kinds (dsd E_reject 0 1 2 3 4 6 7) op_state = [KValid False]"
    "kinds (dss E_reject 0 1 2 3 4 8 1 2 3 5 7) op_state = [KValid False]"
    using dsd_rejected_run dss_rejected_run by (simp_all add: post_def kinds_def)
  note v = validity_check_comes_first [where E = E_reject and s = op_state and shape = 0
      and data = 1 and offsets = 2 and indices = 3 and ta = 4 and tb = 5 and dense = 6
      and out = 7 and rshape = 8 and rdata = 1 and roffsets = 2 and rindices = 3]
  have c: "check_first (fst (dsd E_reject 0 1 2 3 4 6 7 op_state))
          (new_events op_state (snd (dsd E_reject 0 1 2 3 4 6 7 op_state)))"
    "check_first (fst (dss E_reject 0 1 2 3 4 8 1 2 3 5 7 op_state))
          (new_events op_state (snd (dss E_reject 0 1 2 3 4 8 1 2 3 5 7 op_state)))"
    using v by (simp_all add: validated_first_def)
  show ?thesis
    using check_first_rejected [OF c(1) k(1)[unfolded kinds_def]]
      check_first_rejected [OF c(2) k(2)[unfolded kinds_def]] k
    by simp
qed

section \<open>What an operation writes\<close>

text \<open>
  C9, as stated: after a call with the flag set the caller's shape tensor would hold the
  exchanged pair. The sparse-sparse operation normalizes the shape of its left operand
  and then the shape of its right operand, each in place. Called with one shape tensor
  for both operands and both flags set, it exchanges the entries of that tensor twice:
  the call returns and the shape \<open>[128, 256]\<close> is \<open>[128, 256]\<close> again. And the
  normalizer writes the first two cells of the buffer of the shape whatever the stride
  is: dsd called with the flag set on the shape \<open>[128, 256]\<close> held in every second cell
  of \<open>[128, 999, 256]\<close> returns and leaves \<open>[256, 128, 256]\<close>, the entries
  \<open>[256, 256]\<close>, having written a cell that is no entry of the shape.
\<close>

theorem shape_written_twice_counterexample:
  "flag alias_state 4 \<and> elems (heap alias_state 0) = [128, 256] \<and>
   fst (dss E_ref 0 1 9 10 4 0 1 2 3 4 7 alias_state) = Inr () \<and>
   elems (heap (snd (dss E_ref 0 1 9 10 4 0 1 2 3 4 7 alias_state)) 0) = [128, 256] \<and>
   flag strided_state 4 \<and> heap strided_state 0 = strided_shape \<and>
   entries strided_shape = [128, 256] \<and>
   fst (dsd E_ref 0 1 9 10 4 6 7 strided_state) = Inr () \<and>
   elems (heap (snd (dsd E_ref 0 1 9 10 4 6 7 strided_state)) 0) = [256, 128, 256] \<and>
   entries (heap (snd (dsd E_ref 0 1 9 10 4 6 7 strided_state)) 0) = [256, 256]"
proof -
  have a: "flag alias_state 4" "elems (heap alias_state 0) = [128, 256]"
    by (simp_all add: flag_def alias_state_def sparse_heap_def vec_def)
  have b: "flag strided_state 4" "heap strided_state 0 = strided_shape"
    "entries strided_shape = [128, 256]"
    by (simp_all add: flag_def strided_state_def op_state_def sparse_heap_def vec_def
          strided_shape_def entries_def upt_conv_Cons)
  have c: "fst (dsd E_ref 0 1 9 10 4 6 7 strided_state) = Inr ()"
    "elems (heap (snd (dsd E_ref 0 1 9 10 4 6 7 strided_state)) 0) = [256, 128, 256]"
    using dsd_strided_run by (simp_all add: post_def)
  have fr: "\<forall>h. h \<noteq> 0 \<longrightarrow> heap (snd (dsd E_ref 0 1 9 10 4 6 7 strided_state)) h = heap strided_state h"
    using dsd_frame_post[of E_ref 0 1 9 10 4 6 7 strided_state] by (simp add: post_def)
  have d: "sizes (heap (snd (dsd E_ref 0 1 9 10 4 6 7 strided_state)) 0) = [2] \<and>
           strides (heap (snd (dsd E_ref 0 1 9 10 4 6 7 strided_state)) 0) = [2]"
    using dsd_heap_post[of E_ref 0 1 9 10 4 6 7 strided_state]
      dsd_check_first[of E_ref 0 1 9 10 4 6 7 strided_state] c(1) check_first_returns
    by (auto simp: post_def b(2) strided_shape_def normalized_def)
  have e: "entries (heap (snd (dsd E_ref 0 1 9 10 4 6 7 strided_state)) 0) = [256, 256]"
    using c(2) d by (simp add: entries_def upt_conv_Cons)
  show ?thesis
    using a b c e dss_alias_run by (simp add: post_def)
qed

text \<open>
  C9, amended: let the shape tensors be contiguous vectors. After a run of dsd, dds or
  ssd that returns, the shape of the sparse operand with the transpose flag has its two
  entries exchanged when the flag is set and is as it was when it is not. A run of dss
  that returns has done this to the left shape and then to the right shape: two distinct
  shape tensors each hold their exchanged pair when their flag is set, and one shape
  tensor given for both operands is exchanged once for each flag that is set. No run of
  the four, returning or not, writes a tensor other than these shapes: leaving aside the
  output, which the kernel writes, every other tensor, and so the data, offsets and
  indices of the sparse operands, is as it was.
\<close>

theorem shape_written_in_place:
  assumes cont: "strides (heap s shape) = [1]" "strides (heap s rshape) = [1]"
  shows
  "(returns (dsd E shape data offsets indices ta dense out) s \<longrightarrow>
      heap (snd (dsd E shape data offsets indices ta dense out s)) shape =
        swapped_if (flag s ta) (heap s shape)) \<and>
   (returns (dds E dense shape data offsets indices tb out) s \<longrightarrow>
      heap (snd (dds E dense shape data offsets indices tb out s)) shape =
        swapped_if (flag s tb) (heap s shape)) \<and>
   (returns (ssd E shape data offsets indices ta dense oshape odata ooffsets oindices) s \<longrightarrow>
      heap (snd (ssd E shape data offsets indices ta dense oshape odata ooffsets oindices s)) shape =
        swapped_if (flag s ta) (heap s shape)) \<and>
   (returns (dss E shape data offsets indices ta rshape rdata roffsets rindices tb out) s \<longrightarrow>
      heap (snd (dss E shape data offsets indices ta rshape rdata roffsets rindices tb out s)) rshape =
        swapped_if (flag s tb)
          (if rshape = shape then swapped_if (flag s ta) (heap s shape) else heap s rshape) \<and>
      heap (snd (dss E shape data offsets indices ta rshape rdata roffsets rindices tb out s)) shape =
        (if rshape = shape then swapped_if (flag s tb) (swapped_if (flag s ta) (heap s shape))
         else swapped_if (flag s ta) (heap s shape))) \<and>
   (\<forall>h. h \<noteq> shape \<and> h \<noteq> out \<longrightarrow>
      heap (snd (dsd E shape data offsets indices ta dense out s)) h = heap s h \<and>
      heap (snd (dds E dense shape data offsets indices tb out s)) h = heap s h) \<and>
   (\<forall>h. h \<noteq> shape \<and> h \<noteq> oshape \<and> h \<noteq> odata \<and> h \<noteq> ooffsets \<and> h \<noteq> oindices \<longrightarrow>
      heap (snd (ssd E shape data offsets indices ta dense oshape odata ooffsets oindices s)) h =
        heap s h) \<and>
   (\<forall>h. h \<noteq> shape \<and> h \<noteq> rshape \<and> h \<noteq> out \<longrightarrow>
      heap (snd (dss E shape data offsets indices ta rshape rdata roffsets rindices tb out s)) h =
        heap s h)"
proof (intro conjI)
  have n1: "normalized b (heap s shape) = swapped_if b (heap s shape)" for b
    using cont(1) by (rule normalized_contiguous)
  have n2: "normalized b (((heap s)(shape := swapped_if b' (heap s shape))) rshape) =
            swapped_if b (((heap s)(shape := swapped_if b' (heap s shape))) rshape)" for b b'
    by (rule normalized_contiguous) (use cont in \<open>simp add: swapped_if_def swapped_def\<close>)
  have "returns (dsd E shape data offsets indices ta dense out) s \<longrightarrow>
      heap (snd (dsd E shape data offsets indices ta dense out s)) =
        (heap s)(shape := swapped_if (flag s ta) (heap s shape))"
    using dsd_heap_post[of E shape data offsets indices ta dense out s]
      dsd_check_first[of E shape data offsets indices ta dense out s] check_first_returns
    unfolding post_def returns_def n1 by metis
  then show "returns (dsd E shape data offsets indices ta dense out) s \<longrightarrow>
      heap (snd (dsd E shape data offsets indices ta dense out s)) shape =
        swapped_if (flag s ta) (heap s shape)"
    by simp
  have "returns (dds E dense shape data offsets indices tb out) s \<longrightarrow>
      heap (snd (dds E dense shape data offsets indices tb out s)) =
        (heap s)(shape := swapped_if (flag s tb) (heap s shape))"
    using dds_heap_post[of E dense shape data offsets indices tb out s]
      dds_check_first[of E dense shape data offsets indices tb out s] check_first_returns
    unfolding post_def returns_def n1 by metis
  then show "returns (dds E dense shape data offsets indices tb out) s \<longrightarrow>
      heap (snd (dds E dense shape data offsets indices tb out s)) shape =
        swapped_if (flag s tb) (heap s shape)"
    by simp
  have "returns (ssd E shape data offsets indices ta dense oshape odata ooffsets oindices) s \<longrightarrow>
      heap (snd (ssd E shape data offsets indices ta dense oshape odata ooffsets oindices s)) =
        (heap s)(shape := swapped_if (flag s ta) (heap s shape))"
    using ssd_heap_post[of E shape data offsets indices ta dense oshape odata ooffsets oindices s]
      ssd_check_first[of E shape data offsets indices ta dense oshape odata ooffsets oindices s]
      check_first_returns
    unfolding post_def returns_def n1 by metis
  then show "returns (ssd E shape data offsets indices ta dense oshape odata ooffsets oindices) s \<longrightarrow>
      heap (snd (ssd E shape data offsets indices ta dense oshape odata ooffsets oindices s)) shape =
        swapped_if (flag s ta) (heap s shape)"
    by simp
  have "returns (dss E shape data offsets indices ta rshape rdata roffsets rindices tb out) s \<longrightarrow>
      heap (snd (dss E shape data offsets indices ta rshape rdata roffsets rindices tb out s)) =
        (let H1 = (heap s)(shape := swapped_if (flag s ta) (heap s shape))
         in H1(rshape := swapped_if (flag s tb) (H1 rshape)))"
    using dss_heap_post[of E shape data offsets indices ta rshape rdata roffsets rindices tb out s]
      dss_check_first[of E shape data offsets indices ta rshape rdata roffsets rindices tb out s]
      check_first_returns
    unfolding post_def returns_def Let_def n1 n2 by metis
  then show "returns (dss E shape data offsets indices ta rshape rdata roffsets rindices tb out) s \<longrightarrow>
      heap (snd (dss E shape data offsets indices ta rshape rdata roffsets rindices tb out s)) rshape =
        swapped_if (flag s tb)
          (if rshape = shape then swapped_if (flag s ta) (heap s shape) else heap s rshape) \<and>
      heap (snd (dss E shape data offsets indices ta rshape rdata roffsets rindices tb out s)) shape =
        (if rshape = shape then swapped_if (flag s tb) (swapped_if (flag s ta) (heap s shape))
         else swapped_if (flag s ta) (heap s shape))"
    by (auto simp: Let_def)
  show "\<forall>h. h \<noteq> shape \<and> h \<noteq> out \<longrightarrow>
      heap (snd (dsd E shape data offsets indices ta dense out s)) h = heap s h \<and>
      heap (snd (dds E dense shape data offsets indices tb out s)) h = heap s h"
    using dsd_frame_post[of E shape data offsets indices ta dense out s]
      dds_frame_post[of E dense shape data offsets indices tb out s]
    unfolding post_def by blast
  show "\<forall>h. h \<noteq> shape \<and> h \<noteq> oshape \<and> h \<noteq> odata \<and> h \<noteq> ooffsets \<and> h \<noteq> oindices \<longrightarrow>
      heap (snd (ssd E shape data offsets indices ta dense oshape odata ooffsets oindices s)) h =
        heap s h"
    using ssd_frame_post[of E shape data offsets indices ta dense oshape odata ooffsets oindices s]
    unfolding post_def by blast
  show "\<forall>h. h \<noteq> shape \<and> h \<noteq> rshape \<and> h \<noteq> out \<longrightarrow>
      heap (snd (dss E shape data offsets indices ta rshape rdata roffsets rindices tb out s)) h =
        heap s h"
    using dss_frame_post[of E shape data offsets indices ta rshape rdata roffsets rindices tb out s]
    unfolding post_def by blast
qed

text \<open>
  On the reference state: dsd with the flag set exchanges the shape at 0, and dss with
  the left flag set and the right flag not set exchanges the shape at 0 and leaves the
  shape at 8; data, offsets and indices (1, 2 and 3) are as they were.
\<close>

theorem shape_written_in_place_witness:
  "strides (heap op_state 0) = [1] \<and> strides (heap op_state 8) = [1] \<and>
   returns (dsd E_ref 0 1 2 3 4 6 7) op_state \<and>
   elems (heap op_state 0) = [128, 256] \<and>
   elems (heap (snd (dsd E_ref 0 1 2 3 4 6 7 op_state)) 0) = [256, 128] \<and>
   heap (snd (dsd E_ref 0 1 2 3 4 6 7 op_state)) 1 = heap op_state 1 \<and>
   heap (snd (dsd E_ref 0 1 2 3 4 6 7 op_state)) 2 = heap op_state 2 \<and>
   heap (snd (dsd E_ref 0 1 2 3 4 6 7 op_state)) 3 = heap op_state 3 \<and>
   returns (dss E_ref 0 1 2 3 4 8 1 2 3 5 7) op_state \<and>
   elems (heap (snd (dss E_ref 0 1 2 3 4 8 1 2 3 5 7 op_state)) 0) = [256, 128] \<and>
   elems (heap (snd (dss E_ref 0 1 2 3 4 8 1 2 3 5 7 op_state)) 8) = [256, 128] \<and>
   elems (heap op_state 8) = [256, 128] \<and>
   heap (snd (dss E_ref 0 1 2 3 4 8 1 2 3 5 7 op_state)) 1 = heap op_state 1"
proof -
  have r: "returns (dsd E_ref 0 1 2 3 4 6 7) op_state"
    "returns (dss E_ref 0 1 2 3 4 8 1 2 3 5 7) op_state"
    using dsd_run dss_run by (simp_all add: post_def returns_def)
  have e: "elems (heap op_state 0) = [128, 256]" "elems (heap op_state 8) = [256, 128]"
    "strides (heap op_state 0) = [1]" "strides (heap op_state 8) = [1]"
    by (simp_all add: op_state_def sparse_heap_def vec_def)
  note a = shape_written_in_place [OF e(3,4), where E = E_ref
      and data = 1 and offsets = 2 and indices = 3 and ta = 4 and tb = 5 and dense = 6
      and out = 7 and oshape = 8 and odata = 1 and ooffsets = 2 and oindices = 3
      and rdata = 1 and roffsets = 2 and rindices = 3]
  show ?thesis
    using a r e flag_op_state by (simp add: swapped_if_def swapped_def Let_def)
qed

section \<open>What validation of a block-sparse quadruple checks\<close>

text \<open>
  C10: the validation accepts a quadruple exactly when the shape is on the host, has two
  elements and 32-bit integer entries, data is on the device, has three dimensions and
  half-precision entries, offsets and indices are on the device, have one dimension and
  32-bit, respectively 16-bit, integer entries, and the last two sizes of data are both
  128. No entry of shape, offsets or indices and no length of offsets or indices is
  looked at: an accepted quadruple stays accepted whatever the entries of the three and
  whatever the length of offsets become. The conversion to a descriptor adds no check
  of them either: on an accepted quadruple with a one-dimensional shape whose buffer
  holds its entries it returns the descriptor with the two entries of the shape as rows
  and columns.
\<close>

theorem validate_sparse_accepts_iff:
  "(validate_sparse shape data offsets indices = Inr () \<longleftrightarrow>
      \<not> is_cuda shape \<and> numel shape = 2 \<and> scalar_type shape = kInt \<and>
      is_cuda data \<and> ndimension data = 3 \<and> scalar_type data = kHalf \<and>
      is_cuda offsets \<and> ndimension offsets = 1 \<and> scalar_type offsets = kInt \<and>
      is_cuda indices \<and> ndimension indices = 1 \<and> scalar_type indices = kShort \<and>
      sizes data ! 1 = 128 \<and> sizes data ! 2 = 128) \<and>
   (validate_sparse shape data offsets indices = Inr () \<longrightarrow>
      validate_sparse (shape\<lparr>elems := es\<rparr>) data (offsets\<lparr>sizes := [n], elems := os\<rparr>)
        (indices\<lparr>elems := ixs\<rparr>) = Inr ()) \<and>
   (validate_sparse (H sh) (H da) (H off) (H ix) = Inr () \<and> ndimension (H sh) = 1 \<and>
    strides (H sh) ! 0 < length (elems (H sh)) \<longrightarrow>
      (\<exists>m. as_block_matrix H sh da off ix = Inr m \<and>
           rows m = entries (H sh) ! 0 \<and> cols m = entries (H sh) ! 1 \<and>
           offsets_ptr m = off \<and> indices_ptr m = ix))"
proof (intro conjI)
  show "validate_sparse shape data offsets indices = Inr () \<longleftrightarrow>
      \<not> is_cuda shape \<and> numel shape = 2 \<and> scalar_type shape = kInt \<and>
      is_cuda data \<and> ndimension data = 3 \<and> scalar_type data = kHalf \<and>
      is_cuda offsets \<and> ndimension offsets = 1 \<and> scalar_type offsets = kInt \<and>
      is_cuda indices \<and> ndimension indices = 1 \<and> scalar_type indices = kShort \<and>
      sizes data ! 1 = 128 \<and> sizes data ! 2 = 128"
    by (auto simp: validate_sparse_def validate_shape_def bind_eq_Inr TORCH_CHECK_eq_Inr
          size_at_def is_cuda_def numel_def ndimension_def)
  show "validate_sparse shape data offsets indices = Inr () \<longrightarrow>
      validate_sparse (shape\<lparr>elems := es\<rparr>) data (offsets\<lparr>sizes := [n], elems := os\<rparr>)
        (indices\<lparr>elems := ixs\<rparr>) = Inr ()"
    by (auto simp: validate_sparse_def validate_shape_def bind_eq_Inr TORCH_CHECK_eq_Inr
          size_at_def is_cuda_def numel_def ndimension_def)
  show "validate_sparse (H sh) (H da) (H off) (H ix) = Inr () \<and> ndimension (H sh) = 1 \<and>
    strides (H sh) ! 0 < length (elems (H sh)) \<longrightarrow>
      (\<exists>m. as_block_matrix H sh da off ix = Inr m \<and>
           rows m = entries (H sh) ! 0 \<and> cols m = entries (H sh) ! 1 \<and>
           offsets_ptr m = off \<and> indices_ptr m = ix)"
  proof
    assume a: "validate_sparse (H sh) (H da) (H off) (H ix) = Inr () \<and> ndimension (H sh) = 1 \<and>
      strides (H sh) ! 0 < length (elems (H sh))"
    then have t: "scalar_type (H sh) = kInt" "ndimension (H da) = 3" "numel (H sh) = 2"
      by (auto simp: validate_sparse_def validate_shape_def bind_eq_Inr TORCH_CHECK_eq_Inr)
    have "sizes (H sh) = [2]"
      using a t(3) by (cases "sizes (H sh)") (auto simp: ndimension_def numel_def)
    then have e: "entries (H sh) ! 0 = elems (H sh) ! 0"
      "entries (H sh) ! 1 = elems (H sh) ! (strides (H sh) ! 0)"
      by (simp_all add: entries_nth)
    have ne: "elems (H sh) \<noteq> []" using a by auto
    show "\<exists>m. as_block_matrix H sh da off ix = Inr m \<and>
           rows m = entries (H sh) ! 0 \<and> cols m = entries (H sh) ! 1 \<and>
           offsets_ptr m = off \<and> indices_ptr m = ix"
      using a t e ne by (simp add: as_block_matrix_def bind_def access_metadata_def size_at_def)
  qed
qed

text \<open>
  A shape that is no multiple of 128, offsets that decrease, do not start at 0 and have
  the wrong length, and indices out of range are accepted, and a descriptor of 100 rows
  and 37 columns is made of them.
\<close>

theorem validate_sparse_accepts_iff_witness:
  "validate_sparse (scenario_heap 0) (scenario_heap 1) (scenario_heap 2) (scenario_heap 3) = Inr () \<and>
   validate_sparse ((scenario_heap 0)\<lparr>elems := [100, 37]\<rparr>) (scenario_heap 1)
     ((scenario_heap 2)\<lparr>sizes := [2], elems := [5, 3]\<rparr>)
     ((scenario_heap 3)\<lparr>elems := [- 7, 900]\<rparr>) = Inr () \<and>
   validate_sparse (broken_heap 0) (broken_heap 1) (broken_heap 2) (broken_heap 3) = Inr () \<and>
   (\<exists>m. as_block_matrix broken_heap 0 1 2 3 = Inr m \<and> rows m = 100 \<and> cols m = 37)"
proof -
  have h: "validate_sparse (scenario_heap 0) (scenario_heap 1) (scenario_heap 2) (scenario_heap 3) = Inr ()"
    "validate_sparse (broken_heap 0) (broken_heap 1) (broken_heap 2) (broken_heap 3) = Inr ()"
    by (simp_all add: scenario_heap_def broken_heap_def fixture_simps check_simps)
  have e: "ndimension (broken_heap 0) = 1" "entries (broken_heap 0) = [100, 37]"
    "strides (broken_heap 0) ! 0 < length (elems (broken_heap 0))"
    by (simp_all add: broken_heap_def fixture_simps ndimension_def)
  note a = validate_sparse_accepts_iff [where shape = "scenario_heap 0" and data = "scenario_heap 1"
        and offsets = "scenario_heap 2" and indices = "scenario_heap 3" and es = "[100, 37]"
        and n = 2 and os = "[5, 3]" and ixs = "[- 7, 900]" and H = broken_heap and sh = 0
        and da = 1 and off = 2 and ix = 3]
  show ?thesis using a h e by auto
qed

end
